theory Spec2Isabelle
  imports Main "HOL-Library.Char_ord"
begin

unbundle bit_operations_syntax

section \<open>The environment of the generator\<close>

text \<open>
  Both programs (\<^verbatim>\<open>src/main.go\<close> and the older \<^verbatim>\<open>src/unnamed/part_000\<close>) talk to the
  operating system through \<^verbatim>\<open>os.Getwd\<close>, \<^verbatim>\<open>filepath.Abs\<close>, \<^verbatim>\<open>filepath.Base\<close>,
  \<^verbatim>\<open>strings.ToLower\<close>, \<^verbatim>\<open>os.OpenFile\<close>, \<^verbatim>\<open>Write\<close>, \<^verbatim>\<open>Close\<close> and \<^verbatim>\<open>os.Remove\<close>.
  The world below is what these calls read and change: the regular files by absolute
  path, the working directory (\<open>None\<close> when \<^verbatim>\<open>os.Getwd\<close> fails), the paths at which
  opening is refused (for want of a permission or of the directory), and the outcome of
  the writes still to come (\<open>None\<close>: the write succeeds; \<open>Some k\<close>: the write fails
  after \<open>k\<close> bytes reached the file; no entry left: the write succeeds). Directories
  are not in the model, and nothing but the program changes the world during a run.
\<close>

datatype error =
    ErrFlags        \<comment> \<open>\<^verbatim>\<open>-name\<close> and \<^verbatim>\<open>-dir\<close> given together\<close>
  | ErrEmptyAdd     \<comment> \<open>\<^verbatim>\<open>-add\<close> given with an empty argument\<close>
  | ErrGetwd        \<comment> \<open>the working directory cannot be read\<close>
  | ErrExist        \<comment> \<open>\<^verbatim>\<open>EEXIST\<close>\<close>
  | ErrNotExist     \<comment> \<open>\<^verbatim>\<open>ENOENT\<close>\<close>
  | ErrPermission   \<comment> \<open>\<^verbatim>\<open>EACCES\<close>\<close>
  | ErrWrite        \<comment> \<open>a failed write\<close>

record world =
  files :: "string \<rightharpoonup> string"
  cwd :: "string option"
  noaccess :: "string list"
  wfaults :: "nat option list"

type_synonym handle = string

type_synonym 'a io = "world \<Rightarrow> 'a \<times> world"

subsection \<open>Paths and strings\<close>

text \<open>
  \<^verbatim>\<open>strings.ToLower\<close>, on ASCII: the letters \<^verbatim>\<open>A\<close> to \<^verbatim>\<open>Z\<close> are mapped to \<^verbatim>\<open>a\<close> to
  \<^verbatim>\<open>z\<close>, every other byte below 128 is kept. Bytes from 128 on are kept too, which is
  where the model stops following Go: there \<^verbatim>\<open>strings.ToLower\<close> decodes UTF-8.
\<close>

definition strings_ToLower :: "string \<Rightarrow> string" where
  "strings_ToLower s =
     map (\<lambda>c. if CHR ''A'' \<le> c \<and> c \<le> CHR ''Z'' then char_of (of_char c + (32::nat)) else c) s"

text \<open>The elements of a path between its separators; \<open>''a//b''\<close> has an empty one.\<close>

fun elements :: "string \<Rightarrow> string list" where
  "elements [] = [[]]"
| "elements (c # cs) =
     (if c = CHR ''/'' then [] # elements cs
      else (c # hd (elements cs)) # tl (elements cs))"

text \<open>
  \<^verbatim>\<open>filepath.Clean\<close> on a rooted path: empty elements and \<^verbatim>\<open>.\<close> are dropped, \<^verbatim>\<open>..\<close>
  removes the element before it and is dropped at the root. The elements kept so far
  are held last first.
\<close>

definition clean_step :: "string list \<Rightarrow> string \<Rightarrow> string list" where
  "clean_step st e =
     (if e = [] \<or> e = ''.'' then st
      else if e = ''..'' then (case st of [] \<Rightarrow> [] | _ # r \<Rightarrow> r)
      else e # st)"

definition rooted :: "string list \<Rightarrow> string" where
  "rooted st = (if st = [] then ''/'' else concat (map (\<lambda>e. CHR ''/'' # e) (rev st)))"

definition filepath_Clean :: "string \<Rightarrow> string" where
  "filepath_Clean p = rooted (foldl clean_step [] (elements p))"

text \<open>
  \<^verbatim>\<open>filepath.Abs\<close> (Unix): an absolute path is cleaned; any other path is joined to the
  working directory, which is an absolute path, and cleaned; the call fails when the
  working directory cannot be read.
\<close>

definition filepath_Abs :: "string \<Rightarrow> world \<Rightarrow> error + string" where
  "filepath_Abs p w =
     (if p \<noteq> [] \<and> hd p = CHR ''/'' then Inr (filepath_Clean p)
      else (case cwd w of
              None \<Rightarrow> Inl ErrGetwd
            | Some wd \<Rightarrow> Inr (filepath_Clean (wd @ ''/'' @ p))))"

text \<open>
  \<^verbatim>\<open>filepath.Base\<close>: the last element of the path, after its trailing slashes are
  removed; \<^verbatim>\<open>.\<close> for the empty path and \<^verbatim>\<open>/\<close> for a path of slashes only.
\<close>

definition filepath_Base :: "string \<Rightarrow> string" where
  "filepath_Base p =
     (if p = [] then ''.''
      else (let q = dropWhile (\<lambda>c. c = CHR ''/'') (rev p);
                r = rev (takeWhile (\<lambda>c. c \<noteq> CHR ''/'') q)
            in if r = [] then ''/'' else r))"

subsection \<open>Opening, writing and removing files\<close>

definition O_WRONLY :: int where "O_WRONLY = 0x1"

definition O_RDWR :: int where "O_RDWR = 0x2"

definition O_CREATE :: int where "O_CREATE = 0x40"

definition O_EXCL :: int where "O_EXCL = 0x80"

definition O_TRUNC :: int where "O_TRUNC = 0x200"

text \<open>
  \<^verbatim>\<open>os.OpenFile\<close> for writing. With \<^verbatim>\<open>O_CREATE\<close> and \<^verbatim>\<open>O_EXCL\<close> an existing path is
  an error; otherwise an existing file is opened, and emptied under \<^verbatim>\<open>O_TRUNC\<close>. A
  missing file is created under \<^verbatim>\<open>O_CREATE\<close>. The handle is the path: it is written
  from its start onwards on a file that is empty when opened, so that each write lands
  at the end of the file. (An existing file opened with neither \<^verbatim>\<open>O_EXCL\<close> nor
  \<^verbatim>\<open>O_TRUNC\<close> would be written over from its start; neither program opens a file so.)
\<close>

definition OpenFile :: "string \<Rightarrow> int \<Rightarrow> (error + handle) io" where
  "OpenFile fn flag w =
     (case files w fn of
        Some c \<Rightarrow>
          if flag AND O_CREATE \<noteq> 0 \<and> flag AND O_EXCL \<noteq> 0 then (Inl ErrExist, w)
          else if fn \<in> set (noaccess w) then (Inl ErrPermission, w)
          else if flag AND O_TRUNC \<noteq> 0 then (Inr fn, w\<lparr>files := (files w)(fn \<mapsto> [])\<rparr>)
          else (Inr fn, w)
      | None \<Rightarrow>
          if flag AND O_CREATE = 0 then (Inl ErrNotExist, w)
          else if fn \<in> set (noaccess w) then (Inl ErrPermission, w)
          else (Inr fn, w\<lparr>files := (files w)(fn \<mapsto> [])\<rparr>))"

definition append_bytes :: "handle \<Rightarrow> string \<Rightarrow> (string \<rightharpoonup> string) \<Rightarrow> (string \<rightharpoonup> string)" where
  "append_bytes fd bs fs = (case fs fd of None \<Rightarrow> fs | Some c \<Rightarrow> fs(fd \<mapsto> c @ bs))"

text \<open>One \<^verbatim>\<open>Write\<close> call; \<^verbatim>\<open>fmt.Fprintf\<close> formats its text and issues one such call.\<close>

definition Write :: "handle \<Rightarrow> string \<Rightarrow> error option io" where
  "Write fd bs w =
     (case wfaults w of
        [] \<Rightarrow> (None, w\<lparr>files := append_bytes fd bs (files w)\<rparr>)
      | None # fs \<Rightarrow> (None, w\<lparr>files := append_bytes fd bs (files w), wfaults := fs\<rparr>)
      | Some k # fs \<Rightarrow>
          (Some ErrWrite, w\<lparr>files := append_bytes fd (take k bs) (files w), wfaults := fs\<rparr>))"

text \<open>\<^verbatim>\<open>Close\<close> changes nothing that the programs observe; its result is discarded.\<close>

definition Close :: "handle \<Rightarrow> world \<Rightarrow> world" where
  "Close fd w = w"

text \<open>\<^verbatim>\<open>os.Remove\<close>; its result is discarded by both programs.\<close>

definition Remove :: "string \<Rightarrow> world \<Rightarrow> world" where
  "Remove fn w = w\<lparr>files := (files w)(fn := None)\<rparr>"

subsection \<open>Sequencing\<close>

text \<open>
  \<^verbatim>\<open>if err = f(); err != nil { return }\<close> followed by the rest of the function, and in
  \<^verbatim>\<open>main\<close> the call of \<^verbatim>\<open>logErr\<close>, which leaves the process with status 1.
\<close>

definition ok :: "error option io" where
  "ok w = (None, w)"

definition andThen :: "error option io \<Rightarrow> error option io \<Rightarrow> error option io" where
  "andThen f k w = (case f w of (None, w') \<Rightarrow> k w' | (Some e, w') \<Rightarrow> (Some e, w'))"

definition exit_status :: "error option \<times> world \<Rightarrow> nat" where
  "exit_status r = (case fst r of None \<Rightarrow> 0 | Some e \<Rightarrow> 1)"

section \<open>The programs\<close>

subsection \<open>Constants and package-level variables\<close>

definition fileCreate :: int where
  "fileCreate = O_WRONLY OR O_CREATE OR O_EXCL OR O_TRUNC"

definition fileCreate_old :: int where
  "fileCreate_old = O_RDWR OR O_CREATE OR O_TRUNC"

definition byteUp :: nat where
  "byteUp = of_char (CHR ''a'') - of_char (CHR ''A'')"

definition sConsts :: string where "sConsts = ''_consts.h''"

definition sTypes :: string where "sTypes = ''_types.h''"

definition sInlines :: string where "sInlines = ''_inlines.h''"

definition pPub :: string where "pPub = ''pub''"

definition pPriv :: string where "pPriv = ''priv''"

definition pubConsts :: string where "pubConsts = ''pub_consts.h''"

definition pubTypes :: string where "pubTypes = ''pub_types.h''"

definition pubInlines :: string where "pubInlines = ''pub_inlines.h''"

definition pubIncludes :: string where "pubIncludes = ''pub_includes.h''"

definition privConsts :: string where "privConsts = ''priv_consts.h''"

definition privTypes :: string where "privTypes = ''priv_types.h''"

definition privInlines :: string where "privInlines = ''priv_inlines.h''"

definition privIncludes :: string where "privIncludes = ''priv_includes.h''"

text \<open>
  The package-level variables of the older program, and those of \<^verbatim>\<open>src/main.go\<close>,
  which has three more.
\<close>

record globals_old =
  name :: string
  useDir :: bool
  once :: bool
  isNameSet :: bool
  isDirSet :: bool

record globals = globals_old +
  pub :: bool
  pfx :: string
  isPfxSet :: bool

text \<open>
  The command line after \<^verbatim>\<open>flag.Parse\<close>: for each flag its value if it was given,
  \<open>None\<close> if it was not (\<^verbatim>\<open>flag.Visit\<close> visits the flags that were given, whatever
  their value).
\<close>

record cli =
  name_arg :: "string option"
  dir_arg :: "bool option"
  once_arg :: "bool option"
  pub_arg :: "bool option"
  add_arg :: "string option"

subsection \<open>Names: \<^verbatim>\<open>includeName\<close>, \<^verbatim>\<open>defName\<close>, \<^verbatim>\<open>fName\<close>\<close>

text \<open>\<^verbatim>\<open>includeName\<close> is the same text in both programs and reads \<^verbatim>\<open>name\<close> only.\<close>

definition includeName :: "'a globals_old_scheme \<Rightarrow> string \<Rightarrow> string" where
  "includeName g iname =
     (if length (name g) = 0 then iname else name g @ ''/'' @ iname)"

text \<open>
  The loop of \<^verbatim>\<open>defName\<close> in \<^verbatim>\<open>src/main.go\<close>: \<open>r\<close> is the slice appended to, the
  second argument the bytes still to visit.
\<close>

fun defName_loop :: "string \<Rightarrow> string \<Rightarrow> string" where
  "defName_loop r [] = r"
| "defName_loop r (b # bs) =
     defName_loop
       (if CHR ''0'' \<le> b \<and> b \<le> CHR ''9'' then r @ [b]
        else if CHR ''A'' \<le> b \<and> b \<le> CHR ''Z'' then r @ [b]
        else if CHR ''a'' \<le> b \<and> b \<le> CHR ''z'' then r @ [char_of (of_char b - byteUp)]
        else r @ [CHR ''_''])
       bs"

definition defName :: "globals \<Rightarrow> string \<Rightarrow> string" where
  "defName g iname =
     (let n = includeName g iname;
          r = [CHR ''_'', CHR ''_''];
          r = defName_loop r n
      in r @ [CHR ''_'', CHR ''_''])"

text \<open>The loop of \<^verbatim>\<open>defName\<close> in the older program, which has no case for digits.\<close>

fun defName_loop_old :: "string \<Rightarrow> string \<Rightarrow> string" where
  "defName_loop_old r [] = r"
| "defName_loop_old r (b # bs) =
     defName_loop_old
       (if CHR ''A'' \<le> b \<and> b \<le> CHR ''Z'' then r @ [b]
        else if CHR ''a'' \<le> b \<and> b \<le> CHR ''z'' then r @ [char_of (of_char b - byteUp)]
        else r @ [CHR ''_''])
       bs"

definition defName_old :: "globals_old \<Rightarrow> string \<Rightarrow> string" where
  "defName_old g iname =
     (let n = includeName g iname;
          r = [CHR ''_'', CHR ''_''];
          r = defName_loop_old r n
      in r @ [CHR ''_'', CHR ''_''])"

definition fName :: "globals \<Rightarrow> string \<Rightarrow> string" where
  "fName g suf = pfx g @ suf"

subsection \<open>Writing the parts of a file\<close>

definition writeHeader :: "globals \<Rightarrow> handle \<Rightarrow> string \<Rightarrow> error option io" where
  \<open>writeHeader g w iname =
     andThen (if once g then Write w ''#pragma once\<newline>\<newline>'' else ok)
       (let def = defName g iname
        in Write w (''#ifndef '' @ def @ ''\<newline>#define '' @ def @ ''\<newline>\<newline>''))\<close>

definition writeFooter :: "globals \<Rightarrow> handle \<Rightarrow> string \<Rightarrow> error option io" where
  \<open>writeFooter g w iname = Write w (''#endif //'' @ defName g iname @ ''\<newline>'')\<close>

definition writeInclude :: "'a globals_old_scheme \<Rightarrow> handle \<Rightarrow> string \<Rightarrow> error option io" where
  \<open>writeInclude g w iname = Write w (''#include "'' @ includeName g iname @ ''"\<newline>'')\<close>

definition writeHeader_old :: "globals_old \<Rightarrow> handle \<Rightarrow> string \<Rightarrow> error option io" where
  \<open>writeHeader_old g w iname =
     andThen (if once g then Write w ''#pragma once\<newline>\<newline>'' else ok)
       (let def = defName_old g iname
        in Write w (''#ifndef '' @ def @ ''\<newline>#define '' @ def @ ''\<newline>\<newline>''))\<close>

definition writeFooter_old :: "globals_old \<Rightarrow> handle \<Rightarrow> string \<Rightarrow> error option io" where
  \<open>writeFooter_old g w iname = Write w (''#endif //'' @ defName_old g iname @ ''\<newline>'')\<close>

text \<open>The loop \<^verbatim>\<open>for _, incName := range inc\<close>, which returns at the first failed write.\<close>

fun writeIncludes :: "'a globals_old_scheme \<Rightarrow> handle \<Rightarrow> string list \<Rightarrow> error option io" where
  "writeIncludes g w [] = ok"
| "writeIncludes g w (incName # inc) = andThen (writeInclude g w incName) (writeIncludes g w inc)"

subsection \<open>Creating files\<close>

definition createFile :: "string \<Rightarrow> (error + handle \<times> string) io" where
  "createFile fname w =
     (case filepath_Abs (strings_ToLower fname) w of
        Inl err \<Rightarrow> (Inl err, w)
      | Inr fn \<Rightarrow>
          (case OpenFile fn fileCreate w of
             (Inl err, w') \<Rightarrow> (Inl err, w')
           | (Inr fd, w') \<Rightarrow> (Inr (fd, fn), w')))"

definition createFile_old :: "string \<Rightarrow> (error + handle \<times> string) io" where
  "createFile_old fname w =
     (case filepath_Abs (strings_ToLower fname) w of
        Inl err \<Rightarrow> (Inl err, w)
      | Inr fn \<Rightarrow>
          (case OpenFile fn fileCreate_old w of
             (Inl err, w') \<Rightarrow> (Inl err, w')
           | (Inr fd, w') \<Rightarrow> (Inr (fd, fn), w')))"

text \<open>
  The deferred function of \<^verbatim>\<open>createNamedInc\<close> and \<^verbatim>\<open>createNamedSrc\<close>: it runs on
  every return after the file was created, closes the handle, and removes the file when
  the named result \<^verbatim>\<open>err\<close> is not nil.
\<close>

definition deferred :: "handle \<Rightarrow> string \<Rightarrow> error option \<times> world \<Rightarrow> error option \<times> world" where
  "deferred w fn r =
     (case r of (err, s) \<Rightarrow>
        (let s = Close w s
         in (err, if err \<noteq> None then Remove fn s else s)))"

definition createNamedInc :: "globals \<Rightarrow> string \<Rightarrow> string list \<Rightarrow> error option io" where
  "createNamedInc g iname inc s =
     (case createFile iname s of
        (Inl err, s) \<Rightarrow> (Some err, s)
      | (Inr (w, fn), s) \<Rightarrow>
          deferred w fn
            (andThen (writeHeader g w iname)
               (andThen (writeIncludes g w inc)
                  (andThen (if length inc > 0 then Write w [CHR 0x0A] else ok)
                     (writeFooter g w iname))) s))"

definition createNamedSrc :: "globals \<Rightarrow> string \<Rightarrow> string list \<Rightarrow> error option io" where
  "createNamedSrc g sname inc s =
     (case createFile sname s of
        (Inl err, s) \<Rightarrow> (Some err, s)
      | (Inr (w, fn), s) \<Rightarrow> deferred w fn (writeIncludes g w inc s))"

definition createNamedInc_old :: "globals_old \<Rightarrow> string \<Rightarrow> string list \<Rightarrow> error option io" where
  "createNamedInc_old g iname inc s =
     (case createFile_old iname s of
        (Inl err, s) \<Rightarrow> (Some err, s)
      | (Inr (w, fn), s) \<Rightarrow>
          deferred w fn
            (andThen (writeHeader_old g w iname)
               (andThen (writeIncludes g w inc)
                  (andThen (if length inc > 0 then Write w [CHR 0x0A] else ok)
                     (writeFooter_old g w iname))) s))"

definition createNamedSrc_old :: "globals_old \<Rightarrow> string \<Rightarrow> string list \<Rightarrow> error option io" where
  "createNamedSrc_old g sname inc s =
     (case createFile_old sname s of
        (Inl err, s) \<Rightarrow> (Some err, s)
      | (Inr (w, fn), s) \<Rightarrow> deferred w fn (writeIncludes g w inc s))"

subsection \<open>\<^verbatim>\<open>src/main.go\<close>: flags, tiers and \<^verbatim>\<open>main\<close>\<close>

definition checkFlags :: "cli \<Rightarrow> world \<Rightarrow> error + globals" where
  "checkFlags args w =
     (let g = \<lparr>name = (case name_arg args of None \<Rightarrow> [] | Some n \<Rightarrow> n),
               useDir = (case dir_arg args of None \<Rightarrow> False | Some b \<Rightarrow> b),
               once = (case once_arg args of None \<Rightarrow> False | Some b \<Rightarrow> b),
               isNameSet = (name_arg args \<noteq> None),
               isDirSet = (dir_arg args \<noteq> None),
               pub = (case pub_arg args of None \<Rightarrow> False | Some b \<Rightarrow> b),
               pfx = (case add_arg args of None \<Rightarrow> [] | Some p \<Rightarrow> p),
               isPfxSet = (add_arg args \<noteq> None)\<rparr>
      in if isNameSet g \<and> isDirSet g then Inl ErrFlags
         else if isPfxSet g \<and> length (pfx g) = 0 then Inl ErrEmptyAdd
         else (let g = (if isPfxSet g then g else g\<lparr>pfx := pPub\<rparr>)
               in if \<not> isDirSet g then Inr g
                  else (case cwd w of
                          None \<Rightarrow> Inl ErrGetwd
                        | Some path \<Rightarrow> Inr (g\<lparr>name := filepath_Base path\<rparr>))))"

definition createIncs :: "globals \<Rightarrow> bool \<Rightarrow> error option io" where
  "createIncs g first =
     andThen
       (if first then createNamedInc g (fName g sConsts) []
        else createNamedInc g (fName g sConsts) [pPub @ sInlines])
       (andThen (createNamedInc g (fName g sTypes) [fName g sConsts])
          (createNamedInc g (fName g sInlines) [fName g sTypes]))"

definition main :: "cli \<Rightarrow> error option io" where
  "main args w =
     (case checkFlags args w of
        Inl e \<Rightarrow> (Some e, w)
      | Inr g \<Rightarrow>
          andThen (createIncs g True)
            (if isPfxSet g then
               andThen (createNamedInc g (pfx g @ ''.h'') [fName g sInlines])
                 (createNamedSrc g (pfx g @ ''.c'') [pfx g @ ''.h''])
             else
               andThen
                 (if length (name g) > 0
                  then createNamedInc g (name g @ ''.h'') [fName g sInlines] else ok)
                 (if pub g then ok
                  else (let g = g\<lparr>pfx := pPriv\<rparr>
                        in andThen (createIncs g False)
                             (if length (name g) > 0
                              then createNamedSrc g (name g @ ''.c'') [fName g sInlines]
                              else ok)))) w)"

subsection \<open>The older program: flags and \<^verbatim>\<open>main\<close>\<close>

record cli_old =
  name_arg_old :: "string option"
  dir_arg_old :: "bool option"
  once_arg_old :: "bool option"

definition checkFlags_old :: "cli_old \<Rightarrow> world \<Rightarrow> error + globals_old" where
  "checkFlags_old args w =
     (let g = \<lparr>name = (case name_arg_old args of None \<Rightarrow> [] | Some n \<Rightarrow> n),
               useDir = (case dir_arg_old args of None \<Rightarrow> False | Some b \<Rightarrow> b),
               once = (case once_arg_old args of None \<Rightarrow> False | Some b \<Rightarrow> b),
               isNameSet = (name_arg_old args \<noteq> None),
               isDirSet = (dir_arg_old args \<noteq> None)\<rparr>
      in if isNameSet g \<and> isDirSet g then Inl ErrFlags
         else if \<not> isDirSet g then Inr g
         else (case cwd w of
                 None \<Rightarrow> Inl ErrGetwd
               | Some path \<Rightarrow> Inr (g\<lparr>name := filepath_Base path\<rparr>)))"

definition main_old :: "cli_old \<Rightarrow> error option io" where
  "main_old args w =
     (case checkFlags_old args w of
        Inl e \<Rightarrow> (Some e, w)
      | Inr g \<Rightarrow>
          andThen (createNamedInc_old g pubConsts [])
         (andThen (createNamedInc_old g pubTypes [pubConsts])
         (andThen (createNamedInc_old g pubInlines [pubTypes])
         (andThen (createNamedInc_old g pubIncludes [pubInlines])
         (andThen (createNamedInc_old g privConsts [pubIncludes])
         (andThen (createNamedInc_old g privTypes [privConsts])
         (andThen (createNamedInc_old g privInlines [privTypes])
         (andThen (createNamedInc_old g privIncludes [privInlines])
            (if length (name g) = 0 then ok
             else andThen (createNamedInc_old g (name g @ ''.h'') [pubIncludes])
                    (createNamedSrc_old g (name g @ ''.c'') [privIncludes]))))))))) w)"

section \<open>The words of the specification\<close>

subsection \<open>Character classes and the two normalisation rules\<close>

text \<open>
  The rule of each program as the specification words it: digits and uppercase letters
  pass, lowercase letters are upper-cased, every other byte becomes an underscore; the
  older program replaces digits as well.
\<close>

definition digits :: string where "digits = ''0123456789''"

definition uppers :: string where "uppers = ''ABCDEFGHIJKLMNOPQRSTUVWXYZ''"

definition lowers :: string where "lowers = ''abcdefghijklmnopqrstuvwxyz''"

definition upper_of :: "char \<Rightarrow> char" where
  "upper_of b = (case map_of (zip lowers uppers) b of None \<Rightarrow> b | Some u \<Rightarrow> u)"

definition norm_new :: "char \<Rightarrow> char" where
  "norm_new b =
     (if b \<in> set digits then b
      else if b \<in> set uppers then b
      else if b \<in> set lowers then upper_of b
      else CHR ''_'')"

definition norm_old :: "char \<Rightarrow> char" where
  "norm_old b = (if b \<in> set digits then CHR ''_'' else norm_new b)"

text \<open>
  The guard token that two underscores on each side make of a path normalised by the
  rule of \<^verbatim>\<open>src/main.go\<close>, and the counts of underscores at the two ends of a token.
\<close>

definition guard_of :: "string \<Rightarrow> string" where
  "guard_of path = ''__'' @ map norm_new path @ ''__''"

definition leading_underscores :: "string \<Rightarrow> nat" where
  "leading_underscores s = length (takeWhile (\<lambda>c. c = CHR ''_'') s)"

definition trailing_underscores :: "string \<Rightarrow> nat" where
  "trailing_underscores s = leading_underscores (rev s)"

subsection \<open>The text of a generated file\<close>

text \<open>
  An include file: the pragma line and a blank line in once-guard mode, the two lines
  of the guard, a blank line, one include line for each include path in order, a blank
  line if and only if there is an include, and the closing line of the guard. A source
  file: the include lines alone.
\<close>

definition include_line :: "string \<Rightarrow> string" where
  \<open>include_line p = ''#include "'' @ p @ ''"\<newline>''\<close>

definition inc_layout :: "bool \<Rightarrow> string \<Rightarrow> string list \<Rightarrow> string" where
  \<open>inc_layout pragma guard ps =
     (if pragma then ''#pragma once\<newline>'' @ ''\<newline>'' else []) @
     ''#ifndef '' @ guard @ ''\<newline>'' @
     ''#define '' @ guard @ ''\<newline>'' @
     ''\<newline>'' @
     concat (map include_line ps) @
     (if ps = [] then [] else ''\<newline>'') @
     ''#endif //'' @ guard @ ''\<newline>''\<close>

definition src_layout :: "string list \<Rightarrow> string" where
  "src_layout ps = concat (map include_line ps)"

subsection \<open>Files and directories\<close>

text \<open>
  The content of the file that \<^verbatim>\<open>createFile\<close> addresses under a name, if there is one;
  the path of a plainly named file (no separator, not empty, not \<^verbatim>\<open>.\<close> or \<^verbatim>\<open>..\<close>) in
  a directory; and a world that holds no file, refuses no path and lets every write
  succeed, with a given working directory.
\<close>

definition content_of :: "world \<Rightarrow> string \<Rightarrow> string option" where
  "content_of w n =
     (case filepath_Abs (strings_ToLower n) w of Inl e \<Rightarrow> None | Inr fn \<Rightarrow> files w fn)"

definition plain :: "string \<Rightarrow> bool" where
  "plain p \<longleftrightarrow> CHR ''/'' \<notin> set p \<and> p \<noteq> [] \<and> p \<noteq> ''.'' \<and> p \<noteq> ''..''"

definition dir_prefix :: "string \<Rightarrow> string" where
  "dir_prefix d = concat (map (\<lambda>e. CHR ''/'' # e) (rev (foldl clean_step [] (elements d))))"

definition in_dir :: "string \<Rightarrow> string \<Rightarrow> string" where
  "in_dir d p = dir_prefix d @ ''/'' @ p"

definition empty_dir :: "string \<Rightarrow> world" where
  "empty_dir d = \<lparr>files = Map.empty, cwd = Some d, noaccess = [], wfaults = []\<rparr>"

text \<open>
  The value of a boolean flag that may be absent from the command line.
\<close>

definition flag_value :: "bool option \<Rightarrow> bool" where
  "flag_value a = (case a of None \<Rightarrow> False | Some b \<Rightarrow> b)"

subsection \<open>Failing writes\<close>

text \<open>
  One of the next \<open>n\<close> writes fails; and the number of writes that
  \<^verbatim>\<open>createNamedInc\<close> performs after it created the file: one for the pragma in
  once-guard mode, one for the guard, one for each include, one for the blank line
  after the includes if there are any, and one for the closing line.
\<close>

definition write_fails :: "nat \<Rightarrow> world \<Rightarrow> bool" where
  "write_fails n w = list_ex (\<lambda>x. x \<noteq> None) (take n (wfaults w))"

definition inc_writes :: "bool \<Rightarrow> string list \<Rightarrow> nat" where
  "inc_writes pragma inc =
     (if pragma then 1 else 0) + 1 + length inc + (if inc = [] then 0 else 1) + 1"

subsection \<open>The export files of the older program\<close>

text \<open>
  The eight files of the two tiers of the older program; and the condition that the
  module's export header and source, if there is a module name, are none of them. The
  older program opens an existing file and empties it, so a module named
  \<^verbatim>\<open>pub_consts\<close> would have its export header written over \<^verbatim>\<open>pub_consts.h\<close>.
\<close>

definition old_tier :: "string list" where
  "old_tier = [pubConsts, pubTypes, pubInlines, pubIncludes,
               privConsts, privTypes, privInlines, privIncludes]"

definition export_apart :: "globals_old \<Rightarrow> world \<Rightarrow> bool" where
  "export_apart h w \<longleftrightarrow>
     name h = [] \<or>
     list_all (\<lambda>n. filepath_Abs (strings_ToLower (name h @ ''.h'')) w
                       \<noteq> filepath_Abs (strings_ToLower n) w \<and>
                    filepath_Abs (strings_ToLower (name h @ ''.c'')) w
                       \<noteq> filepath_Abs (strings_ToLower n) w) old_tier"

section \<open>Notions used in the proofs\<close>

text \<open>
  A sequence of writes on the handle \<open>fd\<close> of an existing file: it changes nothing but
  that file; when it succeeds it has appended the text \<open>t\<close>, when it fails it has
  appended some text; with no fault ahead it succeeds.
\<close>

definition writes_to :: "handle \<Rightarrow> string \<Rightarrow> error option io \<Rightarrow> bool" where
  "writes_to fd t f \<longleftrightarrow>
     (\<forall>w c r w'. files w fd = Some c \<longrightarrow> f w = (r, w') \<longrightarrow>
        cwd w' = cwd w \<and> noaccess w' = noaccess w \<and>
        (r = None \<longrightarrow> files w' = (files w)(fd \<mapsto> c @ t)) \<and>
        (r \<noteq> None \<longrightarrow> (\<exists>part. files w' = (files w)(fd \<mapsto> c @ part))) \<and>
        (wfaults w = [] \<longrightarrow> r = None \<and> w' = w\<lparr>files := (files w)(fd \<mapsto> c @ t)\<rparr>))"

text \<open>
  A sequence of \<open>n\<close> writes at most: it fails exactly when one of the next \<open>n\<close>
  writes fails, and when it succeeds it has used up \<open>n\<close> outcomes.
\<close>

definition writes_n :: "nat \<Rightarrow> error option io \<Rightarrow> bool" where
  "writes_n n f \<longleftrightarrow>
     (\<forall>w r w'. f w = (r, w') \<longrightarrow>
        (r \<noteq> None \<longleftrightarrow> write_fails n w) \<and> (r = None \<longrightarrow> wfaults w' = drop n (wfaults w)))"

text \<open>
  A step of a run that keeps every existing file with its content, and the working
  directory; a step that, when it succeeds, leaves the file of a given name with a given
  content; a step that changes no path other than those of the given names.
\<close>

definition grows :: "error option io \<Rightarrow> bool" where
  "grows f \<longleftrightarrow>
     (\<forall>w r w'. f w = (r, w') \<longrightarrow>
        cwd w' = cwd w \<and> noaccess w' = noaccess w \<and> files w \<subseteq>\<^sub>m files w')"

definition makes :: "error option io \<Rightarrow> string \<Rightarrow> string \<Rightarrow> bool" where
  "makes f n t \<longleftrightarrow> (\<forall>w w'. f w = (None, w') \<longrightarrow> content_of w' n = Some t)"

definition touches_only :: "error option io \<Rightarrow> string list \<Rightarrow> bool" where
  "touches_only f ns \<longleftrightarrow>
     (\<forall>w r w' q. f w = (r, w') \<longrightarrow>
        (\<forall>n\<in>set ns. filepath_Abs (strings_ToLower n) w \<noteq> Inr q) \<longrightarrow> files w' q = files w q)"

text \<open>
  What \<^verbatim>\<open>main\<close> of \<^verbatim>\<open>src/main.go\<close> does after \<^verbatim>\<open>checkFlags\<close> returned, with the
  assignment to \<^verbatim>\<open>pfx\<close> written out at its uses.
\<close>

definition main_body :: "globals \<Rightarrow> error option io" where
  "main_body g =
     andThen (createIncs g True)
       (if isPfxSet g then
          andThen (createNamedInc g (pfx g @ ''.h'') [fName g sInlines])
            (createNamedSrc g (pfx g @ ''.c'') [pfx g @ ''.h''])
        else
          andThen
            (if length (name g) > 0
             then createNamedInc g (name g @ ''.h'') [fName g sInlines] else ok)
            (if pub g then ok
             else andThen (createIncs (g\<lparr>pfx := pPriv\<rparr>) False)
                    (if length (name g) > 0
                     then createNamedSrc (g\<lparr>pfx := pPriv\<rparr>) (name g @ ''.c'')
                            [fName (g\<lparr>pfx := pPriv\<rparr>) sInlines]
                     else ok)))"

section \<open>Sample inputs\<close>

text \<open>
  The variables after \<^verbatim>\<open>-name=foo\<close> in both programs, with and without \<^verbatim>\<open>-once\<close>,
  after the first tier, and after \<^verbatim>\<open>-name=_foo\<close>.
\<close>

definition g_foo :: globals where
  "g_foo = \<lparr>name = ''foo'', useDir = False, once = False, isNameSet = True, isDirSet = False,
            pub = False, pfx = ''pub'', isPfxSet = False\<rparr>"

definition g_foo_once :: globals where
  "g_foo_once = g_foo\<lparr>once := True\<rparr>"

definition g_foo_priv :: globals where
  "g_foo_priv = g_foo\<lparr>pfx := pPriv\<rparr>"

definition g_underscore :: globals where
  "g_underscore = g_foo\<lparr>name := ''_foo''\<rparr>"

definition h_foo :: globals_old where
  "h_foo = \<lparr>name = ''foo'', useDir = False, once = False, isNameSet = True, isDirSet = False\<rparr>"

definition h_foo_once :: globals_old where
  "h_foo_once = h_foo\<lparr>once := True\<rparr>"

text \<open>
  Command lines: \<^verbatim>\<open>-name=foo\<close> for both programs; \<^verbatim>\<open>-add=xxx\<close> with any \<^verbatim>\<open>-once\<close>
  and \<^verbatim>\<open>-pub\<close>, and the variables it gives; \<^verbatim>\<open>-add=xxx -name=foo\<close> and the variables
  it gives; \<^verbatim>\<open>-add=xxx -dir\<close>.
\<close>

definition args_foo :: cli where
  "args_foo = \<lparr>name_arg = Some ''foo'', dir_arg = None, once_arg = None, pub_arg = None,
               add_arg = None\<rparr>"

definition args_old_foo :: cli_old where
  "args_old_foo = \<lparr>name_arg_old = Some ''foo'', dir_arg_old = None, once_arg_old = None\<rparr>"

definition args_add :: "bool option \<Rightarrow> bool option \<Rightarrow> cli" where
  "args_add o_arg p_arg =
     \<lparr>name_arg = None, dir_arg = None, once_arg = o_arg, pub_arg = p_arg, add_arg = Some ''xxx''\<rparr>"

definition g_add :: "bool option \<Rightarrow> bool option \<Rightarrow> globals" where
  "g_add o_arg p_arg =
     \<lparr>name = [], useDir = False, once = flag_value o_arg, isNameSet = False, isDirSet = False,
      pub = flag_value p_arg, pfx = ''xxx'', isPfxSet = True\<rparr>"

definition args_xn :: cli where
  "args_xn = \<lparr>name_arg = Some ''foo'', dir_arg = None, once_arg = None, pub_arg = None,
              add_arg = Some ''xxx''\<rparr>"

definition g_xn :: globals where
  "g_xn = \<lparr>name = ''foo'', useDir = False, once = False, isNameSet = True, isDirSet = False,
           pub = False, pfx = ''xxx'', isPfxSet = True\<rparr>"

definition args_xd :: cli where
  "args_xd = \<lparr>name_arg = None, dir_arg = Some True, once_arg = None, pub_arg = None,
              add_arg = Some ''xxx''\<rparr>"

text \<open>
  Two worlds with the working directory \<^verbatim>\<open>/w\<close>: one without files in which the
  second write fails after three bytes, and one that holds the file \<^verbatim>\<open>/w/a.h\<close>.
\<close>

definition w_fault :: world where
  "w_fault = \<lparr>files = Map.empty, cwd = Some ''/w'', noaccess = [], wfaults = [None, Some 3]\<rparr>"

definition w_exists :: world where
  "w_exists = \<lparr>files = [''/w/a.h'' \<mapsto> ''kept''], cwd = Some ''/w'', noaccess = [],
             wfaults = []\<rparr>"

section \<open>Properties\<close>

subsection \<open>Guard tokens\<close>

lemma range_chars:
  assumes "\<forall>n\<in>{lo..hi::nat}. char_of n \<in> S" "lo \<le> of_char b" "of_char b \<le> hi"
  shows "b \<in> S"
proof -
  have "(of_char b :: nat) \<in> {lo..hi}" using assms(2,3) by simp
  with assms(1) have "char_of (of_char b :: nat) \<in> S" by blast
  then show ?thesis by simp
qed

lemma digit_iff: "(CHR ''0'' \<le> b \<and> b \<le> CHR ''9'') \<longleftrightarrow> b \<in> set digits"
proof
  assume "CHR ''0'' \<le> b \<and> b \<le> CHR ''9''"
  then have "(48::nat) \<le> of_char b" "of_char b \<le> (57::nat)" by (simp_all add: less_eq_char_def)
  moreover have "\<forall>n\<in>{48..57::nat}. char_of n \<in> set digits" by code_simp
  ultimately show "b \<in> set digits" by (rule range_chars[rotated])
next
  assume "b \<in> set digits" then show "CHR ''0'' \<le> b \<and> b \<le> CHR ''9''" 
    by (auto simp: digits_def)
qed

lemma upper_iff: "(CHR ''A'' \<le> b \<and> b \<le> CHR ''Z'') \<longleftrightarrow> b \<in> set uppers"
proof
  assume "CHR ''A'' \<le> b \<and> b \<le> CHR ''Z''"
  then have "(65::nat) \<le> of_char b" "of_char b \<le> (90::nat)" by (simp_all add: less_eq_char_def)
  moreover have "\<forall>n\<in>{65..90::nat}. char_of n \<in> set uppers" by code_simp
  ultimately show "b \<in> set uppers" by (rule range_chars[rotated])
next
  assume "b \<in> set uppers" then show "CHR ''A'' \<le> b \<and> b \<le> CHR ''Z''" 
    by (auto simp: uppers_def)
qed

lemma lower_iff: "(CHR ''a'' \<le> b \<and> b \<le> CHR ''z'') \<longleftrightarrow> b \<in> set lowers"
proof
  assume "CHR ''a'' \<le> b \<and> b \<le> CHR ''z''"
  then have "(97::nat) \<le> of_char b" "of_char b \<le> (122::nat)" by (simp_all add: less_eq_char_def)
  moreover have "\<forall>n\<in>{97..122::nat}. char_of n \<in> set lowers" by code_simp
  ultimately show "b \<in> set lowers" by (rule range_chars[rotated])
next
  assume "b \<in> set lowers" then show "CHR ''a'' \<le> b \<and> b \<le> CHR ''z''" 
    by (auto simp: lowers_def)
qed

lemma sub_byteUp: "b \<in> set lowers \<Longrightarrow> char_of (of_char b - byteUp) = upper_of b"
proof -
  have "\<forall>c\<in>set lowers. char_of (of_char c - byteUp) = upper_of c" by code_simp
  then show "b \<in> set lowers \<Longrightarrow> char_of (of_char b - byteUp) = upper_of b" by blast
qed

lemma defName_loop_map: "defName_loop r bs = r @ map norm_new bs"
  by (induction bs arbitrary: r) (simp_all add: norm_new_def digit_iff upper_iff lower_iff sub_byteUp)

lemma digit_not_letter: "b \<in> set digits \<Longrightarrow> b \<notin> set uppers \<and> b \<notin> set lowers"
  unfolding digit_iff[symmetric] upper_iff[symmetric] lower_iff[symmetric]
  by (auto simp: less_eq_char_def)

lemma defName_loop_old_map: "defName_loop_old r bs = r @ map norm_old bs"
  by (induction bs arbitrary: r) (auto simp: norm_new_def norm_old_def upper_iff lower_iff sub_byteUp dest: digit_not_letter)

lemma defName_eq: "defName g iname = ''__'' @ map norm_new (includeName g iname) @ ''__''"
  by (simp add: defName_def defName_loop_map)

lemma defName_old_eq: "defName_old g iname = ''__'' @ map norm_old (includeName g iname) @ ''__''"
  by (simp add: defName_old_def defName_loop_old_map)

lemma upper_of_upper: "b \<in> set lowers \<Longrightarrow> upper_of b \<in> set uppers"
proof -
  have "\<forall>c\<in>set lowers. upper_of c \<in> set uppers" by code_simp
  then show "b \<in> set lowers \<Longrightarrow> upper_of b \<in> set uppers" by blast
qed

lemma upper_not_lower: "b \<in> set uppers \<Longrightarrow> b \<notin> set lowers"
  unfolding upper_iff[symmetric] lower_iff[symmetric] by (auto simp: less_eq_char_def)

lemma underscore_no_class:
  "CHR ''_'' \<notin> set digits" "CHR ''_'' \<notin> set uppers" "CHR ''_'' \<notin> set lowers"
  by (simp_all add: digits_def uppers_def lowers_def)

lemma norm_new_not_lower: "norm_new b \<notin> set lowers"
  using digit_not_letter[of b] upper_not_lower[of b] upper_not_lower[OF upper_of_upper, of b]
  by (auto simp: norm_new_def underscore_no_class)

lemma norm_old_not_lower: "norm_old b \<notin> set lowers"
  by (simp add: norm_old_def norm_new_not_lower underscore_no_class)

lemma norm_new_underscore: "norm_new b = CHR ''_'' \<longleftrightarrow> b \<notin> set (digits @ uppers @ lowers)"
  using upper_of_upper[of b] underscore_no_class
  by (auto simp: norm_new_def)

lemma norm_old_underscore: "norm_old b = CHR ''_'' \<longleftrightarrow> b \<notin> set (uppers @ lowers)"
  using digit_not_letter[of b] by (auto simp: norm_old_def norm_new_underscore)

lemma norm_consts_h:
  "map norm_new ''consts.h'' = ''CONSTS_H''" "map norm_old ''consts.h'' = ''CONSTS_H''"
  by code_simp+

lemma norm_slash: "norm_new CHR ''/'' = CHR ''_''" "norm_old CHR ''/'' = CHR ''_''"
  by code_simp+

lemma tok_new:
  "defName g ''consts.h'' =
     (if name g = [] then ''__CONSTS_H__'' else ''__'' @ map norm_new (name g) @ ''_CONSTS_H__'')"
  using norm_consts_h(1) norm_slash(1) by (simp add: defName_eq includeName_def)

lemma tok_old:
  "defName_old g ''consts.h'' =
     (if name g = [] then ''__CONSTS_H__'' else ''__'' @ map norm_old (name g) @ ''_CONSTS_H__'')"
  using norm_consts_h(2) norm_slash(2) by (simp add: defName_old_eq includeName_def)

lemma leading_cons:
  "leading_underscores (''__'' @ map f n @ ''_CONSTS_H__'') = 2 \<longleftrightarrow> n \<noteq> [] \<and> f (hd n) \<noteq> CHR ''_''"
  by (cases n) (simp_all add: leading_underscores_def)

lemma trailing_cons:
  "trailing_underscores (s @ ''_CONSTS_H__'') = 2"
  by (simp add: trailing_underscores_def leading_underscores_def)

lemma no_lower_tok: "(\<forall>b. f b \<notin> set lowers) \<Longrightarrow> \<forall>c\<in>set (''__'' @ map f n @ ''__''). c \<notin> set lowers"
  by (auto simp: underscore_no_class)

text \<open>
  Claim C4, as the code has it. For every module name, in both programs, the guard token
  of \<^verbatim>\<open>consts.h\<close> is determined by the module name alone, contains no lowercase
  letter, begins with the two underscores that \<^verbatim>\<open>defName\<close> puts first and ends with
  exactly two underscores. It has exactly two leading underscores if and only if the
  module name is empty or begins with a letter or a digit (with a letter, in the older
  program, which turns digits into underscores): any other first byte becomes a third
  underscore.
\<close>

theorem guard_consts_shape:
  "(name g = name g' \<longrightarrow> defName g ''consts.h'' = defName g' ''consts.h'') \<and>
   (\<forall>c\<in>set (defName g ''consts.h''). c \<notin> set lowers) \<and>
   take 2 (defName g ''consts.h'') = ''__'' \<and>
   trailing_underscores (defName g ''consts.h'') = 2 \<and>
   (leading_underscores (defName g ''consts.h'') = 2 \<longleftrightarrow>
      name g = [] \<or> hd (name g) \<in> set (digits @ uppers @ lowers)) \<and>
   (name h = name h' \<longrightarrow> defName_old h ''consts.h'' = defName_old h' ''consts.h'') \<and>
   (\<forall>c\<in>set (defName_old h ''consts.h''). c \<notin> set lowers) \<and>
   take 2 (defName_old h ''consts.h'') = ''__'' \<and>
   trailing_underscores (defName_old h ''consts.h'') = 2 \<and>
   (leading_underscores (defName_old h ''consts.h'') = 2 \<longleftrightarrow>
      name h = [] \<or> hd (name h) \<in> set (uppers @ lowers))"
proof -
  have a1: "name g = name g' \<longrightarrow> defName g ''consts.h'' = defName g' ''consts.h''"
    by (simp add: defName_eq includeName_def)
  have a2: "\<forall>c\<in>set (defName g ''consts.h''). c \<notin> set lowers"
    unfolding defName_eq by (rule no_lower_tok) (simp add: norm_new_not_lower)
  have a3: "take 2 (defName g ''consts.h'') = ''__''"
    by (simp add: defName_eq)
  have a4: "trailing_underscores (defName g ''consts.h'') = 2"
    using trailing_cons[of "''_''"] trailing_cons[of "''__'' @ map norm_new (name g)"]
    by (simp add: tok_new)
  have a5: "leading_underscores (defName g ''consts.h'') = 2 \<longleftrightarrow>
      name g = [] \<or> hd (name g) \<in> set (digits @ uppers @ lowers)"
  proof (cases "name g = []")
    case True
    then show ?thesis by (simp add: tok_new leading_underscores_def)
  next
    case False
    then show ?thesis
      using leading_cons[of norm_new "name g"] by (simp add: tok_new norm_new_underscore)
  qed
  have b1: "name h = name h' \<longrightarrow> defName_old h ''consts.h'' = defName_old h' ''consts.h''"
    by (simp add: defName_old_eq includeName_def)
  have b2: "\<forall>c\<in>set (defName_old h ''consts.h''). c \<notin> set lowers"
    unfolding defName_old_eq by (rule no_lower_tok) (simp add: norm_old_not_lower)
  have b3: "take 2 (defName_old h ''consts.h'') = ''__''"
    by (simp add: defName_old_eq)
  have b4: "trailing_underscores (defName_old h ''consts.h'') = 2"
    using trailing_cons[of "''_''"] trailing_cons[of "''__'' @ map norm_old (name h)"]
    by (simp add: tok_old)
  have b5: "leading_underscores (defName_old h ''consts.h'') = 2 \<longleftrightarrow>
      name h = [] \<or> hd (name h) \<in> set (uppers @ lowers)"
  proof (cases "name h = []")
    case True
    then show ?thesis by (simp add: tok_old leading_underscores_def)
  next
    case False
    then show ?thesis
      using leading_cons[of norm_old "name h"] by (simp add: tok_old norm_old_underscore)
  qed
  from a1 a2 a3 a4 a5 b1 b2 b3 b4 b5 show ?thesis by blast
qed

lemma defName_g_foo:
  "defName g_foo ''consts.h'' = ''__FOO_CONSTS_H__''"
  "defName g_foo_once ''consts.h'' = ''__FOO_CONSTS_H__''"
  "defName_old h_foo ''consts.h'' = ''__FOO_CONSTS_H__''"
  "defName_old h_foo_once ''consts.h'' = ''__FOO_CONSTS_H__''"
  by code_simp+

theorem guard_consts_shape_witness:
  "name g_foo = name g_foo_once \<and> defName g_foo ''consts.h'' = defName g_foo_once ''consts.h'' \<and>
   CHR ''F'' \<in> set (defName g_foo ''consts.h'') \<and> CHR ''F'' \<notin> set lowers \<and>
   trailing_underscores (defName g_foo ''consts.h'') = 2 \<and>
   hd (name g_foo) \<in> set (digits @ uppers @ lowers) \<and>
   leading_underscores (defName g_foo ''consts.h'') = 2 \<and>
   name h_foo = name h_foo_once \<and>
   defName_old h_foo ''consts.h'' = defName_old h_foo_once ''consts.h'' \<and>
   CHR ''F'' \<in> set (defName_old h_foo ''consts.h'') \<and>
   trailing_underscores (defName_old h_foo ''consts.h'') = 2 \<and>
   hd (name h_foo) \<in> set (uppers @ lowers) \<and>
   leading_underscores (defName_old h_foo ''consts.h'') = 2"
proof -
  have n: "name g_foo = ''foo''" "name g_foo_once = ''foo''" "name h_foo = ''foo''"
    "name h_foo_once = ''foo''"
    by (simp_all add: g_foo_def g_foo_once_def h_foo_def h_foo_once_def)
  have f: "CHR ''F'' \<in> set (defName g_foo ''consts.h'')"
    "CHR ''F'' \<in> set (defName_old h_foo ''consts.h'')"
    by (simp_all add: defName_g_foo)
  have l: "CHR ''f'' \<in> set lowers" by (simp add: lowers_def)
  show ?thesis
    using guard_consts_shape[of g_foo g_foo_once h_foo h_foo_once] n f l by auto
qed

text \<open>
  Claim C4 as stated fails: the module name \<^verbatim>\<open>_foo\<close> gives a token with three leading
  underscores.
\<close>

theorem guard_consts_three_leading:
  "leading_underscores (defName g_underscore ''consts.h'') = 3"
  by code_simp

text \<open>
  Claim C6. The token of \<^verbatim>\<open>src/main.go\<close> is the qualified include path between two
  pairs of underscores, each byte of the path put through the rule that keeps digits and
  uppercase letters, upper-cases lowercase letters and replaces every other byte; the
  older program does the same with the rule that replaces digits too.
\<close>

theorem defName_bytewise:
  "defName g iname = ''__'' @ map norm_new (includeName g iname) @ ''__'' \<and>
   defName_old h iname = ''__'' @ map norm_old (includeName h iname) @ ''__'' \<and>
   norm_old b = (if b \<in> set digits then CHR ''_'' else norm_new b)"
  by (simp add: defName_def defName_loop_map defName_old_def defName_loop_old_map norm_old_def)

subsection \<open>Paths\<close>

lemma elements_nonempty: "elements p \<noteq> []"
  by (induction p) simp_all

lemma elements_append: "elements (a @ CHR ''/'' # b) = elements a @ elements b"
  by (induction a) (simp_all add: elements_nonempty)

lemma elements_plain: "CHR ''/'' \<notin> set p \<Longrightarrow> elements p = [p]"
  by (induction p) auto

lemma Clean_in_dir:
  assumes "plain p"
  shows "filepath_Clean (d @ CHR ''/'' # p) = in_dir d p"
proof -
  have "elements (d @ CHR ''/'' # p) = elements d @ [p]"
    using assms by (simp add: elements_append elements_plain plain_def)
  moreover have "clean_step st p = p # st" for st
    using assms by (simp add: clean_step_def plain_def)
  ultimately show ?thesis
    by (simp add: filepath_Clean_def rooted_def in_dir_def dir_prefix_def)
qed

lemma Abs_in_dir:
  assumes "cwd w = Some d" "plain p"
  shows "filepath_Abs p w = Inr (in_dir d p)"
proof -
  have "\<not> (p \<noteq> [] \<and> hd p = CHR ''/'')"
    using assms(2) by (cases p) (auto simp: plain_def)
  then show ?thesis
    using assms by (auto simp: filepath_Abs_def Clean_in_dir)
qed

lemma in_dir_inject [simp]: "in_dir d p = in_dir d q \<longleftrightarrow> p = q"
  by (simp add: in_dir_def)

lemma in_dir_sample: "in_dir ''/w'' ''a.h'' = ''/w/a.h''" "in_dir ''/home/me/mod/'' ''a.h'' = ''/home/me/mod/a.h''"
  "in_dir ''/'' ''a.h'' = ''/a.h''"
  by code_simp+

lemma in_dir_w_ac: "in_dir ''/w'' ''a.c'' = ''/w/a.c''"
  by code_simp

lemma prefix_w: "dir_prefix ''/w'' = ''/w''"
  by code_simp

lemma base_mod: "filepath_Base ''/home/mod'' = ''mod''"
  by code_simp

lemma content_of_cwd: "cwd w' = cwd w \<Longrightarrow> filepath_Abs p w' = filepath_Abs p w"
  by (simp add: filepath_Abs_def)

subsection \<open>What a sequence of writes leaves in the file\<close>

lemma writes_toD:
  assumes "writes_to fd t f" "files w fd = Some c" "f w = (r, w')"
  shows "cwd w' = cwd w" "noaccess w' = noaccess w"
    "r = None \<Longrightarrow> files w' = (files w)(fd \<mapsto> c @ t)"
    "r \<noteq> None \<Longrightarrow> \<exists>part. files w' = (files w)(fd \<mapsto> c @ part)"
    "wfaults w = [] \<Longrightarrow> r = None \<and> w' = w\<lparr>files := (files w)(fd \<mapsto> c @ t)\<rparr>"
  using assms unfolding writes_to_def by blast+

lemma writes_to_Write: "writes_to fd bs (Write fd bs)"
  by (auto simp: writes_to_def Write_def append_bytes_def split: list.splits option.splits)

lemma writes_to_ok: "writes_to fd [] ok"
  by (auto simp: writes_to_def ok_def map_upd_triv)

lemma writes_to_andThen:
  assumes f: "writes_to fd t f" and k: "writes_to fd u k"
  shows "writes_to fd (t @ u) (andThen f k)"
  unfolding writes_to_def
proof (intro allI impI)
  fix w :: world and c r w'
  assume c: "files w fd = Some c" and a: "andThen f k w = (r, w')"
  obtain r1 w1 where fw: "f w = (r1, w1)" by (cases "f w")
  note f1 = writes_toD[OF f c fw]
  show "cwd w' = cwd w \<and> noaccess w' = noaccess w \<and>
        (r = None \<longrightarrow> files w' = (files w)(fd \<mapsto> c @ t @ u)) \<and>
        (r \<noteq> None \<longrightarrow> (\<exists>part. files w' = (files w)(fd \<mapsto> c @ part))) \<and>
        (wfaults w = [] \<longrightarrow> r = None \<and> w' = w\<lparr>files := (files w)(fd \<mapsto> c @ t @ u)\<rparr>)"
  proof (cases r1)
    case (Some e)
    with fw a have "r = r1" "w' = w1" by (simp_all add: andThen_def)
    with Some f1 show ?thesis by auto
  next
    case None
    with f1 have w1: "files w1 = (files w)(fd \<mapsto> c @ t)" by simp
    then have c1: "files w1 fd = Some (c @ t)" by simp
    from fw None a have kw: "k w1 = (r, w')" by (simp add: andThen_def)
    note k1 = writes_toD[OF k c1 kw]
    have p1: "cwd w' = cwd w" "noaccess w' = noaccess w" using k1 f1 by simp_all
    have p2: "r = None \<longrightarrow> files w' = (files w)(fd \<mapsto> c @ t @ u)"
      using k1(3) w1 by simp
    have p3: "r \<noteq> None \<longrightarrow> (\<exists>part. files w' = (files w)(fd \<mapsto> c @ part))"
    proof
      assume "r \<noteq> None"
      then obtain part where "files w' = (files w1)(fd \<mapsto> (c @ t) @ part)"
        using k1(4) by blast
      with w1 have "files w' = (files w)(fd \<mapsto> c @ (t @ part))" by simp
      then show "\<exists>part. files w' = (files w)(fd \<mapsto> c @ part)" by blast
    qed
    have p4: "wfaults w = [] \<longrightarrow> r = None \<and> w' = w\<lparr>files := (files w)(fd \<mapsto> c @ t @ u)\<rparr>"
    proof
      assume e: "wfaults w = []"
      with f1(5) have w1': "w1 = w\<lparr>files := (files w)(fd \<mapsto> c @ t)\<rparr>" by simp
      then have "wfaults w1 = []" using e by simp
      with k1(5) w1' show "r = None \<and> w' = w\<lparr>files := (files w)(fd \<mapsto> c @ t @ u)\<rparr>" by simp
    qed
    from p1 p2 p3 p4 show ?thesis by blast
  qed
qed

lemma writes_to_writeIncludes:
  "writes_to fd (concat (map (\<lambda>d. include_line (includeName g d)) inc)) (writeIncludes g fd inc)"
proof (induction inc)
  case Nil
  show ?case by (simp add: writes_to_ok)
next
  case (Cons d inc)
  have "writes_to fd (include_line (includeName g d)) (writeInclude g fd d)"
    unfolding writeInclude_def include_line_def by (rule writes_to_Write)
  from writes_to_andThen[OF this Cons.IH] show ?case by simp
qed

lemma writes_to_writeHeader:
  "writes_to fd
     ((if once g then ''#pragma once\<newline>'' @ ''\<newline>'' else []) @
      ''#ifndef '' @ defName g iname @ ''\<newline>'' @
      ''#define '' @ defName g iname @ ''\<newline>'' @ ''\<newline>'')
     (writeHeader g fd iname)"
proof -
  have a: "writes_to fd (if once g then ''#pragma once\<newline>'' @ ''\<newline>'' else [])
     (if once g then Write fd ''#pragma once\<newline>\<newline>'' else ok)"
    using writes_to_Write[of fd "''#pragma once\<newline>\<newline>''"] by (simp add: writes_to_ok)
  have b: "writes_to fd (''#ifndef '' @ defName g iname @ ''\<newline>'' @
      ''#define '' @ defName g iname @ ''\<newline>'' @ ''\<newline>'')
      (Write fd (''#ifndef '' @ defName g iname @ ''\<newline>#define '' @ defName g iname @ ''\<newline>\<newline>''))"
    using writes_to_Write[of fd "''#ifndef '' @ defName g iname @ ''\<newline>#define '' @ defName g iname @ ''\<newline>\<newline>''"]
    by simp
  from writes_to_andThen[OF a b] show ?thesis
    by (simp add: writeHeader_def Let_def)
qed

lemma writes_to_writeFooter:
  "writes_to fd (''#endif //'' @ defName g iname @ ''\<newline>'') (writeFooter g fd iname)"
  unfolding writeFooter_def by (rule writes_to_Write)

lemma writes_to_blank:
  "writes_to fd (if inc = [] then [] else ''\<newline>'')
     (if length inc > 0 then Write fd [CHR 0x0A] else ok)"
  using writes_to_Write[of fd "[CHR 0x0A]"] by (simp add: writes_to_ok)

lemma writes_to_body:
  "writes_to fd
     (inc_layout (once g) (defName g iname) (map (includeName g) inc))
     (andThen (writeHeader g fd iname)
        (andThen (writeIncludes g fd inc)
           (andThen (if length inc > 0 then Write fd [CHR 0x0A] else ok)
              (writeFooter g fd iname))))"
proof -
  have "writes_to fd
     (((if once g then ''#pragma once\<newline>'' @ ''\<newline>'' else []) @
      ''#ifndef '' @ defName g iname @ ''\<newline>'' @
      ''#define '' @ defName g iname @ ''\<newline>'' @ ''\<newline>'') @
      concat (map (\<lambda>d. include_line (includeName g d)) inc) @
      (if inc = [] then [] else ''\<newline>'') @
      (''#endif //'' @ defName g iname @ ''\<newline>''))
     (andThen (writeHeader g fd iname)
        (andThen (writeIncludes g fd inc)
           (andThen (if length inc > 0 then Write fd [CHR 0x0A] else ok)
              (writeFooter g fd iname))))"
    by (intro writes_to_andThen writes_to_writeHeader writes_to_writeIncludes
        writes_to_blank writes_to_writeFooter)
  then show ?thesis
    by (simp add: inc_layout_def comp_def)
qed

lemma writes_to_src:
  "writes_to fd (src_layout (map (includeName g) inc)) (writeIncludes g fd inc)"
  using writes_to_writeIncludes[of fd g inc] by (simp add: src_layout_def comp_def)

lemma writes_to_writeHeader_old:
  "writes_to fd
     ((if once g then ''#pragma once\<newline>'' @ ''\<newline>'' else []) @
      ''#ifndef '' @ defName_old g iname @ ''\<newline>'' @
      ''#define '' @ defName_old g iname @ ''\<newline>'' @ ''\<newline>'')
     (writeHeader_old g fd iname)"
proof -
  have a: "writes_to fd (if once g then ''#pragma once\<newline>'' @ ''\<newline>'' else [])
     (if once g then Write fd ''#pragma once\<newline>\<newline>'' else ok)"
    using writes_to_Write[of fd "''#pragma once\<newline>\<newline>''"] by (simp add: writes_to_ok)
  have b: "writes_to fd (''#ifndef '' @ defName_old g iname @ ''\<newline>'' @
      ''#define '' @ defName_old g iname @ ''\<newline>'' @ ''\<newline>'')
      (Write fd (''#ifndef '' @ defName_old g iname @ ''\<newline>#define '' @ defName_old g iname @ ''\<newline>\<newline>''))"
    using writes_to_Write[of fd "''#ifndef '' @ defName_old g iname @ ''\<newline>#define '' @ defName_old g iname @ ''\<newline>\<newline>''"]
    by simp
  from writes_to_andThen[OF a b] show ?thesis
    by (simp add: writeHeader_old_def Let_def)
qed

lemma writes_to_writeFooter_old:
  "writes_to fd (''#endif //'' @ defName_old g iname @ ''\<newline>'') (writeFooter_old g fd iname)"
  unfolding writeFooter_old_def by (rule writes_to_Write)

lemma writes_to_body_old:
  "writes_to fd
     (inc_layout (once g) (defName_old g iname) (map (includeName g) inc))
     (andThen (writeHeader_old g fd iname)
        (andThen (writeIncludes g fd inc)
           (andThen (if length inc > 0 then Write fd [CHR 0x0A] else ok)
              (writeFooter_old g fd iname))))"
proof -
  have "writes_to fd
     (((if once g then ''#pragma once\<newline>'' @ ''\<newline>'' else []) @
      ''#ifndef '' @ defName_old g iname @ ''\<newline>'' @
      ''#define '' @ defName_old g iname @ ''\<newline>'' @ ''\<newline>'') @
      concat (map (\<lambda>d. include_line (includeName g d)) inc) @
      (if inc = [] then [] else ''\<newline>'') @
      (''#endif //'' @ defName_old g iname @ ''\<newline>''))
     (andThen (writeHeader_old g fd iname)
        (andThen (writeIncludes g fd inc)
           (andThen (if length inc > 0 then Write fd [CHR 0x0A] else ok)
              (writeFooter_old g fd iname))))"
    by (intro writes_to_andThen writes_to_writeHeader_old writes_to_writeIncludes
        writes_to_blank writes_to_writeFooter_old)
  then show ?thesis
    by (simp add: inc_layout_def comp_def)
qed

subsection \<open>When a sequence of writes fails\<close>

lemma writes_nD:
  assumes "writes_n n f" "f w = (r, w')"
  shows "r \<noteq> None \<longleftrightarrow> write_fails n w" "r = None \<Longrightarrow> wfaults w' = drop n (wfaults w)"
  using assms unfolding writes_n_def by blast+

lemma writes_n_Write: "writes_n 1 (Write fd bs)"
  by (auto simp: writes_n_def write_fails_def Write_def split: list.splits option.splits)

lemma writes_n_ok: "writes_n 0 ok"
  by (simp add: writes_n_def write_fails_def ok_def)

lemma write_fails_add:
  "write_fails (a + b) w \<longleftrightarrow>
     write_fails a w \<or> list_ex (\<lambda>x. x \<noteq> None) (take b (drop a (wfaults w)))"
  by (simp add: write_fails_def take_add list_ex_iff) blast

lemma writes_n_andThen:
  assumes "writes_n a f" "writes_n b k"
  shows "writes_n (a + b) (andThen f k)"
  unfolding writes_n_def
proof (intro allI impI)
  fix w r w' assume run: "andThen f k w = (r, w')"
  obtain r1 w1 where fw: "f w = (r1, w1)" by (cases "f w")
  note f1 = writes_nD[OF assms(1) fw]
  show "(r \<noteq> None \<longleftrightarrow> write_fails (a + b) w) \<and>
        (r = None \<longrightarrow> wfaults w' = drop (a + b) (wfaults w))"
  proof (cases r1)
    case (Some e)
    with run fw have "r = Some e" by (simp add: andThen_def)
    with Some f1 show ?thesis by (simp add: write_fails_add)
  next
    case None
    with run fw have kw: "k w1 = (r, w')" by (simp add: andThen_def)
    note k1 = writes_nD[OF assms(2) kw]
    from None f1 have nf: "\<not> write_fails a w" and w1: "wfaults w1 = drop a (wfaults w)"
      by simp_all
    from k1 nf w1 write_fails_add[of a b w] show ?thesis
      by (simp add: write_fails_def add.commute)
  qed
qed

lemma writes_n_writeIncludes: "writes_n (length inc) (writeIncludes g fd inc)"
proof (induction inc)
  case Nil
  show ?case by (simp add: writes_n_ok)
next
  case (Cons d inc)
  have "writes_n 1 (writeInclude g fd d)"
    unfolding writeInclude_def by (rule writes_n_Write)
  from writes_n_andThen[OF this Cons.IH] show ?case by simp
qed

lemma writes_n_pragma:
  "writes_n (if b then 1 else 0) (if b then Write fd t else ok)"
  using writes_n_Write[of fd t] by (simp add: writes_n_ok)

lemma writes_n_blank:
  "writes_n (if inc = [] then 0 else 1) (if length inc > 0 then Write fd t else ok)"
  using writes_n_Write[of fd t] by (simp add: writes_n_ok)

lemma writes_n_body:
  "writes_n (inc_writes (once g) inc)
     (andThen (writeHeader g fd iname)
        (andThen (writeIncludes g fd inc)
           (andThen (if length inc > 0 then Write fd [CHR 0x0A] else ok)
              (writeFooter g fd iname))))"
proof -
  have h: "writes_n ((if once g then 1 else 0) + 1) (writeHeader g fd iname)"
    unfolding writeHeader_def Let_def
    by (intro writes_n_andThen writes_n_pragma writes_n_Write)
  have f: "writes_n 1 (writeFooter g fd iname)"
    unfolding writeFooter_def by (rule writes_n_Write)
  have "writes_n (((if once g then 1 else 0) + 1) + (length inc + ((if inc = [] then 0 else 1) + 1)))
     (andThen (writeHeader g fd iname)
        (andThen (writeIncludes g fd inc)
           (andThen (if length inc > 0 then Write fd [CHR 0x0A] else ok)
              (writeFooter g fd iname))))"
    by (intro writes_n_andThen h writes_n_writeIncludes writes_n_blank f)
  then show ?thesis by (simp add: inc_writes_def add.assoc)
qed

lemma writes_n_body_old:
  "writes_n (inc_writes (once g) inc)
     (andThen (writeHeader_old g fd iname)
        (andThen (writeIncludes g fd inc)
           (andThen (if length inc > 0 then Write fd [CHR 0x0A] else ok)
              (writeFooter_old g fd iname))))"
proof -
  have h: "writes_n ((if once g then 1 else 0) + 1) (writeHeader_old g fd iname)"
    unfolding writeHeader_old_def Let_def
    by (intro writes_n_andThen writes_n_pragma writes_n_Write)
  have f: "writes_n 1 (writeFooter_old g fd iname)"
    unfolding writeFooter_old_def by (rule writes_n_Write)
  have "writes_n (((if once g then 1 else 0) + 1) + (length inc + ((if inc = [] then 0 else 1) + 1)))
     (andThen (writeHeader_old g fd iname)
        (andThen (writeIncludes g fd inc)
           (andThen (if length inc > 0 then Write fd [CHR 0x0A] else ok)
              (writeFooter_old g fd iname))))"
    by (intro writes_n_andThen h writes_n_writeIncludes writes_n_blank f)
  then show ?thesis by (simp add: inc_writes_def add.assoc)
qed

subsection \<open>Creating a file and running the deferred function\<close>

lemma flags_new: "fileCreate AND O_CREATE \<noteq> 0" "fileCreate AND O_EXCL \<noteq> 0"
  by (simp_all add: fileCreate_def O_WRONLY_def O_CREATE_def O_EXCL_def O_TRUNC_def)

lemma flags_old:
  "fileCreate_old AND O_CREATE \<noteq> 0" "fileCreate_old AND O_EXCL = 0"
  "fileCreate_old AND O_TRUNC \<noteq> 0"
  by (simp_all add: fileCreate_old_def O_RDWR_def O_CREATE_def O_EXCL_def O_TRUNC_def)

lemma createFile_eq:
  "createFile fname w =
     (case filepath_Abs (strings_ToLower fname) w of
        Inl err \<Rightarrow> (Inl err, w)
      | Inr fn \<Rightarrow>
          if files w fn \<noteq> None then (Inl ErrExist, w)
          else if fn \<in> set (noaccess w) then (Inl ErrPermission, w)
          else (Inr (fn, fn), w\<lparr>files := (files w)(fn \<mapsto> [])\<rparr>))"
  by (auto simp: createFile_def OpenFile_def flags_new split: sum.splits option.splits)

lemma createFile_old_eq:
  "createFile_old fname w =
     (case filepath_Abs (strings_ToLower fname) w of
        Inl err \<Rightarrow> (Inl err, w)
      | Inr fn \<Rightarrow>
          if fn \<in> set (noaccess w) then (Inl ErrPermission, w)
          else (Inr (fn, fn), w\<lparr>files := (files w)(fn \<mapsto> [])\<rparr>))"
  by (auto simp: createFile_old_def OpenFile_def flags_old split: sum.splits option.splits)

lemma createFile_ok:
  assumes "createFile n w = (Inr (fd, fn), w1)"
  shows "filepath_Abs (strings_ToLower n) w = Inr fn" "files w fn = None" "fn \<notin> set (noaccess w)"
  using assms by (auto simp: createFile_eq split: sum.splits if_splits)

lemma createFile_old_ok:
  assumes "createFile_old n w = (Inr (fd, fn), w1)"
  shows "filepath_Abs (strings_ToLower n) w = Inr fn" "fn \<notin> set (noaccess w)"
  using assms by (auto simp: createFile_old_eq split: sum.splits if_splits)

lemma deferred_body:
  assumes wt: "writes_to fn t f"
    and d: "deferred fn fn (f (w\<lparr>files := (files w)(fn \<mapsto> [])\<rparr>)) = (r, w')"
  shows "cwd w' = cwd w" "noaccess w' = noaccess w"
    "r = None \<Longrightarrow> files w' = (files w)(fn \<mapsto> t)"
    "r \<noteq> None \<Longrightarrow> files w' = (files w)(fn := None)"
    "wfaults w = [] \<Longrightarrow> r = None \<and> w' = w\<lparr>files := (files w)(fn \<mapsto> t)\<rparr>"
proof -
  let ?w0 = "w\<lparr>files := (files w)(fn \<mapsto> [])\<rparr>"
  obtain r1 w1 where fw: "f ?w0 = (r1, w1)" by (cases "f ?w0")
  have c: "files ?w0 fn = Some []" by simp
  note f1 = writes_toD[OF wt c fw]
  from d fw have r: "r = r1" and w': "w' = (if r1 \<noteq> None then Remove fn w1 else w1)"
    by (auto simp: deferred_def Close_def)
  show "cwd w' = cwd w" "noaccess w' = noaccess w"
    using f1(1,2) w' by (simp_all add: Remove_def)
  show "r = None \<Longrightarrow> files w' = (files w)(fn \<mapsto> t)"
    using f1(3) r w' by simp
  show "r \<noteq> None \<Longrightarrow> files w' = (files w)(fn := None)"
    using f1(4) r w' by (auto simp: Remove_def)
  show "wfaults w = [] \<Longrightarrow> r = None \<and> w' = w\<lparr>files := (files w)(fn \<mapsto> t)\<rparr>"
    using f1(5) r w' by simp
qed

lemma deferred_fails:
  assumes "writes_n n f" "deferred fd fn (f (w\<lparr>files := F\<rparr>)) = (r, w')"
  shows "r \<noteq> None \<longleftrightarrow> write_fails n w"
proof -
  obtain r1 w1 where fw: "f (w\<lparr>files := F\<rparr>) = (r1, w1)" by (cases "f (w\<lparr>files := F\<rparr>)")
  with assms(2) have "r = r1" by (auto simp: deferred_def Let_def)
  with writes_nD(1)[OF assms(1) fw] show ?thesis by (simp add: write_fails_def)
qed

text \<open>
  The shape shared by \<^verbatim>\<open>createNamedInc\<close> and \<^verbatim>\<open>createNamedSrc\<close> of \<^verbatim>\<open>src/main.go\<close>:
  on success a new file with the text written, on failure the files as they were.
\<close>

lemma create_then_write:
  assumes wt: "\<And>fd. writes_to fd t (body fd)"
    and run: "(case createFile n w of
                 (Inl err, s) \<Rightarrow> (Some err, s)
               | (Inr (fd, fn), s) \<Rightarrow> deferred fd fn (body fd s)) = (r, w')"
  shows "cwd w' = cwd w" "noaccess w' = noaccess w"
    "r = None \<Longrightarrow> \<exists>fn. filepath_Abs (strings_ToLower n) w = Inr fn \<and> files w fn = None \<and>
        fn \<notin> set (noaccess w) \<and> files w' = (files w)(fn \<mapsto> t)"
    "r \<noteq> None \<Longrightarrow> files w' = files w"
proof -
  show "cwd w' = cwd w" "noaccess w' = noaccess w"
    using run deferred_body(1,2)[OF wt]
    by (auto simp: createFile_eq split: sum.splits if_splits)
  show "r = None \<Longrightarrow> \<exists>fn. filepath_Abs (strings_ToLower n) w = Inr fn \<and> files w fn = None \<and>
        fn \<notin> set (noaccess w) \<and> files w' = (files w)(fn \<mapsto> t)"
    using run deferred_body(3)[OF wt]
    by (auto simp: createFile_eq split: sum.splits if_splits)
  show "r \<noteq> None \<Longrightarrow> files w' = files w"
  proof -
    assume nz: "r \<noteq> None"
    show "files w' = files w"
    proof (cases "filepath_Abs (strings_ToLower n) w")
      case (Inl e)
      with run show ?thesis by (simp add: createFile_eq)
    next
      case (Inr fn)
      show ?thesis
      proof (cases "files w fn \<noteq> None \<or> fn \<in> set (noaccess w)")
        case True
        with run Inr show ?thesis by (auto simp: createFile_eq split: if_splits)
      next
        case False
        with run Inr have "deferred fn fn (body fn (w\<lparr>files := (files w)(fn \<mapsto> [])\<rparr>)) = (r, w')"
          by (simp add: createFile_eq)
        from deferred_body(4)[OF wt this nz] False show ?thesis by auto
      qed
    qed
  qed
qed

lemma create_then_write_run:
  assumes wt: "\<And>fd. writes_to fd t (body fd)"
    and pre: "wfaults w = []" "filepath_Abs (strings_ToLower n) w = Inr fn" "files w fn = None"
      "fn \<notin> set (noaccess w)"
  shows "(case createFile n w of
            (Inl err, s) \<Rightarrow> (Some err, s)
          | (Inr (fd, fn), s) \<Rightarrow> deferred fd fn (body fd s)) = (None, w\<lparr>files := (files w)(fn \<mapsto> t)\<rparr>)"
proof -
  obtain r w' where d: "deferred fn fn (body fn (w\<lparr>files := (files w)(fn \<mapsto> [])\<rparr>)) = (r, w')"
    by (cases "deferred fn fn (body fn (w\<lparr>files := (files w)(fn \<mapsto> [])\<rparr>))")
  from deferred_body(5)[OF wt d pre(1)] d pre show ?thesis
    by (simp add: createFile_eq)
qed

text \<open>
  The same shape in the older program, whose \<^verbatim>\<open>createFile\<close> opens an existing file
  and empties it.
\<close>

lemma create_then_write_old:
  assumes wt: "\<And>fd. writes_to fd t (body fd)"
    and run: "(case createFile_old n w of
                 (Inl err, s) \<Rightarrow> (Some err, s)
               | (Inr (fd, fn), s) \<Rightarrow> deferred fd fn (body fd s)) = (r, w')"
  shows "cwd w' = cwd w" "noaccess w' = noaccess w"
    "r = None \<Longrightarrow> \<exists>fn. filepath_Abs (strings_ToLower n) w = Inr fn \<and>
        fn \<notin> set (noaccess w) \<and> files w' = (files w)(fn \<mapsto> t)"
    "r \<noteq> None \<Longrightarrow> filepath_Abs (strings_ToLower n) w = Inr fn \<Longrightarrow> fn \<notin> set (noaccess w) \<Longrightarrow>
       files w' = (files w)(fn := None)"
proof -
  show "cwd w' = cwd w" "noaccess w' = noaccess w"
    using run deferred_body(1,2)[OF wt]
    by (auto simp: createFile_old_eq split: sum.splits if_splits)
  show "r = None \<Longrightarrow> \<exists>fn. filepath_Abs (strings_ToLower n) w = Inr fn \<and>
        fn \<notin> set (noaccess w) \<and> files w' = (files w)(fn \<mapsto> t)"
    using run deferred_body(3)[OF wt]
    by (auto simp: createFile_old_eq split: sum.splits if_splits)
  show "r \<noteq> None \<Longrightarrow> filepath_Abs (strings_ToLower n) w = Inr fn \<Longrightarrow> fn \<notin> set (noaccess w) \<Longrightarrow>
       files w' = (files w)(fn := None)"
    using run deferred_body(4)[OF wt]
    by (auto simp: createFile_old_eq split: sum.splits if_splits)
qed

lemma create_then_write_old_run:
  assumes wt: "\<And>fd. writes_to fd t (body fd)"
    and pre: "wfaults w = []" "filepath_Abs (strings_ToLower n) w = Inr fn"
      "fn \<notin> set (noaccess w)"
  shows "(case createFile_old n w of
            (Inl err, s) \<Rightarrow> (Some err, s)
          | (Inr (fd, fn), s) \<Rightarrow> deferred fd fn (body fd s)) = (None, w\<lparr>files := (files w)(fn \<mapsto> t)\<rparr>)"
proof -
  obtain r w' where d: "deferred fn fn (body fn (w\<lparr>files := (files w)(fn \<mapsto> [])\<rparr>)) = (r, w')"
    by (cases "deferred fn fn (body fn (w\<lparr>files := (files w)(fn \<mapsto> [])\<rparr>))")
  from deferred_body(5)[OF wt d pre(1)] d pre show ?thesis
    by (simp add: createFile_old_eq)
qed

subsection \<open>\<^verbatim>\<open>createNamedInc\<close> and \<^verbatim>\<open>createNamedSrc\<close>\<close>

lemma createNamedInc_cases:
  assumes "createNamedInc g iname inc w = (r, w')"
  shows "cwd w' = cwd w" "noaccess w' = noaccess w"
    "r = None \<Longrightarrow> \<exists>fn. filepath_Abs (strings_ToLower iname) w = Inr fn \<and> files w fn = None \<and>
        fn \<notin> set (noaccess w) \<and>
        files w' = (files w)(fn \<mapsto> inc_layout (once g) (defName g iname) (map (includeName g) inc))"
    "r \<noteq> None \<Longrightarrow> files w' = files w"
  using create_then_write[where body = "\<lambda>fd. andThen (writeHeader g fd iname)
        (andThen (writeIncludes g fd inc)
           (andThen (if length inc > 0 then Write fd [CHR 0x0A] else ok)
              (writeFooter g fd iname)))" and n = iname and w = w and r = r and w' = w',
      OF writes_to_body] assms
  unfolding createNamedInc_def by blast+

lemma createNamedSrc_cases:
  assumes "createNamedSrc g sname inc w = (r, w')"
  shows "cwd w' = cwd w" "noaccess w' = noaccess w"
    "r = None \<Longrightarrow> \<exists>fn. filepath_Abs (strings_ToLower sname) w = Inr fn \<and> files w fn = None \<and>
        fn \<notin> set (noaccess w) \<and>
        files w' = (files w)(fn \<mapsto> src_layout (map (includeName g) inc))"
    "r \<noteq> None \<Longrightarrow> files w' = files w"
  using create_then_write[where body = "\<lambda>fd. writeIncludes g fd inc" and n = sname
      and w = w and r = r and w' = w', OF writes_to_src] assms
  unfolding createNamedSrc_def by blast+

lemma createNamedInc_old_cases:
  assumes "createNamedInc_old g iname inc w = (r, w')"
  shows "cwd w' = cwd w" "noaccess w' = noaccess w"
    "r = None \<Longrightarrow> \<exists>fn. filepath_Abs (strings_ToLower iname) w = Inr fn \<and>
        fn \<notin> set (noaccess w) \<and>
        files w' = (files w)(fn \<mapsto> inc_layout (once g) (defName_old g iname) (map (includeName g) inc))"
    "r \<noteq> None \<Longrightarrow> filepath_Abs (strings_ToLower iname) w = Inr fn \<Longrightarrow>
       fn \<notin> set (noaccess w) \<Longrightarrow> files w' = (files w)(fn := None)"
  using create_then_write_old[where body = "\<lambda>fd. andThen (writeHeader_old g fd iname)
        (andThen (writeIncludes g fd inc)
           (andThen (if length inc > 0 then Write fd [CHR 0x0A] else ok)
              (writeFooter_old g fd iname)))" and n = iname and w = w and r = r and w' = w',
      OF writes_to_body_old] assms
  unfolding createNamedInc_old_def by blast+

lemma createNamedSrc_old_cases:
  assumes "createNamedSrc_old g sname inc w = (r, w')"
  shows "cwd w' = cwd w" "noaccess w' = noaccess w"
    "r = None \<Longrightarrow> \<exists>fn. filepath_Abs (strings_ToLower sname) w = Inr fn \<and>
        fn \<notin> set (noaccess w) \<and>
        files w' = (files w)(fn \<mapsto> src_layout (map (includeName g) inc))"
    "r \<noteq> None \<Longrightarrow> filepath_Abs (strings_ToLower sname) w = Inr fn \<Longrightarrow>
       fn \<notin> set (noaccess w) \<Longrightarrow> files w' = (files w)(fn := None)"
  using create_then_write_old[where body = "\<lambda>fd. writeIncludes g fd inc" and n = sname
      and w = w and r = r and w' = w', OF writes_to_src] assms
  unfolding createNamedSrc_old_def by blast+

lemma createNamedInc_step:
  assumes "wfaults w = []" "cwd w = Some d" "noaccess w = []" "plain (strings_ToLower iname)"
    "files w (in_dir d (strings_ToLower iname)) = None"
  shows "createNamedInc g iname inc w =
    (None, w\<lparr>files := (files w)(in_dir d (strings_ToLower iname) \<mapsto>
        inc_layout (once g) (defName g iname) (map (includeName g) inc))\<rparr>)"
  unfolding createNamedInc_def
  using create_then_write_run[where body = "\<lambda>fd. andThen (writeHeader g fd iname)
        (andThen (writeIncludes g fd inc)
           (andThen (if length inc > 0 then Write fd [CHR 0x0A] else ok)
              (writeFooter g fd iname)))" and n = iname and w = w
      and fn = "in_dir d (strings_ToLower iname)", OF writes_to_body]
    assms Abs_in_dir[of w d "strings_ToLower iname"]
  by simp

lemma createNamedSrc_step:
  assumes "wfaults w = []" "cwd w = Some d" "noaccess w = []" "plain (strings_ToLower sname)"
    "files w (in_dir d (strings_ToLower sname)) = None"
  shows "createNamedSrc g sname inc w =
    (None, w\<lparr>files := (files w)(in_dir d (strings_ToLower sname) \<mapsto>
        src_layout (map (includeName g) inc))\<rparr>)"
  unfolding createNamedSrc_def
  using create_then_write_run[where body = "\<lambda>fd. writeIncludes g fd inc" and n = sname
      and w = w and fn = "in_dir d (strings_ToLower sname)", OF writes_to_src]
    assms Abs_in_dir[of w d "strings_ToLower sname"]
  by simp

lemma createNamedInc_go:
  assumes "wfaults w = []" "cwd w \<noteq> None" "noaccess w = []" "plain (strings_ToLower iname)"
    "files w (in_dir (the (cwd w)) (strings_ToLower iname)) = None"
  shows "createNamedInc g iname inc w =
    (None, w\<lparr>files := (files w)(in_dir (the (cwd w)) (strings_ToLower iname) \<mapsto>
        inc_layout (once g) (defName g iname) (map (includeName g) inc))\<rparr>)"
  using createNamedInc_step[of w "the (cwd w)" iname g inc] assms by auto

lemma createNamedSrc_go:
  assumes "wfaults w = []" "cwd w \<noteq> None" "noaccess w = []" "plain (strings_ToLower sname)"
    "files w (in_dir (the (cwd w)) (strings_ToLower sname)) = None"
  shows "createNamedSrc g sname inc w =
    (None, w\<lparr>files := (files w)(in_dir (the (cwd w)) (strings_ToLower sname) \<mapsto>
        src_layout (map (includeName g) inc))\<rparr>)"
  using createNamedSrc_step[of w "the (cwd w)" sname g inc] assms by auto

lemma createNamedInc_old_go:
  assumes "wfaults w = []" "cwd w \<noteq> None" "noaccess w = []" "plain (strings_ToLower iname)"
  shows "createNamedInc_old g iname inc w =
    (None, w\<lparr>files := (files w)(in_dir (the (cwd w)) (strings_ToLower iname) \<mapsto>
        inc_layout (once g) (defName_old g iname) (map (includeName g) inc))\<rparr>)"
proof -
  from assms(2) obtain d where d: "cwd w = Some d" by auto
  have abs: "filepath_Abs (strings_ToLower iname) w = Inr (in_dir d (strings_ToLower iname))"
    by (rule Abs_in_dir[OF d assms(4)])
  have na: "in_dir d (strings_ToLower iname) \<notin> set (noaccess w)" using assms(3) by simp
  show ?thesis
    unfolding createNamedInc_old_def d option.sel
    by (rule create_then_write_old_run[where body = "\<lambda>fd. andThen (writeHeader_old g fd iname)
        (andThen (writeIncludes g fd inc)
           (andThen (if length inc > 0 then Write fd [CHR 0x0A] else ok)
              (writeFooter_old g fd iname)))", OF writes_to_body_old assms(1) abs na])
qed

lemma createNamedSrc_old_go:
  assumes "wfaults w = []" "cwd w \<noteq> None" "noaccess w = []" "plain (strings_ToLower sname)"
  shows "createNamedSrc_old g sname inc w =
    (None, w\<lparr>files := (files w)(in_dir (the (cwd w)) (strings_ToLower sname) \<mapsto>
        src_layout (map (includeName g) inc))\<rparr>)"
proof -
  from assms(2) obtain d where d: "cwd w = Some d" by auto
  have abs: "filepath_Abs (strings_ToLower sname) w = Inr (in_dir d (strings_ToLower sname))"
    by (rule Abs_in_dir[OF d assms(4)])
  have na: "in_dir d (strings_ToLower sname) \<notin> set (noaccess w)" using assms(3) by simp
  show ?thesis
    unfolding createNamedSrc_old_def d option.sel
    by (rule create_then_write_old_run[where body = "\<lambda>fd. writeIncludes g fd inc",
          OF writes_to_src assms(1) abs na])
qed

lemma createNamedInc_fails:
  assumes "createFile iname w = (Inr (fd, fn), w1)" "createNamedInc g iname inc w = (r, w')"
  shows "r \<noteq> None \<longleftrightarrow> write_fails (inc_writes (once g) inc) w"
proof -
  let ?body = "andThen (writeHeader g fn iname)
        (andThen (writeIncludes g fn inc)
           (andThen (if length inc > 0 then Write fn [CHR 0x0A] else ok)
              (writeFooter g fn iname)))"
  from assms(1) have c: "createFile iname w = (Inr (fn, fn), w\<lparr>files := (files w)(fn \<mapsto> [])\<rparr>)"
    by (auto simp: createFile_eq split: sum.splits if_splits)
  have "createNamedInc g iname inc w = deferred fn fn (?body (w\<lparr>files := (files w)(fn \<mapsto> [])\<rparr>))"
    unfolding createNamedInc_def c by simp
  with assms(2) have d: "deferred fn fn (?body (w\<lparr>files := (files w)(fn \<mapsto> [])\<rparr>)) = (r, w')"
    by simp
  show ?thesis by (rule deferred_fails[OF writes_n_body d])
qed

lemma createNamedSrc_fails:
  assumes "createFile sname w = (Inr (fd, fn), w1)" "createNamedSrc g sname inc w = (r, w')"
  shows "r \<noteq> None \<longleftrightarrow> write_fails (length inc) w"
proof -
  from assms(1) have c: "createFile sname w = (Inr (fn, fn), w\<lparr>files := (files w)(fn \<mapsto> [])\<rparr>)"
    by (auto simp: createFile_eq split: sum.splits if_splits)
  have "createNamedSrc g sname inc w =
      deferred fn fn (writeIncludes g fn inc (w\<lparr>files := (files w)(fn \<mapsto> [])\<rparr>))"
    unfolding createNamedSrc_def c by simp
  with assms(2) have d:
    "deferred fn fn (writeIncludes g fn inc (w\<lparr>files := (files w)(fn \<mapsto> [])\<rparr>)) = (r, w')"
    by simp
  show ?thesis by (rule deferred_fails[OF writes_n_writeIncludes d])
qed

lemma createNamedInc_old_fails:
  assumes "createFile_old iname w = (Inr (fd, fn), w1)" "createNamedInc_old g iname inc w = (r, w')"
  shows "r \<noteq> None \<longleftrightarrow> write_fails (inc_writes (once g) inc) w"
proof -
  let ?body = "andThen (writeHeader_old g fn iname)
        (andThen (writeIncludes g fn inc)
           (andThen (if length inc > 0 then Write fn [CHR 0x0A] else ok)
              (writeFooter_old g fn iname)))"
  from assms(1) have c: "createFile_old iname w = (Inr (fn, fn), w\<lparr>files := (files w)(fn \<mapsto> [])\<rparr>)"
    by (auto simp: createFile_old_eq split: sum.splits if_splits)
  have "createNamedInc_old g iname inc w = deferred fn fn (?body (w\<lparr>files := (files w)(fn \<mapsto> [])\<rparr>))"
    unfolding createNamedInc_old_def c by simp
  with assms(2) have d: "deferred fn fn (?body (w\<lparr>files := (files w)(fn \<mapsto> [])\<rparr>)) = (r, w')"
    by simp
  show ?thesis by (rule deferred_fails[OF writes_n_body_old d])
qed

lemma createNamedSrc_old_fails:
  assumes "createFile_old sname w = (Inr (fd, fn), w1)" "createNamedSrc_old g sname inc w = (r, w')"
  shows "r \<noteq> None \<longleftrightarrow> write_fails (length inc) w"
proof -
  from assms(1) have c: "createFile_old sname w = (Inr (fn, fn), w\<lparr>files := (files w)(fn \<mapsto> [])\<rparr>)"
    by (auto simp: createFile_old_eq split: sum.splits if_splits)
  have "createNamedSrc_old g sname inc w =
      deferred fn fn (writeIncludes g fn inc (w\<lparr>files := (files w)(fn \<mapsto> [])\<rparr>))"
    unfolding createNamedSrc_old_def c by simp
  with assms(2) have d:
    "deferred fn fn (writeIncludes g fn inc (w\<lparr>files := (files w)(fn \<mapsto> [])\<rparr>)) = (r, w')"
    by simp
  show ?thesis by (rule deferred_fails[OF writes_n_writeIncludes d])
qed

subsection \<open>Cleanup after a failed write\<close>

lemma lower_ab:
  "strings_ToLower ''a.h'' = ''a.h''" "strings_ToLower ''a.c'' = ''a.c''"
  by code_simp+

lemma abs_ab:
  "filepath_Abs ''a.h'' w_fault = Inr ''/w/a.h''" "filepath_Abs ''a.c'' w_fault = Inr ''/w/a.c''"
  by code_simp+

lemma create_ab:
  "createFile ''a.h'' w_fault = (Inr (''/w/a.h'', ''/w/a.h''), w_fault\<lparr>files := [''/w/a.h'' \<mapsto> []]\<rparr>)"
  "createFile ''a.c'' w_fault = (Inr (''/w/a.c'', ''/w/a.c''), w_fault\<lparr>files := [''/w/a.c'' \<mapsto> []]\<rparr>)"
  "createFile_old ''a.h'' w_fault = (Inr (''/w/a.h'', ''/w/a.h''), w_fault\<lparr>files := [''/w/a.h'' \<mapsto> []]\<rparr>)"
  "createFile_old ''a.c'' w_fault = (Inr (''/w/a.c'', ''/w/a.c''), w_fault\<lparr>files := [''/w/a.c'' \<mapsto> []]\<rparr>)"
  by (simp_all add: createFile_eq createFile_old_eq lower_ab abs_ab) (simp_all add: w_fault_def)

text \<open>
  Claim C2. After the file was created, \<^verbatim>\<open>createNamedInc\<close> and \<^verbatim>\<open>createNamedSrc\<close>
  return an error exactly when one of the writes they perform fails, and then no file is
  left at the target path. This holds in both programs.
\<close>

theorem cleanup_on_write_failure:
  "(createFile iname w = (Inr (fd, fn), w1) \<longrightarrow> createNamedInc g iname inc w = (r, w') \<longrightarrow>
      (r \<noteq> None \<longleftrightarrow> write_fails (inc_writes (once g) inc) w) \<and>
      (r \<noteq> None \<longrightarrow> files w' fn = None)) \<and>
   (createFile iname w = (Inr (fd, fn), w1) \<longrightarrow> createNamedSrc g iname inc w = (r, w') \<longrightarrow>
      (r \<noteq> None \<longleftrightarrow> write_fails (length inc) w) \<and>
      (r \<noteq> None \<longrightarrow> files w' fn = None)) \<and>
   (createFile_old iname w = (Inr (fd, fn), w1) \<longrightarrow> createNamedInc_old h iname inc w = (r, w') \<longrightarrow>
      (r \<noteq> None \<longleftrightarrow> write_fails (inc_writes (once h) inc) w) \<and>
      (r \<noteq> None \<longrightarrow> files w' fn = None)) \<and>
   (createFile_old iname w = (Inr (fd, fn), w1) \<longrightarrow> createNamedSrc_old h iname inc w = (r, w') \<longrightarrow>
      (r \<noteq> None \<longleftrightarrow> write_fails (length inc) w) \<and>
      (r \<noteq> None \<longrightarrow> files w' fn = None))"
proof (intro conjI impI)
  assume c: "createFile iname w = (Inr (fd, fn), w1)"
    and r: "createNamedInc g iname inc w = (r, w')"
  show "r \<noteq> None \<longleftrightarrow> write_fails (inc_writes (once g) inc) w"
    by (rule createNamedInc_fails[OF c r])
  assume "r \<noteq> None"
  from createNamedInc_cases(4)[OF r this] createFile_ok(2)[OF c] show "files w' fn = None" by simp
next
  assume c: "createFile iname w = (Inr (fd, fn), w1)"
    and r: "createNamedSrc g iname inc w = (r, w')"
  show "r \<noteq> None \<longleftrightarrow> write_fails (length inc) w"
    by (rule createNamedSrc_fails[OF c r])
  assume "r \<noteq> None"
  from createNamedSrc_cases(4)[OF r this] createFile_ok(2)[OF c] show "files w' fn = None" by simp
next
  assume c: "createFile_old iname w = (Inr (fd, fn), w1)"
    and r: "createNamedInc_old h iname inc w = (r, w')"
  show "r \<noteq> None \<longleftrightarrow> write_fails (inc_writes (once h) inc) w"
    by (rule createNamedInc_old_fails[OF c r])
  assume "r \<noteq> None"
  from createNamedInc_old_cases(4)[OF r this createFile_old_ok[OF c]]
  show "files w' fn = None" by simp
next
  assume c: "createFile_old iname w = (Inr (fd, fn), w1)"
    and r: "createNamedSrc_old h iname inc w = (r, w')"
  show "r \<noteq> None \<longleftrightarrow> write_fails (length inc) w"
    by (rule createNamedSrc_old_fails[OF c r])
  assume "r \<noteq> None"
  from createNamedSrc_old_cases(4)[OF r this createFile_old_ok[OF c]]
  show "files w' fn = None" by simp
qed

theorem cleanup_on_write_failure_witness:
  "createFile ''a.h'' w_fault = (Inr (''/w/a.h'', ''/w/a.h''), w_fault\<lparr>files := [''/w/a.h'' \<mapsto> []]\<rparr>) \<and>
   write_fails (inc_writes (once g_foo) [''b.h'']) w_fault \<and>
   fst (createNamedInc g_foo ''a.h'' [''b.h''] w_fault) \<noteq> None \<and>
   files (snd (createNamedInc g_foo ''a.h'' [''b.h''] w_fault)) ''/w/a.h'' = None \<and>
   createFile ''a.c'' w_fault = (Inr (''/w/a.c'', ''/w/a.c''), w_fault\<lparr>files := [''/w/a.c'' \<mapsto> []]\<rparr>) \<and>
   write_fails (length [''a.h'', ''b.h'']) w_fault \<and>
   fst (createNamedSrc g_foo ''a.c'' [''a.h'', ''b.h''] w_fault) \<noteq> None \<and>
   files (snd (createNamedSrc g_foo ''a.c'' [''a.h'', ''b.h''] w_fault)) ''/w/a.c'' = None \<and>
   createFile_old ''a.h'' w_fault = (Inr (''/w/a.h'', ''/w/a.h''), w_fault\<lparr>files := [''/w/a.h'' \<mapsto> []]\<rparr>) \<and>
   write_fails (inc_writes (once h_foo) [''b.h'']) w_fault \<and>
   fst (createNamedInc_old h_foo ''a.h'' [''b.h''] w_fault) \<noteq> None \<and>
   files (snd (createNamedInc_old h_foo ''a.h'' [''b.h''] w_fault)) ''/w/a.h'' = None \<and>
   createFile_old ''a.c'' w_fault = (Inr (''/w/a.c'', ''/w/a.c''), w_fault\<lparr>files := [''/w/a.c'' \<mapsto> []]\<rparr>) \<and>
   fst (createNamedSrc_old h_foo ''a.c'' [''a.h'', ''b.h''] w_fault) \<noteq> None \<and>
   files (snd (createNamedSrc_old h_foo ''a.c'' [''a.h'', ''b.h''] w_fault)) ''/w/a.c'' = None"
proof -
  have p: "x = (fst x, snd x)" for x :: "error option \<times> world" by simp
  have wf: "write_fails (inc_writes (once g_foo) [''b.h'']) w_fault"
    "write_fails (length [''a.h'', ''b.h'']) w_fault"
    "write_fails (inc_writes (once h_foo) [''b.h'']) w_fault"
    by (simp_all add: write_fails_def inc_writes_def w_fault_def g_foo_def h_foo_def)
  from cleanup_on_write_failure[where iname = "''a.h''" and w = w_fault and fd = "''/w/a.h''"
      and fn = "''/w/a.h''" and ?w1.0 = "w_fault\<lparr>files := [''/w/a.h'' \<mapsto> []]\<rparr>"
      and g = g_foo and inc = "[''b.h'']"
      and r = "fst (createNamedInc g_foo ''a.h'' [''b.h''] w_fault)"
      and w' = "snd (createNamedInc g_foo ''a.h'' [''b.h''] w_fault)"]
    create_ab(1) p[of "createNamedInc g_foo ''a.h'' [''b.h''] w_fault"] wf(1)
  have a1: "fst (createNamedInc g_foo ''a.h'' [''b.h''] w_fault) \<noteq> None"
    "files (snd (createNamedInc g_foo ''a.h'' [''b.h''] w_fault)) ''/w/a.h'' = None"
    by blast+
  from cleanup_on_write_failure[where iname = "''a.c''" and w = w_fault and fd = "''/w/a.c''"
      and fn = "''/w/a.c''" and ?w1.0 = "w_fault\<lparr>files := [''/w/a.c'' \<mapsto> []]\<rparr>"
      and g = g_foo and inc = "[''a.h'', ''b.h'']"
      and r = "fst (createNamedSrc g_foo ''a.c'' [''a.h'', ''b.h''] w_fault)"
      and w' = "snd (createNamedSrc g_foo ''a.c'' [''a.h'', ''b.h''] w_fault)"]
    create_ab(2) p[of "createNamedSrc g_foo ''a.c'' [''a.h'', ''b.h''] w_fault"] wf(2)
  have a2: "fst (createNamedSrc g_foo ''a.c'' [''a.h'', ''b.h''] w_fault) \<noteq> None"
    "files (snd (createNamedSrc g_foo ''a.c'' [''a.h'', ''b.h''] w_fault)) ''/w/a.c'' = None"
    by blast+
  from cleanup_on_write_failure[where iname = "''a.h''" and w = w_fault and fd = "''/w/a.h''"
      and fn = "''/w/a.h''" and ?w1.0 = "w_fault\<lparr>files := [''/w/a.h'' \<mapsto> []]\<rparr>"
      and h = h_foo and inc = "[''b.h'']"
      and r = "fst (createNamedInc_old h_foo ''a.h'' [''b.h''] w_fault)"
      and w' = "snd (createNamedInc_old h_foo ''a.h'' [''b.h''] w_fault)"]
    create_ab(3) p[of "createNamedInc_old h_foo ''a.h'' [''b.h''] w_fault"] wf(3)
  have a3: "fst (createNamedInc_old h_foo ''a.h'' [''b.h''] w_fault) \<noteq> None"
    "files (snd (createNamedInc_old h_foo ''a.h'' [''b.h''] w_fault)) ''/w/a.h'' = None"
    by blast+
  from cleanup_on_write_failure[where iname = "''a.c''" and w = w_fault and fd = "''/w/a.c''"
      and fn = "''/w/a.c''" and ?w1.0 = "w_fault\<lparr>files := [''/w/a.c'' \<mapsto> []]\<rparr>"
      and h = h_foo and inc = "[''a.h'', ''b.h'']"
      and r = "fst (createNamedSrc_old h_foo ''a.c'' [''a.h'', ''b.h''] w_fault)"
      and w' = "snd (createNamedSrc_old h_foo ''a.c'' [''a.h'', ''b.h''] w_fault)"]
    create_ab(4) p[of "createNamedSrc_old h_foo ''a.c'' [''a.h'', ''b.h''] w_fault"] wf(2)
  have a4: "fst (createNamedSrc_old h_foo ''a.c'' [''a.h'', ''b.h''] w_fault) \<noteq> None"
    "files (snd (createNamedSrc_old h_foo ''a.c'' [''a.h'', ''b.h''] w_fault)) ''/w/a.c'' = None"
    by blast+
  from a1 a2 a3 a4 create_ab wf show ?thesis by blast
qed

subsection \<open>Sequences of creations\<close>

lemma growsD:
  assumes "grows f" "f w = (r, w')"
  shows "cwd w' = cwd w" "noaccess w' = noaccess w" "files w \<subseteq>\<^sub>m files w'"
  using assms unfolding grows_def by blast+

lemma grows_ok: "grows ok"
  by (simp add: grows_def ok_def)

lemma grows_andThen:
  assumes "grows f" "grows k"
  shows "grows (andThen f k)"
  unfolding grows_def
proof (intro allI impI)
  fix w r w' assume a: "andThen f k w = (r, w')"
  obtain r1 w1 where fw: "f w = (r1, w1)" by (cases "f w")
  note f1 = growsD[OF assms(1) fw]
  show "cwd w' = cwd w \<and> noaccess w' = noaccess w \<and> files w \<subseteq>\<^sub>m files w'"
  proof (cases r1)
    case (Some e)
    with a fw have "w' = w1" by (simp add: andThen_def)
    with f1 show ?thesis by simp
  next
    case None
    with a fw have "k w1 = (r, w')" by (simp add: andThen_def)
    from growsD[OF assms(2) this] f1 show ?thesis
      by (auto intro: map_le_trans)
  qed
qed

lemma fresh_map_le: "m k = None \<Longrightarrow> m \<subseteq>\<^sub>m m(k \<mapsto> v)"
  by (auto simp: map_le_def)

lemma grows_createNamedInc: "grows (createNamedInc g iname inc)"
  unfolding grows_def
proof (intro allI impI)
  fix w r w' assume a: "createNamedInc g iname inc w = (r, w')"
  note c = createNamedInc_cases[OF a]
  have "files w \<subseteq>\<^sub>m files w'"
  proof (cases r)
    case None
    with c(3) show ?thesis by (auto intro: fresh_map_le)
  next
    case (Some e)
    with c(4) show ?thesis by simp
  qed
  with c(1,2) show "cwd w' = cwd w \<and> noaccess w' = noaccess w \<and> files w \<subseteq>\<^sub>m files w'" by simp
qed

lemma grows_createNamedSrc: "grows (createNamedSrc g sname inc)"
  unfolding grows_def
proof (intro allI impI)
  fix w r w' assume a: "createNamedSrc g sname inc w = (r, w')"
  note c = createNamedSrc_cases[OF a]
  have "files w \<subseteq>\<^sub>m files w'"
  proof (cases r)
    case None
    with c(3) show ?thesis by (auto intro: fresh_map_le)
  next
    case (Some e)
    with c(4) show ?thesis by simp
  qed
  with c(1,2) show "cwd w' = cwd w \<and> noaccess w' = noaccess w \<and> files w \<subseteq>\<^sub>m files w'" by simp
qed

lemma grows_createIncs: "grows (createIncs g first)"
  unfolding createIncs_def
  by (intro grows_andThen) (simp_all add: grows_createNamedInc)

lemma main_eq:
  "main args w = (case checkFlags args w of Inl e \<Rightarrow> (Some e, w) | Inr g \<Rightarrow> main_body g w)"
  by (simp add: main_def main_body_def Let_def split: sum.splits)

lemma grows_main_body: "grows (main_body g)"
  unfolding main_body_def
  by (intro grows_andThen grows_createIncs)
     (simp_all add: grows_createNamedInc grows_createNamedSrc grows_ok grows_andThen grows_createIncs)

lemma grows_main: "grows (main args)"
  unfolding grows_def
proof (intro allI impI)
  fix w r w' assume a: "main args w = (r, w')"
  show "cwd w' = cwd w \<and> noaccess w' = noaccess w \<and> files w \<subseteq>\<^sub>m files w'"
  proof (cases "checkFlags args w")
    case (Inl e)
    with a show ?thesis by (simp add: main_eq)
  next
    case (Inr g)
    with a have "main_body g w = (r, w')" by (simp add: main_eq)
    from growsD[OF grows_main_body this] show ?thesis by simp
  qed
qed

lemma content_kept:
  assumes "grows f" "f w = (r, w')" "content_of w n = Some t"
  shows "content_of w' n = Some t"
proof -
  note g = growsD[OF assms(1,2)]
  from assms(3) obtain fn where fn: "filepath_Abs (strings_ToLower n) w = Inr fn" "files w fn = Some t"
    by (auto simp: content_of_def split: sum.splits)
  from fn(2) g(3) have "files w' fn = Some t" by (auto simp: map_le_def dom_def)
  moreover from content_of_cwd[OF g(1)] fn(1)
  have "filepath_Abs (strings_ToLower n) w' = Inr fn" by simp
  ultimately show ?thesis by (simp add: content_of_def)
qed

lemma makes_first:
  assumes "makes f n t" "grows k"
  shows "makes (andThen f k) n t"
  unfolding makes_def
proof (intro allI impI)
  fix w w' assume a: "andThen f k w = (None, w')"
  obtain r1 w1 where fw: "f w = (r1, w1)" by (cases "f w")
  with a have r1: "r1 = None" and kw: "k w1 = (None, w')"
    by (cases r1; simp add: andThen_def)+
  from assms(1) fw r1 have "content_of w1 n = Some t" by (simp add: makes_def)
  from content_kept[OF assms(2) kw this] show "content_of w' n = Some t" .
qed

lemma makes_second:
  assumes "makes k n t"
  shows "makes (andThen f k) n t"
  unfolding makes_def
proof (intro allI impI)
  fix w w' assume a: "andThen f k w = (None, w')"
  obtain r1 w1 where fw: "f w = (r1, w1)" by (cases "f w")
  with a have kw: "k w1 = (None, w')"
    by (cases r1; simp add: andThen_def)
  with assms show "content_of w' n = Some t" by (simp add: makes_def)
qed

lemma makes_createNamedInc:
  "makes (createNamedInc g iname inc) iname
     (inc_layout (once g) (defName g iname) (map (includeName g) inc))"
  unfolding makes_def
proof (intro allI impI)
  fix w w' assume a: "createNamedInc g iname inc w = (None, w')"
  from createNamedInc_cases(3)[OF a] obtain fn where
    fn: "filepath_Abs (strings_ToLower iname) w = Inr fn"
      "files w' = (files w)(fn \<mapsto> inc_layout (once g) (defName g iname) (map (includeName g) inc))"
    by auto
  from content_of_cwd[OF createNamedInc_cases(1)[OF a]] fn(1)
  have "filepath_Abs (strings_ToLower iname) w' = Inr fn" by simp
  with fn(2) show "content_of w' iname =
     Some (inc_layout (once g) (defName g iname) (map (includeName g) inc))"
    by (simp add: content_of_def)
qed

lemma makes_createNamedSrc:
  "makes (createNamedSrc g sname inc) sname (src_layout (map (includeName g) inc))"
  unfolding makes_def
proof (intro allI impI)
  fix w w' assume a: "createNamedSrc g sname inc w = (None, w')"
  from createNamedSrc_cases(3)[OF a] obtain fn where
    fn: "filepath_Abs (strings_ToLower sname) w = Inr fn"
      "files w' = (files w)(fn \<mapsto> src_layout (map (includeName g) inc))"
    by auto
  from content_of_cwd[OF createNamedSrc_cases(1)[OF a]] fn(1)
  have "filepath_Abs (strings_ToLower sname) w' = Inr fn" by simp
  with fn(2) show "content_of w' sname = Some (src_layout (map (includeName g) inc))"
    by (simp add: content_of_def)
qed

lemma makesD: "makes f n t \<Longrightarrow> f w = (None, w') \<Longrightarrow> content_of w' n = Some t"
  unfolding makes_def by blast

lemma makes_createIncs:
  "makes (createIncs g first) (fName g sConsts)
     (inc_layout (once g) (defName g (fName g sConsts))
        (if first then [] else [includeName g (pPub @ sInlines)]))"
  "makes (createIncs g first) (fName g sTypes)
     (inc_layout (once g) (defName g (fName g sTypes)) [includeName g (fName g sConsts)])"
  "makes (createIncs g first) (fName g sInlines)
     (inc_layout (once g) (defName g (fName g sInlines)) [includeName g (fName g sTypes)])"
proof -
  have a: "makes (if first then createNamedInc g (fName g sConsts) []
        else createNamedInc g (fName g sConsts) [pPub @ sInlines]) (fName g sConsts)
     (inc_layout (once g) (defName g (fName g sConsts))
        (if first then [] else [includeName g (pPub @ sInlines)]))"
    using makes_createNamedInc[of g "fName g sConsts" "[]"]
      makes_createNamedInc[of g "fName g sConsts" "[pPub @ sInlines]"]
    by (cases first) simp_all
  show "makes (createIncs g first) (fName g sConsts)
     (inc_layout (once g) (defName g (fName g sConsts))
        (if first then [] else [includeName g (pPub @ sInlines)]))"
    unfolding createIncs_def
    by (rule makes_first[OF a]) (intro grows_andThen grows_createNamedInc)
  show "makes (createIncs g first) (fName g sTypes)
     (inc_layout (once g) (defName g (fName g sTypes)) [includeName g (fName g sConsts)])"
    unfolding createIncs_def
    using makes_second[OF makes_first[OF makes_createNamedInc[of g "fName g sTypes" "[fName g sConsts]"]
        grows_createNamedInc]]
    by simp
  show "makes (createIncs g first) (fName g sInlines)
     (inc_layout (once g) (defName g (fName g sInlines)) [includeName g (fName g sTypes)])"
    unfolding createIncs_def
    using makes_second[OF makes_second[OF makes_createNamedInc[of g "fName g sInlines" "[fName g sTypes]"]]]
    by simp
qed

lemma touches_only_ok: "touches_only ok ns"
  by (simp add: touches_only_def ok_def)

lemma touches_only_andThen:
  assumes "touches_only f ns" "touches_only k ns" "grows f"
  shows "touches_only (andThen f k) ns"
  unfolding touches_only_def
proof (intro allI impI)
  fix w r w' q
  assume a: "andThen f k w = (r, w')"
    and q: "\<forall>n\<in>set ns. filepath_Abs (strings_ToLower n) w \<noteq> Inr q"
  obtain r1 w1 where fw: "f w = (r1, w1)" by (cases "f w")
  from assms(1) fw q have f1: "files w1 q = files w q" unfolding touches_only_def by blast
  show "files w' q = files w q"
  proof (cases r1)
    case (Some e)
    with a fw have "w' = w1" by (simp add: andThen_def)
    with f1 show ?thesis by simp
  next
    case None
    with a fw have kw: "k w1 = (r, w')" by (simp add: andThen_def)
    from content_of_cwd[OF growsD(1)[OF assms(3) fw]] q
    have "\<forall>n\<in>set ns. filepath_Abs (strings_ToLower n) w1 \<noteq> Inr q" by simp
    with assms(2) kw have "files w' q = files w1 q" unfolding touches_only_def by blast
    with f1 show ?thesis by simp
  qed
qed

lemma touches_only_createNamedInc:
  assumes "iname \<in> set ns"
  shows "touches_only (createNamedInc g iname inc) ns"
  unfolding touches_only_def
proof (intro allI impI)
  fix w r w' q
  assume a: "createNamedInc g iname inc w = (r, w')"
    and q: "\<forall>n\<in>set ns. filepath_Abs (strings_ToLower n) w \<noteq> Inr q"
  from q assms have nq: "filepath_Abs (strings_ToLower iname) w \<noteq> Inr q" by blast
  show "files w' q = files w q"
  proof (cases r)
    case None
    from createNamedInc_cases(3)[OF a None] nq show ?thesis by auto
  next
    case (Some e)
    with createNamedInc_cases(4)[OF a] show ?thesis by simp
  qed
qed

lemma touches_only_createNamedSrc:
  assumes "sname \<in> set ns"
  shows "touches_only (createNamedSrc g sname inc) ns"
  unfolding touches_only_def
proof (intro allI impI)
  fix w r w' q
  assume a: "createNamedSrc g sname inc w = (r, w')"
    and q: "\<forall>n\<in>set ns. filepath_Abs (strings_ToLower n) w \<noteq> Inr q"
  from q assms have nq: "filepath_Abs (strings_ToLower sname) w \<noteq> Inr q" by blast
  show "files w' q = files w q"
  proof (cases r)
    case None
    from createNamedSrc_cases(3)[OF a None] nq show ?thesis by auto
  next
    case (Some e)
    with createNamedSrc_cases(4)[OF a] show ?thesis by simp
  qed
qed

lemma touches_only_createIncs:
  assumes "fName g sConsts \<in> set ns" "fName g sTypes \<in> set ns" "fName g sInlines \<in> set ns"
  shows "touches_only (createIncs g first) ns"
  unfolding createIncs_def
  by (intro touches_only_andThen grows_createNamedInc)
     (simp_all add: touches_only_createNamedInc assms grows_createNamedInc)

subsection \<open>The layout of the generated files\<close>

text \<open>
  Claim C7. An include file that \<^verbatim>\<open>createNamedInc\<close> generates for the dependency list
  \<open>D\<close> has the content \<open>inc_layout\<close>: the pragma line and a blank line when \<^verbatim>\<open>once\<close>
  is set, the two guard lines, a blank line, one include line for each element of \<open>D\<close>
  in order (each dependency written as its include path), a blank line if and only if
  \<open>D\<close> is not empty, and the closing line of the guard.
\<close>

theorem include_file_layout:
  "createNamedInc g iname D w = (None, w') \<Longrightarrow>
   content_of w' iname =
     Some (inc_layout (once g) (defName g iname) (map (includeName g) D))"
  using makes_createNamedInc[of g iname D] unfolding makes_def by blast

lemma run_a_h:
  "createNamedInc g_foo_once ''a.h'' [''b.h'', ''c.h''] (empty_dir ''/w'') =
    (None, (empty_dir ''/w'')\<lparr>files := [''/w/a.h'' \<mapsto>
        inc_layout True (defName g_foo_once ''a.h'') [''foo/b.h'', ''foo/c.h'']]\<rparr>)"
  "createNamedInc g_foo ''a.h'' [] (empty_dir ''/w'') =
    (None, (empty_dir ''/w'')\<lparr>files := [''/w/a.h'' \<mapsto>
        inc_layout False (defName g_foo ''a.h'') []]\<rparr>)"
  using in_dir_sample(1)
  by (simp_all add: createNamedInc_go lower_ab plain_def empty_dir_def includeName_def
      g_foo_once_def g_foo_def)

lemma guard_a_h:
  "defName g_foo_once ''a.h'' = ''__FOO_A_H__''" "defName g_foo ''a.h'' = ''__FOO_A_H__''"
  by code_simp+

theorem include_file_layout_witness:
  \<open>createNamedInc g_foo_once ''a.h'' [''b.h'', ''c.h''] (empty_dir ''/w'') =
     (None, (empty_dir ''/w'')\<lparr>files := [''/w/a.h'' \<mapsto>
        inc_layout True (defName g_foo_once ''a.h'') [''foo/b.h'', ''foo/c.h'']]\<rparr>) \<and>
   content_of ((empty_dir ''/w'')\<lparr>files := [''/w/a.h'' \<mapsto>
        inc_layout True (defName g_foo_once ''a.h'') [''foo/b.h'', ''foo/c.h'']]\<rparr>) ''a.h'' =
     Some (''#pragma once\<newline>\<newline>#ifndef __FOO_A_H__\<newline>#define __FOO_A_H__\<newline>\<newline>'' @
           ''#include "foo/b.h"\<newline>#include "foo/c.h"\<newline>\<newline>#endif //__FOO_A_H__\<newline>'') \<and>
   createNamedInc g_foo ''a.h'' [] (empty_dir ''/w'') =
     (None, (empty_dir ''/w'')\<lparr>files := [''/w/a.h'' \<mapsto>
        inc_layout False (defName g_foo ''a.h'') []]\<rparr>) \<and>
   content_of ((empty_dir ''/w'')\<lparr>files := [''/w/a.h'' \<mapsto>
        inc_layout False (defName g_foo ''a.h'') []]\<rparr>) ''a.h'' =
     Some (''#ifndef __FOO_A_H__\<newline>#define __FOO_A_H__\<newline>\<newline>#endif //__FOO_A_H__\<newline>'')\<close>
proof -
  have n: "name g_foo_once = ''foo''" "once g_foo_once" "name g_foo = ''foo''" "\<not> once g_foo"
    by (simp_all add: g_foo_once_def g_foo_def)
  from include_file_layout[OF run_a_h(1)] include_file_layout[OF run_a_h(2)] run_a_h n
  show ?thesis
    by (simp add: inc_layout_def include_line_def includeName_def guard_a_h)
qed

text \<open>
  Claim C10. A source file that \<^verbatim>\<open>createNamedSrc\<close> generates consists of one include
  line for each dependency and nothing else, in both programs; the value of \<^verbatim>\<open>once\<close>
  does not change what \<^verbatim>\<open>createNamedSrc\<close> does.
\<close>

theorem source_file_layout:
  "(createNamedSrc g sname D w = (None, w') \<longrightarrow>
      content_of w' sname = Some (src_layout (map (includeName g) D))) \<and>
   createNamedSrc (g\<lparr>once := b\<rparr>) sname D w = createNamedSrc g sname D w \<and>
   (createNamedSrc_old h sname D w = (None, w'') \<longrightarrow>
      content_of w'' sname = Some (src_layout (map (includeName h) D))) \<and>
   createNamedSrc_old (h\<lparr>once := b\<rparr>) sname D w = createNamedSrc_old h sname D w"
proof (intro conjI impI)
  assume "createNamedSrc g sname D w = (None, w')"
  then show "content_of w' sname = Some (src_layout (map (includeName g) D))"
    using makes_createNamedSrc[of g sname D] unfolding makes_def by blast
next
  have wi: "writeIncludes (g\<lparr>once := b\<rparr>) fd D = writeIncludes g fd D" for fd
    by (induction D) (simp_all add: writeInclude_def includeName_def)
  show "createNamedSrc (g\<lparr>once := b\<rparr>) sname D w = createNamedSrc g sname D w"
    by (simp add: createNamedSrc_def wi split: prod.splits sum.splits)
next
  assume a: "createNamedSrc_old h sname D w = (None, w'')"
  from createNamedSrc_old_cases(3)[OF a] obtain fn where
    fn: "filepath_Abs (strings_ToLower sname) w = Inr fn"
      "files w'' = (files w)(fn \<mapsto> src_layout (map (includeName h) D))"
    by auto
  from content_of_cwd[OF createNamedSrc_old_cases(1)[OF a]] fn(1)
  have "filepath_Abs (strings_ToLower sname) w'' = Inr fn" by simp
  with fn(2) show "content_of w'' sname = Some (src_layout (map (includeName h) D))"
    by (simp add: content_of_def)
next
  have wi: "writeIncludes (h\<lparr>once := b\<rparr>) fd D = writeIncludes h fd D" for fd
    by (induction D) (simp_all add: writeInclude_def includeName_def)
  show "createNamedSrc_old (h\<lparr>once := b\<rparr>) sname D w = createNamedSrc_old h sname D w"
    by (simp add: createNamedSrc_old_def wi split: prod.splits sum.splits)
qed

lemma run_a_c:
  "createNamedSrc g_foo_once ''a.c'' [''a.h''] (empty_dir ''/w'') =
    (None, (empty_dir ''/w'')\<lparr>files := [''/w/a.c'' \<mapsto> src_layout [''foo/a.h'']]\<rparr>)"
  using in_dir_w_ac
  by (simp add: createNamedSrc_go lower_ab plain_def empty_dir_def includeName_def
      g_foo_once_def g_foo_def)

lemma run_a_c_old:
  "createNamedSrc_old h_foo_once ''a.c'' [''a.h''] (empty_dir ''/w'') =
    (None, (empty_dir ''/w'')\<lparr>files := [''/w/a.c'' \<mapsto> src_layout [''foo/a.h'']]\<rparr>)"
proof -
  have abs: "filepath_Abs (strings_ToLower ''a.c'') (empty_dir ''/w'') = Inr ''/w/a.c''"
    by code_simp
  have e: "wfaults (empty_dir ''/w'') = []" "''/w/a.c'' \<notin> set (noaccess (empty_dir ''/w''))"
    by (simp_all add: empty_dir_def)
  have n: "name h_foo_once = ''foo''" by (simp add: h_foo_once_def h_foo_def)
  have "createNamedSrc_old h_foo_once ''a.c'' [''a.h''] (empty_dir ''/w'') =
    (None, (empty_dir ''/w'')\<lparr>files := (files (empty_dir ''/w''))(''/w/a.c'' \<mapsto>
       src_layout (map (includeName h_foo_once) [''a.h'']))\<rparr>)"
    unfolding createNamedSrc_old_def
    by (rule create_then_write_old_run[where body = "\<lambda>fd. writeIncludes h_foo_once fd [''a.h'']",
          OF writes_to_src e(1) abs e(2)])
  then show ?thesis
    by (simp add: includeName_def n empty_dir_def)
qed

theorem source_file_layout_witness:
  \<open>createNamedSrc g_foo_once ''a.c'' [''a.h''] (empty_dir ''/w'') =
    (None, (empty_dir ''/w'')\<lparr>files := [''/w/a.c'' \<mapsto> src_layout [''foo/a.h'']]\<rparr>) \<and>
   content_of ((empty_dir ''/w'')\<lparr>files := [''/w/a.c'' \<mapsto> src_layout [''foo/a.h'']]\<rparr>) ''a.c'' =
     Some ''#include "foo/a.h"\<newline>'' \<and>
   once g_foo_once \<and>
   createNamedSrc_old h_foo_once ''a.c'' [''a.h''] (empty_dir ''/w'') =
    (None, (empty_dir ''/w'')\<lparr>files := [''/w/a.c'' \<mapsto> src_layout [''foo/a.h'']]\<rparr>) \<and>
   once h_foo_once\<close>
proof -
  have n: "name g_foo_once = ''foo''" "once g_foo_once" "name h_foo_once = ''foo''" "once h_foo_once"
    by (simp_all add: g_foo_once_def g_foo_def h_foo_once_def h_foo_def)
  from source_file_layout[of g_foo_once "''a.c''" "[''a.h'']" "empty_dir ''/w''"
      "(empty_dir ''/w'')\<lparr>files := [''/w/a.c'' \<mapsto> src_layout [''foo/a.h'']]\<rparr>"
      True h_foo_once "(empty_dir ''/w'')\<lparr>files := [''/w/a.c'' \<mapsto> src_layout [''foo/a.h'']]\<rparr>"]
    run_a_c run_a_c_old n
  show ?thesis
    by (simp add: src_layout_def include_line_def includeName_def)
qed

subsection \<open>Files that exist before a run\<close>

text \<open>
  Claim C1, as the code has it. In \<^verbatim>\<open>src/main.go\<close> the creation of a file whose
  lower-cased absolute path exists fails with the already-exists error and changes
  nothing, and a whole run leaves every file that existed before it with its content.
  The older program opens its files without \<^verbatim>\<open>O_EXCL\<close> and with \<^verbatim>\<open>O_TRUNC\<close>: there
  the creation succeeds on an existing file and empties it.
\<close>

theorem exclusive_creation:
  "(filepath_Abs (strings_ToLower n) w = Inr fn \<longrightarrow> files w fn = Some c \<longrightarrow>
      createFile n w = (Inl ErrExist, w) \<and>
      createNamedInc g n inc w = (Some ErrExist, w) \<and>
      createNamedSrc g n inc w = (Some ErrExist, w)) \<and>
   (files w p = Some c \<longrightarrow> files (snd (main args w)) p = Some c) \<and>
   (filepath_Abs (strings_ToLower n) w = Inr fn \<longrightarrow> fn \<notin> set (noaccess w) \<longrightarrow>
      createFile_old n w = (Inr (fn, fn), w\<lparr>files := (files w)(fn \<mapsto> [])\<rparr>))"
proof (intro conjI impI)
  assume a: "filepath_Abs (strings_ToLower n) w = Inr fn" "files w fn = Some c"
  then show c: "createFile n w = (Inl ErrExist, w)" by (simp add: createFile_eq)
  then show "createNamedInc g n inc w = (Some ErrExist, w)" by (simp add: createNamedInc_def)
  from c show "createNamedSrc g n inc w = (Some ErrExist, w)" by (simp add: createNamedSrc_def)
next
  assume a: "files w p = Some c"
  have "main args w = (fst (main args w), snd (main args w))" by simp
  from growsD(3)[OF grows_main this] a show "files (snd (main args w)) p = Some c"
    by (auto simp: map_le_def dom_def)
next
  assume "filepath_Abs (strings_ToLower n) w = Inr fn" "fn \<notin> set (noaccess w)"
  then show "createFile_old n w = (Inr (fn, fn), w\<lparr>files := (files w)(fn \<mapsto> [])\<rparr>)"
    by (simp add: createFile_old_eq)
qed

lemma abs_exists: "filepath_Abs ''a.h'' w_exists = Inr ''/w/a.h''"
  by code_simp

theorem exclusive_creation_witness:
  "filepath_Abs (strings_ToLower ''a.h'') w_exists = Inr ''/w/a.h'' \<and>
   files w_exists ''/w/a.h'' = Some ''kept'' \<and>
   createFile ''a.h'' w_exists = (Inl ErrExist, w_exists) \<and>
   createNamedInc g_foo ''a.h'' [] w_exists = (Some ErrExist, w_exists) \<and>
   createNamedSrc g_foo ''a.h'' [] w_exists = (Some ErrExist, w_exists) \<and>
   files (snd (main args_foo w_exists)) ''/w/a.h'' = Some ''kept'' \<and>
   ''/w/a.h'' \<notin> set (noaccess w_exists) \<and>
   createFile_old ''a.h'' w_exists =
     (Inr (''/w/a.h'', ''/w/a.h''), w_exists\<lparr>files := (files w_exists)(''/w/a.h'' \<mapsto> [])\<rparr>)"
proof -
  have a: "filepath_Abs (strings_ToLower ''a.h'') w_exists = Inr ''/w/a.h''"
    by (simp add: lower_ab abs_exists)
  have b: "files w_exists ''/w/a.h'' = Some ''kept''" "''/w/a.h'' \<notin> set (noaccess w_exists)"
    by (simp_all add: w_exists_def)
  from exclusive_creation[of "''a.h''" w_exists "''/w/a.h''" "''kept''" g_foo "[]" "''/w/a.h''" args_foo]
    a b show ?thesis by blast
qed

text \<open>
  Claim C1 as stated fails for the older program: an existing file with content is
  opened and emptied.
\<close>

theorem old_creation_truncates:
  "files w_exists ''/w/a.h'' = Some ''kept'' \<and>
   fst (createFile_old ''a.h'' w_exists) = Inr (''/w/a.h'', ''/w/a.h'') \<and>
   files (snd (createFile_old ''a.h'' w_exists)) ''/w/a.h'' = Some []"
  by (simp add: createFile_old_eq lower_ab abs_exists) (simp add: w_exists_def)

subsection \<open>The run with \<^verbatim>\<open>-name=foo\<close>\<close>

lemma checkFlags_foo: "checkFlags args_foo w = Inr g_foo"
  by (simp add: checkFlags_def args_foo_def g_foo_def pPub_def)

lemma g_foo_fields:
  "name g_foo = ''foo''" "once g_foo = False" "pub g_foo = False" "pfx g_foo = ''pub''"
  "isPfxSet g_foo = False"
  "name g_foo_priv = ''foo''" "once g_foo_priv = False" "pfx g_foo_priv = ''priv''"
  by (simp_all add: g_foo_def g_foo_priv_def pPriv_def)

lemma g_foo_priv_fold: "g_foo\<lparr>pfx := ''priv''\<rparr> = g_foo_priv"
  by (simp add: g_foo_priv_def pPriv_def)

lemma lower_foo:
  "strings_ToLower ''pub_consts.h'' = ''pub_consts.h''"
  "strings_ToLower ''pub_types.h'' = ''pub_types.h''"
  "strings_ToLower ''pub_inlines.h'' = ''pub_inlines.h''"
  "strings_ToLower ''priv_consts.h'' = ''priv_consts.h''"
  "strings_ToLower ''priv_types.h'' = ''priv_types.h''"
  "strings_ToLower ''priv_inlines.h'' = ''priv_inlines.h''"
  "strings_ToLower ''foo.h'' = ''foo.h''"
  "strings_ToLower ''foo.c'' = ''foo.c''"
  by code_simp+

lemma guards_foo:
  "defName g_foo ''pub_consts.h'' = ''__FOO_PUB_CONSTS_H__''"
  "defName g_foo ''pub_types.h'' = ''__FOO_PUB_TYPES_H__''"
  "defName g_foo ''pub_inlines.h'' = ''__FOO_PUB_INLINES_H__''"
  "defName g_foo ''foo.h'' = ''__FOO_FOO_H__''"
  "defName g_foo_priv ''priv_consts.h'' = ''__FOO_PRIV_CONSTS_H__''"
  "defName g_foo_priv ''priv_types.h'' = ''__FOO_PRIV_TYPES_H__''"
  "defName g_foo_priv ''priv_inlines.h'' = ''__FOO_PRIV_INLINES_H__''"
  by code_simp+

lemma main_foo:
  "main args_foo (empty_dir d) =
     (None, (empty_dir d)\<lparr>files :=
        [in_dir d ''pub_consts.h'' \<mapsto> inc_layout False ''__FOO_PUB_CONSTS_H__'' [],
         in_dir d ''pub_types.h'' \<mapsto> inc_layout False ''__FOO_PUB_TYPES_H__'' [''foo/pub_consts.h''],
         in_dir d ''pub_inlines.h'' \<mapsto> inc_layout False ''__FOO_PUB_INLINES_H__'' [''foo/pub_types.h''],
         in_dir d ''foo.h'' \<mapsto> inc_layout False ''__FOO_FOO_H__'' [''foo/pub_inlines.h''],
         in_dir d ''priv_consts.h'' \<mapsto> inc_layout False ''__FOO_PRIV_CONSTS_H__'' [''foo/pub_inlines.h''],
         in_dir d ''priv_types.h'' \<mapsto> inc_layout False ''__FOO_PRIV_TYPES_H__'' [''foo/priv_consts.h''],
         in_dir d ''priv_inlines.h'' \<mapsto> inc_layout False ''__FOO_PRIV_INLINES_H__'' [''foo/priv_types.h''],
         in_dir d ''foo.c'' \<mapsto> src_layout [''foo/priv_inlines.h'']]\<rparr>)"
  unfolding main_def checkFlags_foo
  by (simp add: Let_def g_foo_priv_fold g_foo_fields createIncs_def andThen_def fName_def
      sConsts_def sTypes_def sInlines_def pPub_def pPriv_def
      createNamedInc_go createNamedSrc_go lower_foo guards_foo plain_def empty_dir_def
      includeName_def)

lemma files_foo_card:
  "card (dom [in_dir d ''pub_consts.h'' \<mapsto> c1, in_dir d ''pub_types.h'' \<mapsto> c2,
         in_dir d ''pub_inlines.h'' \<mapsto> c3, in_dir d ''foo.h'' \<mapsto> c4,
         in_dir d ''priv_consts.h'' \<mapsto> c5, in_dir d ''priv_types.h'' \<mapsto> c6,
         in_dir d ''priv_inlines.h'' \<mapsto> c7, in_dir d ''foo.c'' \<mapsto> (c8 :: string)]) = 8"
  by simp

lemma files_foo:
  "files (snd (main args_foo (empty_dir d))) =
        [in_dir d ''pub_consts.h'' \<mapsto> inc_layout False ''__FOO_PUB_CONSTS_H__'' [],
         in_dir d ''pub_types.h'' \<mapsto> inc_layout False ''__FOO_PUB_TYPES_H__'' [''foo/pub_consts.h''],
         in_dir d ''pub_inlines.h'' \<mapsto> inc_layout False ''__FOO_PUB_INLINES_H__'' [''foo/pub_types.h''],
         in_dir d ''foo.h'' \<mapsto> inc_layout False ''__FOO_FOO_H__'' [''foo/pub_inlines.h''],
         in_dir d ''priv_consts.h'' \<mapsto> inc_layout False ''__FOO_PRIV_CONSTS_H__'' [''foo/pub_inlines.h''],
         in_dir d ''priv_types.h'' \<mapsto> inc_layout False ''__FOO_PRIV_TYPES_H__'' [''foo/priv_consts.h''],
         in_dir d ''priv_inlines.h'' \<mapsto> inc_layout False ''__FOO_PRIV_INLINES_H__'' [''foo/priv_types.h''],
         in_dir d ''foo.c'' \<mapsto> src_layout [''foo/priv_inlines.h'']]"
  by (simp add: main_foo)

text \<open>
  Claim C3, as the code has it. Run with \<^verbatim>\<open>-name=foo\<close> and no other flag in an empty
  directory, \<^verbatim>\<open>src/main.go\<close> succeeds and creates exactly eight files:
  \<^verbatim>\<open>pub_consts.h\<close>, \<^verbatim>\<open>pub_types.h\<close>, \<^verbatim>\<open>pub_inlines.h\<close>, \<^verbatim>\<open>foo.h\<close>,
  \<^verbatim>\<open>priv_consts.h\<close>, \<^verbatim>\<open>priv_types.h\<close>, \<^verbatim>\<open>priv_inlines.h\<close> and \<^verbatim>\<open>foo.c\<close>. The
  only include of \<^verbatim>\<open>priv_consts.h\<close> is \<^verbatim>\<open>foo/pub_inlines.h\<close>, and \<^verbatim>\<open>foo.c\<close> is the
  single line that includes \<^verbatim>\<open>foo/priv_inlines.h\<close>.
\<close>

theorem run_name_foo:
  \<open>main args_foo (empty_dir d) =
     (None, (empty_dir d)\<lparr>files :=
        [in_dir d ''pub_consts.h'' \<mapsto> inc_layout False ''__FOO_PUB_CONSTS_H__'' [],
         in_dir d ''pub_types.h'' \<mapsto> inc_layout False ''__FOO_PUB_TYPES_H__'' [''foo/pub_consts.h''],
         in_dir d ''pub_inlines.h'' \<mapsto> inc_layout False ''__FOO_PUB_INLINES_H__'' [''foo/pub_types.h''],
         in_dir d ''foo.h'' \<mapsto> inc_layout False ''__FOO_FOO_H__'' [''foo/pub_inlines.h''],
         in_dir d ''priv_consts.h'' \<mapsto> inc_layout False ''__FOO_PRIV_CONSTS_H__'' [''foo/pub_inlines.h''],
         in_dir d ''priv_types.h'' \<mapsto> inc_layout False ''__FOO_PRIV_TYPES_H__'' [''foo/priv_consts.h''],
         in_dir d ''priv_inlines.h'' \<mapsto> inc_layout False ''__FOO_PRIV_INLINES_H__'' [''foo/priv_types.h''],
         in_dir d ''foo.c'' \<mapsto> src_layout [''foo/priv_inlines.h'']]\<rparr>) \<and>
   card (dom (files (snd (main args_foo (empty_dir d))))) = 8 \<and>
   files (snd (main args_foo (empty_dir d))) (in_dir d ''priv_consts.h'') =
     Some (''#ifndef __FOO_PRIV_CONSTS_H__\<newline>#define __FOO_PRIV_CONSTS_H__\<newline>\<newline>'' @
           ''#include "foo/pub_inlines.h"\<newline>\<newline>#endif //__FOO_PRIV_CONSTS_H__\<newline>'') \<and>
   files (snd (main args_foo (empty_dir d))) (in_dir d ''foo.c'') =
     Some ''#include "foo/priv_inlines.h"\<newline>'' \<and>
   exit_status (main args_foo (empty_dir d)) = 0\<close>
proof -
  have c: "card (dom (files (snd (main args_foo (empty_dir d))))) = 8"
    by (simp only: files_foo files_foo_card)
  have p: \<open>files (snd (main args_foo (empty_dir d))) (in_dir d ''priv_consts.h'') =
     Some (''#ifndef __FOO_PRIV_CONSTS_H__\<newline>#define __FOO_PRIV_CONSTS_H__\<newline>\<newline>'' @
           ''#include "foo/pub_inlines.h"\<newline>\<newline>#endif //__FOO_PRIV_CONSTS_H__\<newline>'')\<close>
    unfolding main_foo by (simp add: inc_layout_def include_line_def)
  have s: \<open>files (snd (main args_foo (empty_dir d))) (in_dir d ''foo.c'') =
     Some ''#include "foo/priv_inlines.h"\<newline>''\<close>
    unfolding main_foo by (simp add: src_layout_def include_line_def)
  have e: "exit_status (main args_foo (empty_dir d)) = 0"
    unfolding main_foo by (simp add: exit_status_def)
  from main_foo[of d] c p s e show ?thesis by blast
qed

text \<open>
  Claim C3 as stated fails: in the directory \<^verbatim>\<open>/w\<close> the run creates eight files, not
  nine, and the first tier is named \<^verbatim>\<open>pub_\<close>, not \<^verbatim>\<open>foo_\<close>.
\<close>

theorem run_name_foo_eight:
  "card (dom (files (snd (main args_foo (empty_dir ''/w''))))) = 8 \<and>
   files (snd (main args_foo (empty_dir ''/w''))) ''/w/foo_consts.h'' = None \<and>
   files (snd (main args_foo (empty_dir ''/w''))) ''/w/foo_types.h'' = None \<and>
   files (snd (main args_foo (empty_dir ''/w''))) ''/w/foo_inlines.h'' = None \<and>
   files (snd (main args_foo (empty_dir ''/w''))) ''/w/pub_consts.h'' =
     Some (inc_layout False ''__FOO_PUB_CONSTS_H__'' [])"
proof -
  have c: "card (dom (files (snd (main args_foo (empty_dir ''/w''))))) = 8"
    by (simp only: files_foo files_foo_card)
  have f: "files (snd (main args_foo (empty_dir ''/w''))) ''/w/foo_consts.h'' = None"
    "files (snd (main args_foo (empty_dir ''/w''))) ''/w/foo_types.h'' = None"
    "files (snd (main args_foo (empty_dir ''/w''))) ''/w/foo_inlines.h'' = None"
    "files (snd (main args_foo (empty_dir ''/w''))) ''/w/pub_consts.h'' =
       Some (inc_layout False ''__FOO_PUB_CONSTS_H__'' [])"
    unfolding main_foo by (simp_all add: in_dir_def prefix_w)
  from c f show ?thesis by blast
qed

subsection \<open>The run with \<^verbatim>\<open>-add=xxx\<close>\<close>

lemma checkFlags_add: "checkFlags (args_add o_arg p_arg) w = Inr (g_add o_arg p_arg)"
  by (simp add: checkFlags_def args_add_def g_add_def flag_value_def)

lemma g_add_fields:
  "name (g_add o_arg p_arg) = []" "once (g_add o_arg p_arg) = flag_value o_arg"
  "pfx (g_add o_arg p_arg) = ''xxx''" "isPfxSet (g_add o_arg p_arg)"
  by (simp_all add: g_add_def)

lemma lower_xxx:
  "strings_ToLower ''xxx_consts.h'' = ''xxx_consts.h''"
  "strings_ToLower ''xxx_types.h'' = ''xxx_types.h''"
  "strings_ToLower ''xxx_inlines.h'' = ''xxx_inlines.h''"
  "strings_ToLower ''xxx.h'' = ''xxx.h''"
  "strings_ToLower ''xxx.c'' = ''xxx.c''"
  by code_simp+

lemma norm_xxx:
  "map norm_new ''xxx_consts.h'' = ''XXX_CONSTS_H''"
  "map norm_new ''xxx_types.h'' = ''XXX_TYPES_H''"
  "map norm_new ''xxx_inlines.h'' = ''XXX_INLINES_H''"
  "map norm_new ''xxx.h'' = ''XXX_H''"
  by code_simp+

lemma guards_xxx:
  "defName (g_add o_arg p_arg) ''xxx_consts.h'' = ''__XXX_CONSTS_H__''"
  "defName (g_add o_arg p_arg) ''xxx_types.h'' = ''__XXX_TYPES_H__''"
  "defName (g_add o_arg p_arg) ''xxx_inlines.h'' = ''__XXX_INLINES_H__''"
  "defName (g_add o_arg p_arg) ''xxx.h'' = ''__XXX_H__''"
proof -
  have inc: "includeName (g_add o_arg p_arg) n = n" for n
    by (simp add: includeName_def g_add_fields)
  show "defName (g_add o_arg p_arg) ''xxx_consts.h'' = ''__XXX_CONSTS_H__''"
    "defName (g_add o_arg p_arg) ''xxx_types.h'' = ''__XXX_TYPES_H__''"
    "defName (g_add o_arg p_arg) ''xxx_inlines.h'' = ''__XXX_INLINES_H__''"
    "defName (g_add o_arg p_arg) ''xxx.h'' = ''__XXX_H__''"
    unfolding defName_eq inc norm_xxx by simp_all
qed

lemma main_add:
  "main (args_add o_arg p_arg) (empty_dir d) =
     (None, (empty_dir d)\<lparr>files :=
        [in_dir d ''xxx_consts.h'' \<mapsto> inc_layout (flag_value o_arg) ''__XXX_CONSTS_H__'' [],
         in_dir d ''xxx_types.h'' \<mapsto> inc_layout (flag_value o_arg) ''__XXX_TYPES_H__'' [''xxx_consts.h''],
         in_dir d ''xxx_inlines.h'' \<mapsto> inc_layout (flag_value o_arg) ''__XXX_INLINES_H__'' [''xxx_types.h''],
         in_dir d ''xxx.h'' \<mapsto> inc_layout (flag_value o_arg) ''__XXX_H__'' [''xxx_inlines.h''],
         in_dir d ''xxx.c'' \<mapsto> src_layout [''xxx.h'']]\<rparr>)"
  unfolding main_def checkFlags_add
  by (simp add: g_add_fields createIncs_def andThen_def fName_def
      sConsts_def sTypes_def sInlines_def
      createNamedInc_go createNamedSrc_go lower_xxx guards_xxx plain_def empty_dir_def
      includeName_def)

lemma files_add_card:
  "card (dom [in_dir d ''xxx_consts.h'' \<mapsto> c1, in_dir d ''xxx_types.h'' \<mapsto> c2,
         in_dir d ''xxx_inlines.h'' \<mapsto> c3, in_dir d ''xxx.h'' \<mapsto> c4,
         in_dir d ''xxx.c'' \<mapsto> (c5 :: string)]) = 5"
  by simp

lemma files_add:
  "files (snd (main (args_add o_arg p_arg) (empty_dir d))) =
        [in_dir d ''xxx_consts.h'' \<mapsto> inc_layout (flag_value o_arg) ''__XXX_CONSTS_H__'' [],
         in_dir d ''xxx_types.h'' \<mapsto> inc_layout (flag_value o_arg) ''__XXX_TYPES_H__'' [''xxx_consts.h''],
         in_dir d ''xxx_inlines.h'' \<mapsto> inc_layout (flag_value o_arg) ''__XXX_INLINES_H__'' [''xxx_types.h''],
         in_dir d ''xxx.h'' \<mapsto> inc_layout (flag_value o_arg) ''__XXX_H__'' [''xxx_inlines.h''],
         in_dir d ''xxx.c'' \<mapsto> src_layout [''xxx.h'']]"
  by (simp add: main_add)

text \<open>
  Claim C8. Run with \<^verbatim>\<open>-add=xxx\<close> and no module name in an empty directory (whatever
  \<^verbatim>\<open>-once\<close> and \<^verbatim>\<open>-pub\<close> are), \<^verbatim>\<open>src/main.go\<close> succeeds and creates exactly the
  five files \<^verbatim>\<open>xxx_consts.h\<close>, \<^verbatim>\<open>xxx_types.h\<close>, \<^verbatim>\<open>xxx_inlines.h\<close>, \<^verbatim>\<open>xxx.h\<close> and
  \<^verbatim>\<open>xxx.c\<close>; \<^verbatim>\<open>xxx.h\<close> includes \<^verbatim>\<open>xxx_inlines.h\<close> and \<^verbatim>\<open>xxx.c\<close> includes
  \<^verbatim>\<open>xxx.h\<close>.
\<close>

theorem run_add_xxx:
  \<open>main (args_add o_arg p_arg) (empty_dir d) =
     (None, (empty_dir d)\<lparr>files :=
        [in_dir d ''xxx_consts.h'' \<mapsto> inc_layout (flag_value o_arg) ''__XXX_CONSTS_H__'' [],
         in_dir d ''xxx_types.h'' \<mapsto> inc_layout (flag_value o_arg) ''__XXX_TYPES_H__'' [''xxx_consts.h''],
         in_dir d ''xxx_inlines.h'' \<mapsto> inc_layout (flag_value o_arg) ''__XXX_INLINES_H__'' [''xxx_types.h''],
         in_dir d ''xxx.h'' \<mapsto> inc_layout (flag_value o_arg) ''__XXX_H__'' [''xxx_inlines.h''],
         in_dir d ''xxx.c'' \<mapsto> src_layout [''xxx.h'']]\<rparr>) \<and>
   card (dom (files (snd (main (args_add o_arg p_arg) (empty_dir d))))) = 5 \<and>
   files (snd (main (args_add o_arg p_arg) (empty_dir d))) (in_dir d ''xxx.c'') =
     Some ''#include "xxx.h"\<newline>'' \<and>
   exit_status (main (args_add o_arg p_arg) (empty_dir d)) = 0\<close>
proof -
  have c: "card (dom (files (snd (main (args_add o_arg p_arg) (empty_dir d))))) = 5"
    by (simp only: files_add files_add_card)
  have s: \<open>files (snd (main (args_add o_arg p_arg) (empty_dir d))) (in_dir d ''xxx.c'') =
     Some ''#include "xxx.h"\<newline>''\<close>
    unfolding main_add by (simp add: src_layout_def include_line_def)
  have e: "exit_status (main (args_add o_arg p_arg) (empty_dir d)) = 0"
    unfolding main_add by (simp add: exit_status_def)
  from main_add[of o_arg p_arg d] c s e show ?thesis by blast
qed

subsection \<open>The two chains of the full flow\<close>

lemma checkFlags_no_add:
  assumes "checkFlags args w = Inr g" "add_arg args = None"
  shows "\<not> isPfxSet g" "pfx g = ''pub''"
  using assms
  by (auto simp: checkFlags_def Let_def pPub_def split: if_splits option.splits)

lemma priv_same:
  "once (g\<lparr>pfx := p\<rparr>) = once g" "defName (g\<lparr>pfx := p\<rparr>) n = defName g n"
  "includeName (g\<lparr>pfx := p\<rparr>) n = includeName g n" "name (g\<lparr>pfx := p\<rparr>) = name g"
  by (simp_all add: defName_eq includeName_def)

text \<open>
  The chains of \<^verbatim>\<open>src/main.go\<close> in a successful run without \<^verbatim>\<open>-add\<close> and
  without the public-only mode.
\<close>

lemma tier_chain_new:
  assumes "checkFlags args w = Inr g" "add_arg args = None" "\<not> pub g"
    and "main args w = (None, w')"
  shows "content_of w' ''pub_consts.h'' =
           Some (inc_layout (once g) (defName g ''pub_consts.h'') []) \<and>
         content_of w' ''pub_types.h'' =
           Some (inc_layout (once g) (defName g ''pub_types.h'') [includeName g ''pub_consts.h'']) \<and>
         content_of w' ''pub_inlines.h'' =
           Some (inc_layout (once g) (defName g ''pub_inlines.h'') [includeName g ''pub_types.h'']) \<and>
         content_of w' ''priv_consts.h'' =
           Some (inc_layout (once g) (defName g ''priv_consts.h'') [includeName g ''pub_inlines.h'']) \<and>
         content_of w' ''priv_types.h'' =
           Some (inc_layout (once g) (defName g ''priv_types.h'') [includeName g ''priv_consts.h'']) \<and>
         content_of w' ''priv_inlines.h'' =
           Some (inc_layout (once g) (defName g ''priv_inlines.h'') [includeName g ''priv_types.h''])"
proof -
  note pf = checkFlags_no_add[OF assms(1,2)]
  let ?gp = "g\<lparr>pfx := pPriv\<rparr>"
  let ?export = "if length (name g) > 0
             then createNamedInc g (name g @ ''.h'') [fName g sInlines] else ok"
  let ?src = "if length (name g) > 0
                     then createNamedSrc ?gp (name g @ ''.c'') [fName ?gp sInlines]
                     else ok"
  let ?rest = "andThen ?export (andThen (createIncs ?gp False) ?src)"
  have body: "main_body g = andThen (createIncs g True) ?rest"
    using pf(1) assms(3) by (simp add: main_body_def)
  have run: "andThen (createIncs g True) ?rest w = (None, w')"
    using assms(1,4) body by (simp add: main_eq)
  have g_export: "grows ?export" by (simp add: grows_createNamedInc grows_ok)
  have g_src: "grows ?src" by (simp add: grows_createNamedSrc grows_ok)
  have g_rest: "grows ?rest"
    by (intro grows_andThen g_export grows_createIncs g_src)
  have pub: "makes (andThen (createIncs g True) ?rest) (fName g s) t"
    if "makes (createIncs g True) (fName g s) t" for s t
    by (rule makes_first[OF that g_rest])
  have priv: "makes (andThen (createIncs g True) ?rest) (fName ?gp s) t"
    if "makes (createIncs ?gp False) (fName ?gp s) t" for s t
    by (intro makes_second makes_first[OF that g_src])
  have nm: "fName g sConsts = ''pub_consts.h''" "fName g sTypes = ''pub_types.h''"
    "fName g sInlines = ''pub_inlines.h''" "pPub @ sInlines = ''pub_inlines.h''"
    "fName ?gp sConsts = ''priv_consts.h''" "fName ?gp sTypes = ''priv_types.h''"
    "fName ?gp sInlines = ''priv_inlines.h''"
    using pf(2) by (simp_all add: fName_def sConsts_def sTypes_def sInlines_def pPub_def pPriv_def)
  from makesD[OF pub[OF makes_createIncs(1)] run] makesD[OF pub[OF makes_createIncs(2)] run]
    makesD[OF pub[OF makes_createIncs(3)] run]
    makesD[OF priv[OF makes_createIncs(1)] run] makesD[OF priv[OF makes_createIncs(2)] run]
    makesD[OF priv[OF makes_createIncs(3)] run]
  show ?thesis
    unfolding nm priv_same by simp
qed

lemma guards_foo_g:
  "defName g_foo ''priv_consts.h'' = ''__FOO_PRIV_CONSTS_H__''"
  "defName g_foo ''priv_types.h'' = ''__FOO_PRIV_TYPES_H__''"
  "defName g_foo ''priv_inlines.h'' = ''__FOO_PRIV_INLINES_H__''"
  by code_simp+

subsection \<open>A custom prefix with a module name\<close>

lemma checkFlags_rejects:
  "checkFlags args w = Inl ErrFlags \<longleftrightarrow> name_arg args \<noteq> None \<and> dir_arg args \<noteq> None"
  by (auto simp: checkFlags_def Let_def split: option.splits if_splits)

lemma checkFlags_add_name:
  assumes "add_arg args = Some p" "p \<noteq> []" "name_arg args = Some n" "dir_arg args = None"
  shows "\<exists>g. checkFlags args w = Inr g \<and> name g = n \<and> pfx g = p \<and> isPfxSet g"
  using assms by (simp add: checkFlags_def Let_def)

lemma checkFlags_add_dir:
  assumes "add_arg args = Some p" "p \<noteq> []" "name_arg args = None" "dir_arg args = Some b"
    "cwd w = Some d"
  shows "\<exists>g. checkFlags args w = Inr g \<and> name g = filepath_Base d \<and> pfx g = p \<and> isPfxSet g"
  using assms by (simp add: checkFlags_def Let_def)

lemma add_run:
  assumes cf: "checkFlags args w = Inr g" and ps: "isPfxSet g" and nm: "name g \<noteq> []"
    and run: "main args w = (None, w')"
  shows "content_of w' (pfx g @ ''_consts.h'') =
           Some (inc_layout (once g) (guard_of (name g @ ''/'' @ pfx g @ ''_consts.h'')) [])"
    "content_of w' (pfx g @ ''_types.h'') =
           Some (inc_layout (once g) (guard_of (name g @ ''/'' @ pfx g @ ''_types.h''))
                   [name g @ ''/'' @ pfx g @ ''_consts.h''])"
    "content_of w' (pfx g @ ''_inlines.h'') =
           Some (inc_layout (once g) (guard_of (name g @ ''/'' @ pfx g @ ''_inlines.h''))
                   [name g @ ''/'' @ pfx g @ ''_types.h''])"
    "content_of w' (pfx g @ ''.h'') =
           Some (inc_layout (once g) (guard_of (name g @ ''/'' @ pfx g @ ''.h''))
                   [name g @ ''/'' @ pfx g @ ''_inlines.h''])"
    "content_of w' (pfx g @ ''.c'') = Some (src_layout [name g @ ''/'' @ pfx g @ ''.h''])"
    "\<forall>q. (\<forall>n\<in>set [pfx g @ ''_consts.h'', pfx g @ ''_types.h'', pfx g @ ''_inlines.h'',
                      pfx g @ ''.h'', pfx g @ ''.c''].
               filepath_Abs (strings_ToLower n) w \<noteq> Inr q) \<longrightarrow> files w' q = files w q"
proof -
  let ?h = "createNamedInc g (pfx g @ ''.h'') [fName g sInlines]"
  let ?c = "createNamedSrc g (pfx g @ ''.c'') [pfx g @ ''.h'']"
  let ?ns = "[pfx g @ ''_consts.h'', pfx g @ ''_types.h'', pfx g @ ''_inlines.h'',
              pfx g @ ''.h'', pfx g @ ''.c'']"
  have body: "main_body g = andThen (createIncs g True) (andThen ?h ?c)"
    using ps by (simp add: main_body_def)
  have run': "andThen (createIncs g True) (andThen ?h ?c) w = (None, w')"
    using cf run body by (simp add: main_eq)
  have g_rest: "grows (andThen ?h ?c)"
    by (intro grows_andThen grows_createNamedInc grows_createNamedSrc)
  have nms: "fName g sConsts = pfx g @ ''_consts.h''" "fName g sTypes = pfx g @ ''_types.h''"
    "fName g sInlines = pfx g @ ''_inlines.h''"
    by (simp_all add: fName_def sConsts_def sTypes_def sInlines_def)
  have inc: "includeName g n = name g @ ''/'' @ n" for n
    using nm by (simp add: includeName_def)
  have gd: "defName g n = guard_of (name g @ ''/'' @ n)" for n
    unfolding defName_eq inc by (simp add: guard_of_def)
  note m1 = makesD[OF makes_first[OF makes_createIncs(1) g_rest] run']
  note m2 = makesD[OF makes_first[OF makes_createIncs(2) g_rest] run']
  note m3 = makesD[OF makes_first[OF makes_createIncs(3) g_rest] run']
  note m4 = makesD[OF makes_second[OF makes_first[OF makes_createNamedInc grows_createNamedSrc]] run']
  note m5 = makesD[OF makes_second[OF makes_second[OF makes_createNamedSrc]] run']
  show "content_of w' (pfx g @ ''_consts.h'') =
           Some (inc_layout (once g) (guard_of (name g @ ''/'' @ pfx g @ ''_consts.h'')) [])"
    using m1 unfolding nms gd by simp
  show "content_of w' (pfx g @ ''_types.h'') =
           Some (inc_layout (once g) (guard_of (name g @ ''/'' @ pfx g @ ''_types.h''))
                   [name g @ ''/'' @ pfx g @ ''_consts.h''])"
    using m2 unfolding nms gd inc by simp
  show "content_of w' (pfx g @ ''_inlines.h'') =
           Some (inc_layout (once g) (guard_of (name g @ ''/'' @ pfx g @ ''_inlines.h''))
                   [name g @ ''/'' @ pfx g @ ''_types.h''])"
    using m3 unfolding nms gd inc by simp
  show "content_of w' (pfx g @ ''.h'') =
           Some (inc_layout (once g) (guard_of (name g @ ''/'' @ pfx g @ ''.h''))
                   [name g @ ''/'' @ pfx g @ ''_inlines.h''])"
    using m4 unfolding nms gd inc by simp
  show "content_of w' (pfx g @ ''.c'') = Some (src_layout [name g @ ''/'' @ pfx g @ ''.h''])"
    using m5 unfolding inc by simp
  have t: "touches_only (andThen (createIncs g True) (andThen ?h ?c)) ?ns"
    by (intro touches_only_andThen touches_only_createIncs touches_only_createNamedInc
        touches_only_createNamedSrc grows_createIncs grows_createNamedInc)
       (simp_all add: nms)
  from t run' show "\<forall>q. (\<forall>n\<in>set ?ns. filepath_Abs (strings_ToLower n) w \<noteq> Inr q) \<longrightarrow>
      files w' q = files w q"
    unfolding touches_only_def by blast
qed

text \<open>
  Claim C9. \<^verbatim>\<open>checkFlags\<close> rejects a command line as incompatible exactly when both
  \<^verbatim>\<open>-name\<close> and \<^verbatim>\<open>-dir\<close> are given; \<^verbatim>\<open>-add\<close> with either of them is accepted and
  keeps the module name. In a successful run with a custom prefix and a non-empty module
  name, the five files of the prefix have guards derived from the qualified path
  \<^verbatim>\<open>name/file\<close> and include lines qualified with the module name, and no path other
  than those of the five files is changed.
\<close>

theorem add_with_name:
  "(checkFlags args w = Inl ErrFlags \<longleftrightarrow> name_arg args \<noteq> None \<and> dir_arg args \<noteq> None) \<and>
   (add_arg args = Some p \<longrightarrow> p \<noteq> [] \<longrightarrow> name_arg args = Some n \<longrightarrow> dir_arg args = None \<longrightarrow>
      (\<exists>g. checkFlags args w = Inr g \<and> name g = n \<and> pfx g = p \<and> isPfxSet g)) \<and>
   (add_arg args = Some p \<longrightarrow> p \<noteq> [] \<longrightarrow> name_arg args = None \<longrightarrow> dir_arg args = Some b \<longrightarrow>
    cwd w = Some d \<longrightarrow>
      (\<exists>g. checkFlags args w = Inr g \<and> name g = filepath_Base d \<and> pfx g = p \<and> isPfxSet g)) \<and>
   (checkFlags args w = Inr g \<longrightarrow> isPfxSet g \<longrightarrow> name g \<noteq> [] \<longrightarrow> main args w = (None, w') \<longrightarrow>
      content_of w' (pfx g @ ''_consts.h'') =
        Some (inc_layout (once g) (guard_of (name g @ ''/'' @ pfx g @ ''_consts.h'')) []) \<and>
      content_of w' (pfx g @ ''_types.h'') =
        Some (inc_layout (once g) (guard_of (name g @ ''/'' @ pfx g @ ''_types.h''))
                [name g @ ''/'' @ pfx g @ ''_consts.h'']) \<and>
      content_of w' (pfx g @ ''_inlines.h'') =
        Some (inc_layout (once g) (guard_of (name g @ ''/'' @ pfx g @ ''_inlines.h''))
                [name g @ ''/'' @ pfx g @ ''_types.h'']) \<and>
      content_of w' (pfx g @ ''.h'') =
        Some (inc_layout (once g) (guard_of (name g @ ''/'' @ pfx g @ ''.h''))
                [name g @ ''/'' @ pfx g @ ''_inlines.h'']) \<and>
      content_of w' (pfx g @ ''.c'') = Some (src_layout [name g @ ''/'' @ pfx g @ ''.h'']) \<and>
      (\<forall>q. (\<forall>n\<in>set [pfx g @ ''_consts.h'', pfx g @ ''_types.h'', pfx g @ ''_inlines.h'',
                       pfx g @ ''.h'', pfx g @ ''.c''].
                filepath_Abs (strings_ToLower n) w \<noteq> Inr q) \<longrightarrow> files w' q = files w q))"
  using checkFlags_rejects[of args w] checkFlags_add_name[of args p n w]
    checkFlags_add_dir[of args p b w d] add_run[of args w g w']
  by blast

lemma checkFlags_xn: "checkFlags args_xn w = Inr g_xn"
  by (simp add: checkFlags_def args_xn_def g_xn_def)

lemma g_xn_fields:
  "name g_xn = ''foo''" "once g_xn = False" "pfx g_xn = ''xxx''" "isPfxSet g_xn"
  by (simp_all add: g_xn_def)

lemma guards_xn:
  "defName g_xn ''xxx_consts.h'' = ''__FOO_XXX_CONSTS_H__''"
  "defName g_xn ''xxx_types.h'' = ''__FOO_XXX_TYPES_H__''"
  "defName g_xn ''xxx_inlines.h'' = ''__FOO_XXX_INLINES_H__''"
  "defName g_xn ''xxx.h'' = ''__FOO_XXX_H__''"
  by code_simp+

lemma guard_of_xn:
  "guard_of (''foo'' @ ''/'' @ ''xxx'' @ ''_consts.h'') = ''__FOO_XXX_CONSTS_H__''"
  "guard_of (''foo'' @ ''/'' @ ''xxx'' @ ''_types.h'') = ''__FOO_XXX_TYPES_H__''"
  "guard_of (''foo'' @ ''/'' @ ''xxx'' @ ''_inlines.h'') = ''__FOO_XXX_INLINES_H__''"
  "guard_of (''foo'' @ ''/'' @ ''xxx'' @ ''.h'') = ''__FOO_XXX_H__''"
  by code_simp+

lemma main_xn:
  "main args_xn (empty_dir d) =
     (None, (empty_dir d)\<lparr>files :=
        [in_dir d ''xxx_consts.h'' \<mapsto> inc_layout False ''__FOO_XXX_CONSTS_H__'' [],
         in_dir d ''xxx_types.h'' \<mapsto> inc_layout False ''__FOO_XXX_TYPES_H__'' [''foo/xxx_consts.h''],
         in_dir d ''xxx_inlines.h'' \<mapsto> inc_layout False ''__FOO_XXX_INLINES_H__'' [''foo/xxx_types.h''],
         in_dir d ''xxx.h'' \<mapsto> inc_layout False ''__FOO_XXX_H__'' [''foo/xxx_inlines.h''],
         in_dir d ''xxx.c'' \<mapsto> src_layout [''foo/xxx.h'']]\<rparr>)"
  unfolding main_def checkFlags_xn
  by (simp add: g_xn_fields createIncs_def andThen_def fName_def
      sConsts_def sTypes_def sInlines_def
      createNamedInc_go createNamedSrc_go lower_xxx guards_xn plain_def empty_dir_def
      includeName_def)

theorem add_with_name_witness:
  "name_arg args_xn = Some ''foo'' \<and> dir_arg args_xn = None \<and> add_arg args_xn = Some ''xxx'' \<and>
   checkFlags args_xn (empty_dir ''/w'') = Inr g_xn \<and>
   name g_xn = ''foo'' \<and> pfx g_xn = ''xxx'' \<and> isPfxSet g_xn \<and>
   fst (main args_xn (empty_dir ''/w'')) = None \<and>
   content_of (snd (main args_xn (empty_dir ''/w''))) ''xxx_consts.h'' =
     Some (inc_layout False ''__FOO_XXX_CONSTS_H__'' []) \<and>
   content_of (snd (main args_xn (empty_dir ''/w''))) ''xxx_types.h'' =
     Some (inc_layout False ''__FOO_XXX_TYPES_H__'' [''foo/xxx_consts.h'']) \<and>
   content_of (snd (main args_xn (empty_dir ''/w''))) ''xxx_inlines.h'' =
     Some (inc_layout False ''__FOO_XXX_INLINES_H__'' [''foo/xxx_types.h'']) \<and>
   content_of (snd (main args_xn (empty_dir ''/w''))) ''xxx.h'' =
     Some (inc_layout False ''__FOO_XXX_H__'' [''foo/xxx_inlines.h'']) \<and>
   content_of (snd (main args_xn (empty_dir ''/w''))) ''xxx.c'' =
     Some (src_layout [''foo/xxx.h'']) \<and>
   files (snd (main args_xn (empty_dir ''/w''))) ''/w/foo.h'' = None \<and>
   files (snd (main args_xn (empty_dir ''/w''))) ''/w/pub_consts.h'' = None \<and>
   name_arg args_xd = None \<and> dir_arg args_xd = Some True \<and> add_arg args_xd = Some ''xxx'' \<and>
   cwd (empty_dir ''/home/mod'') = Some ''/home/mod'' \<and>
   (\<exists>g. checkFlags args_xd (empty_dir ''/home/mod'') = Inr g \<and> name g = ''mod'' \<and>
        pfx g = ''xxx'' \<and> isPfxSet g)"
proof -
  let ?w = "empty_dir ''/w''"
  let ?w' = "snd (main args_xn ?w)"
  have a: "name_arg args_xn = Some ''foo''" "dir_arg args_xn = None"
    "add_arg args_xn = Some ''xxx''"
    by (simp_all add: args_xn_def)
  have b: "name_arg args_xd = None" "dir_arg args_xd = Some True" "add_arg args_xd = Some ''xxx''"
    "cwd (empty_dir ''/home/mod'') = Some ''/home/mod''"
    by (simp_all add: args_xd_def empty_dir_def)
  have m: "main args_xn ?w = (None, ?w')" and f: "fst (main args_xn ?w) = None"
    by (simp_all add: main_xn)
  have ne: "name g_xn \<noteq> []" "''xxx'' \<noteq> []" by (simp_all add: g_xn_fields)
  have e: "files ?w q = None" for q by (simp add: empty_dir_def)
  have abs: "filepath_Abs (strings_ToLower n) ?w = Inr (''/w/'' @ n)"
    if "n \<in> set [''xxx_consts.h'', ''xxx_types.h'', ''xxx_inlines.h'', ''xxx.h'', ''xxx.c'']" for n
    using that Abs_in_dir[of ?w "''/w''" n]
    by (auto simp: lower_xxx plain_def empty_dir_def in_dir_def prefix_w)
  have off: "\<forall>n\<in>set [pfx g_xn @ ''_consts.h'', pfx g_xn @ ''_types.h'', pfx g_xn @ ''_inlines.h'',
                       pfx g_xn @ ''.h'', pfx g_xn @ ''.c''].
                filepath_Abs (strings_ToLower n) ?w \<noteq> Inr q"
    if "q = ''/w/foo.h'' \<or> q = ''/w/pub_consts.h''" for q
    using that abs by (auto simp: g_xn_fields)
  note t = add_with_name[of args_xn ?w "''xxx''" "''foo''" True "''/home/mod''" g_xn ?w']
  from t checkFlags_xn[of ?w] g_xn_fields(4) ne m
  have c: "content_of ?w' (pfx g_xn @ ''_consts.h'') =
        Some (inc_layout (once g_xn) (guard_of (name g_xn @ ''/'' @ pfx g_xn @ ''_consts.h'')) [])"
    "content_of ?w' (pfx g_xn @ ''_types.h'') =
        Some (inc_layout (once g_xn) (guard_of (name g_xn @ ''/'' @ pfx g_xn @ ''_types.h''))
                [name g_xn @ ''/'' @ pfx g_xn @ ''_consts.h''])"
    "content_of ?w' (pfx g_xn @ ''_inlines.h'') =
        Some (inc_layout (once g_xn) (guard_of (name g_xn @ ''/'' @ pfx g_xn @ ''_inlines.h''))
                [name g_xn @ ''/'' @ pfx g_xn @ ''_types.h''])"
    "content_of ?w' (pfx g_xn @ ''.h'') =
        Some (inc_layout (once g_xn) (guard_of (name g_xn @ ''/'' @ pfx g_xn @ ''.h''))
                [name g_xn @ ''/'' @ pfx g_xn @ ''_inlines.h''])"
    "content_of ?w' (pfx g_xn @ ''.c'') = Some (src_layout [name g_xn @ ''/'' @ pfx g_xn @ ''.h''])"
    and o: "\<forall>q. (\<forall>n\<in>set [pfx g_xn @ ''_consts.h'', pfx g_xn @ ''_types.h'', pfx g_xn @ ''_inlines.h'',
                       pfx g_xn @ ''.h'', pfx g_xn @ ''.c''].
                filepath_Abs (strings_ToLower n) ?w \<noteq> Inr q) \<longrightarrow> files ?w' q = files ?w q"
    by blast+
  from o off e have n1: "files ?w' ''/w/foo.h'' = None" "files ?w' ''/w/pub_consts.h'' = None"
    by simp_all
  from add_with_name[of args_xd "empty_dir ''/home/mod''" "''xxx''" n True "''/home/mod''"] b
  have d: "\<exists>g. checkFlags args_xd (empty_dir ''/home/mod'') = Inr g \<and> name g = ''mod'' \<and>
        pfx g = ''xxx'' \<and> isPfxSet g"
    unfolding base_mod by blast
  note c' = c[unfolded g_xn_fields guard_of_xn]
  from a b checkFlags_xn[of ?w] g_xn_fields f c' n1 d show ?thesis
    by simp
qed

subsection \<open>The older program run with \<^verbatim>\<open>-name=foo\<close>\<close>

text \<open>
  The older program creates ten files: each tier has a fourth file
  \<^verbatim>\<open>_includes.h\<close>, the private tier is bridged to \<^verbatim>\<open>pub_includes.h\<close>, and
  \<^verbatim>\<open>foo.c\<close> includes \<^verbatim>\<open>foo/priv_includes.h\<close>.
\<close>

lemma checkFlags_old_foo: "checkFlags_old args_old_foo w = Inr h_foo"
  by (simp add: checkFlags_old_def args_old_foo_def h_foo_def)

lemma h_foo_fields: "name h_foo = ''foo''" "once h_foo = False"
  by (simp_all add: h_foo_def)

lemma lower_includes:
  "strings_ToLower ''pub_includes.h'' = ''pub_includes.h''"
  "strings_ToLower ''priv_includes.h'' = ''priv_includes.h''"
  by code_simp+

lemma guards_old_foo:
  "defName_old h_foo ''pub_consts.h'' = ''__FOO_PUB_CONSTS_H__''"
  "defName_old h_foo ''pub_types.h'' = ''__FOO_PUB_TYPES_H__''"
  "defName_old h_foo ''pub_inlines.h'' = ''__FOO_PUB_INLINES_H__''"
  "defName_old h_foo ''pub_includes.h'' = ''__FOO_PUB_INCLUDES_H__''"
  "defName_old h_foo ''priv_consts.h'' = ''__FOO_PRIV_CONSTS_H__''"
  "defName_old h_foo ''priv_types.h'' = ''__FOO_PRIV_TYPES_H__''"
  "defName_old h_foo ''priv_inlines.h'' = ''__FOO_PRIV_INLINES_H__''"
  "defName_old h_foo ''priv_includes.h'' = ''__FOO_PRIV_INCLUDES_H__''"
  "defName_old h_foo ''foo.h'' = ''__FOO_FOO_H__''"
  by code_simp+

lemma main_old_foo:
  "main_old args_old_foo (empty_dir d) =
     (None, (empty_dir d)\<lparr>files :=
        [in_dir d ''pub_consts.h'' \<mapsto> inc_layout False ''__FOO_PUB_CONSTS_H__'' [],
         in_dir d ''pub_types.h'' \<mapsto> inc_layout False ''__FOO_PUB_TYPES_H__'' [''foo/pub_consts.h''],
         in_dir d ''pub_inlines.h'' \<mapsto> inc_layout False ''__FOO_PUB_INLINES_H__'' [''foo/pub_types.h''],
         in_dir d ''pub_includes.h'' \<mapsto> inc_layout False ''__FOO_PUB_INCLUDES_H__'' [''foo/pub_inlines.h''],
         in_dir d ''priv_consts.h'' \<mapsto> inc_layout False ''__FOO_PRIV_CONSTS_H__'' [''foo/pub_includes.h''],
         in_dir d ''priv_types.h'' \<mapsto> inc_layout False ''__FOO_PRIV_TYPES_H__'' [''foo/priv_consts.h''],
         in_dir d ''priv_inlines.h'' \<mapsto> inc_layout False ''__FOO_PRIV_INLINES_H__'' [''foo/priv_types.h''],
         in_dir d ''priv_includes.h'' \<mapsto> inc_layout False ''__FOO_PRIV_INCLUDES_H__'' [''foo/priv_inlines.h''],
         in_dir d ''foo.h'' \<mapsto> inc_layout False ''__FOO_FOO_H__'' [''foo/pub_includes.h''],
         in_dir d ''foo.c'' \<mapsto> src_layout [''foo/priv_includes.h'']]\<rparr>)"
  unfolding main_old_def checkFlags_old_foo
  by (simp add: h_foo_fields andThen_def
      pubConsts_def pubTypes_def pubInlines_def pubIncludes_def
      privConsts_def privTypes_def privInlines_def privIncludes_def
      createNamedInc_old_go createNamedSrc_old_go lower_foo lower_includes guards_old_foo
      plain_def empty_dir_def includeName_def)

subsection \<open>The chains of both programs\<close>

lemma andThen_NoneE:
  assumes "andThen f k w = (None, w')"
  obtains w1 where "f w = (None, w1)" "k w1 = (None, w')"
proof -
  obtain r1 w1 where fw: "f w = (r1, w1)" by (cases "f w")
  with assms have "r1 = None" "k w1 = (None, w')"
    by (cases r1; simp add: andThen_def)+
  with fw that show ?thesis by simp
qed

lemma Abs_relative:
  assumes "filepath_Abs p w = Inr fn" "plain p"
  shows "\<exists>d. cwd w = Some d"
proof -
  have "\<not> (p \<noteq> [] \<and> hd p = CHR ''/'')"
    using assms(2) by (cases p) (auto simp: plain_def)
  with assms(1) show ?thesis
    by (auto simp: filepath_Abs_def split: option.splits)
qed

lemma inc_old_put:
  assumes "createNamedInc_old g n inc w = (None, w')"
  shows "\<exists>fn. filepath_Abs (strings_ToLower n) w = Inr fn \<and> cwd w' = cwd w \<and>
     files w' = (files w)(fn \<mapsto> inc_layout (once g) (defName_old g n) (map (includeName g) inc))"
  using createNamedInc_old_cases(1,3)[OF assms] by auto

lemma src_old_put:
  assumes "createNamedSrc_old g n inc w = (None, w')"
  shows "\<exists>fn. filepath_Abs (strings_ToLower n) w = Inr fn \<and> cwd w' = cwd w \<and>
     files w' = (files w)(fn \<mapsto> src_layout (map (includeName g) inc))"
  using createNamedSrc_old_cases(1,3)[OF assms] by auto

lemma inc_old_plain:
  assumes "createNamedInc_old g n inc w = (None, w')" "cwd w = Some d" "plain (strings_ToLower n)"
  shows "cwd w' = Some d"
    "files w' = (files w)(in_dir d (strings_ToLower n) \<mapsto>
        inc_layout (once g) (defName_old g n) (map (includeName g) inc))"
  using inc_old_put[OF assms(1)] Abs_in_dir[OF assms(2,3)] assms(2) by auto

lemma old_tier_lower:
  "strings_ToLower pubConsts = ''pub_consts.h''" "strings_ToLower pubTypes = ''pub_types.h''"
  "strings_ToLower pubInlines = ''pub_inlines.h''" "strings_ToLower pubIncludes = ''pub_includes.h''"
  "strings_ToLower privConsts = ''priv_consts.h''" "strings_ToLower privTypes = ''priv_types.h''"
  "strings_ToLower privInlines = ''priv_inlines.h''"
  "strings_ToLower privIncludes = ''priv_includes.h''"
  unfolding pubConsts_def pubTypes_def pubInlines_def pubIncludes_def
    privConsts_def privTypes_def privInlines_def privIncludes_def
  by (rule lower_foo lower_includes)+

lemma old_tier_plain:
  "plain ''pub_consts.h''" "plain ''pub_types.h''" "plain ''pub_inlines.h''"
  "plain ''pub_includes.h''" "plain ''priv_consts.h''" "plain ''priv_types.h''"
  "plain ''priv_inlines.h''" "plain ''priv_includes.h''"
  by (simp_all add: plain_def)

lemma content_in_dir:
  assumes "cwd w = Some d" "plain n" "strings_ToLower n = n"
  shows "content_of w n = files w (in_dir d n)"
  using Abs_in_dir[OF assms(1,2)] assms(3) by (simp add: content_of_def)

lemma tier_chain_old:
  assumes cf: "checkFlags_old args w = Inr h" and run: "main_old args w = (None, w')"
    and apart: "export_apart h w"
  shows "content_of w' ''pub_consts.h'' =
           Some (inc_layout (once h) (defName_old h ''pub_consts.h'') []) \<and>
         content_of w' ''pub_types.h'' =
           Some (inc_layout (once h) (defName_old h ''pub_types.h'') [includeName h ''pub_consts.h'']) \<and>
         content_of w' ''pub_inlines.h'' =
           Some (inc_layout (once h) (defName_old h ''pub_inlines.h'') [includeName h ''pub_types.h'']) \<and>
         content_of w' ''pub_includes.h'' =
           Some (inc_layout (once h) (defName_old h ''pub_includes.h'') [includeName h ''pub_inlines.h'']) \<and>
         content_of w' ''priv_consts.h'' =
           Some (inc_layout (once h) (defName_old h ''priv_consts.h'') [includeName h ''pub_includes.h'']) \<and>
         content_of w' ''priv_types.h'' =
           Some (inc_layout (once h) (defName_old h ''priv_types.h'') [includeName h ''priv_consts.h'']) \<and>
         content_of w' ''priv_inlines.h'' =
           Some (inc_layout (once h) (defName_old h ''priv_inlines.h'') [includeName h ''priv_types.h'']) \<and>
         content_of w' ''priv_includes.h'' =
           Some (inc_layout (once h) (defName_old h ''priv_includes.h'') [includeName h ''priv_inlines.h''])"
proof -
  let ?tail = "if length (name h) = 0 then ok
             else andThen (createNamedInc_old h (name h @ ''.h'') [pubIncludes])
                    (createNamedSrc_old h (name h @ ''.c'') [privIncludes])"
  from run cf have r0:
    "andThen (createNamedInc_old h pubConsts [])
    (andThen (createNamedInc_old h pubTypes [pubConsts])
    (andThen (createNamedInc_old h pubInlines [pubTypes])
    (andThen (createNamedInc_old h pubIncludes [pubInlines])
    (andThen (createNamedInc_old h privConsts [pubIncludes])
    (andThen (createNamedInc_old h privTypes [privConsts])
    (andThen (createNamedInc_old h privInlines [privTypes])
    (andThen (createNamedInc_old h privIncludes [privInlines]) ?tail))))))) w = (None, w')"
    by (simp add: main_old_def)
  from r0 obtain w1 where s1: "createNamedInc_old h pubConsts [] w = (None, w1)"
    and r1: "andThen (createNamedInc_old h pubTypes [pubConsts])
    (andThen (createNamedInc_old h pubInlines [pubTypes])
    (andThen (createNamedInc_old h pubIncludes [pubInlines])
    (andThen (createNamedInc_old h privConsts [pubIncludes])
    (andThen (createNamedInc_old h privTypes [privConsts])
    (andThen (createNamedInc_old h privInlines [privTypes])
    (andThen (createNamedInc_old h privIncludes [privInlines]) ?tail)))))) w1 = (None, w')"
    by (rule andThen_NoneE)
  from r1 obtain w2 where s2: "createNamedInc_old h pubTypes [pubConsts] w1 = (None, w2)"
    and r2: "andThen (createNamedInc_old h pubInlines [pubTypes])
    (andThen (createNamedInc_old h pubIncludes [pubInlines])
    (andThen (createNamedInc_old h privConsts [pubIncludes])
    (andThen (createNamedInc_old h privTypes [privConsts])
    (andThen (createNamedInc_old h privInlines [privTypes])
    (andThen (createNamedInc_old h privIncludes [privInlines]) ?tail))))) w2 = (None, w')"
    by (rule andThen_NoneE)
  from r2 obtain w3 where s3: "createNamedInc_old h pubInlines [pubTypes] w2 = (None, w3)"
    and r3: "andThen (createNamedInc_old h pubIncludes [pubInlines])
    (andThen (createNamedInc_old h privConsts [pubIncludes])
    (andThen (createNamedInc_old h privTypes [privConsts])
    (andThen (createNamedInc_old h privInlines [privTypes])
    (andThen (createNamedInc_old h privIncludes [privInlines]) ?tail)))) w3 = (None, w')"
    by (rule andThen_NoneE)
  from r3 obtain w4 where s4: "createNamedInc_old h pubIncludes [pubInlines] w3 = (None, w4)"
    and r4: "andThen (createNamedInc_old h privConsts [pubIncludes])
    (andThen (createNamedInc_old h privTypes [privConsts])
    (andThen (createNamedInc_old h privInlines [privTypes])
    (andThen (createNamedInc_old h privIncludes [privInlines]) ?tail))) w4 = (None, w')"
    by (rule andThen_NoneE)
  from r4 obtain w5 where s5: "createNamedInc_old h privConsts [pubIncludes] w4 = (None, w5)"
    and r5: "andThen (createNamedInc_old h privTypes [privConsts])
    (andThen (createNamedInc_old h privInlines [privTypes])
    (andThen (createNamedInc_old h privIncludes [privInlines]) ?tail)) w5 = (None, w')"
    by (rule andThen_NoneE)
  from r5 obtain w6 where s6: "createNamedInc_old h privTypes [privConsts] w5 = (None, w6)"
    and r6: "andThen (createNamedInc_old h privInlines [privTypes])
    (andThen (createNamedInc_old h privIncludes [privInlines]) ?tail) w6 = (None, w')"
    by (rule andThen_NoneE)
  from r6 obtain w7 where s7: "createNamedInc_old h privInlines [privTypes] w6 = (None, w7)"
    and r7: "andThen (createNamedInc_old h privIncludes [privInlines]) ?tail w7 = (None, w')"
    by (rule andThen_NoneE)
  from r7 obtain w8 where s8: "createNamedInc_old h privIncludes [privInlines] w7 = (None, w8)"
    and r8: "?tail w8 = (None, w')"
    by (rule andThen_NoneE)
  note pl = old_tier_plain[folded old_tier_lower]
  from inc_old_put[OF s1] obtain fn1 where "filepath_Abs (strings_ToLower pubConsts) w = Inr fn1"
    by blast
  from Abs_relative[OF this pl(1)] obtain d where d: "cwd w = Some d" by blast
  note p1 = inc_old_plain[OF s1 d pl(1)]
  note p2 = inc_old_plain[OF s2 p1(1) pl(2)]
  note p3 = inc_old_plain[OF s3 p2(1) pl(3)]
  note p4 = inc_old_plain[OF s4 p3(1) pl(4)]
  note p5 = inc_old_plain[OF s5 p4(1) pl(5)]
  note p6 = inc_old_plain[OF s6 p5(1) pl(6)]
  note p7 = inc_old_plain[OF s7 p6(1) pl(7)]
  note p8 = inc_old_plain[OF s8 p7(1) pl(8)]
  have f8: "files w8 = (files w)
     (in_dir d ''pub_consts.h'' \<mapsto> inc_layout (once h) (defName_old h ''pub_consts.h'') [],
      in_dir d ''pub_types.h'' \<mapsto>
        inc_layout (once h) (defName_old h ''pub_types.h'') [includeName h ''pub_consts.h''],
      in_dir d ''pub_inlines.h'' \<mapsto>
        inc_layout (once h) (defName_old h ''pub_inlines.h'') [includeName h ''pub_types.h''],
      in_dir d ''pub_includes.h'' \<mapsto>
        inc_layout (once h) (defName_old h ''pub_includes.h'') [includeName h ''pub_inlines.h''],
      in_dir d ''priv_consts.h'' \<mapsto>
        inc_layout (once h) (defName_old h ''priv_consts.h'') [includeName h ''pub_includes.h''],
      in_dir d ''priv_types.h'' \<mapsto>
        inc_layout (once h) (defName_old h ''priv_types.h'') [includeName h ''priv_consts.h''],
      in_dir d ''priv_inlines.h'' \<mapsto>
        inc_layout (once h) (defName_old h ''priv_inlines.h'') [includeName h ''priv_types.h''],
      in_dir d ''priv_includes.h'' \<mapsto>
        inc_layout (once h) (defName_old h ''priv_includes.h'') [includeName h ''priv_inlines.h''])"
    unfolding p8(2) p7(2) p6(2) p5(2) p4(2) p3(2) p2(2) p1(2) old_tier_lower
    by (simp add: pubConsts_def pubTypes_def pubInlines_def pubIncludes_def
        privConsts_def privTypes_def privInlines_def privIncludes_def)
  have keep: "cwd w' = Some d \<and>
      (\<forall>n\<in>set [''pub_consts.h'', ''pub_types.h'', ''pub_inlines.h'', ''pub_includes.h'',
                 ''priv_consts.h'', ''priv_types.h'', ''priv_inlines.h'', ''priv_includes.h''].
         files w' (in_dir d n) = files w8 (in_dir d n))"
  proof (cases "name h = []")
    case True
    with r8 have "w' = w8" by (simp add: ok_def)
    with p8(1) show ?thesis by simp
  next
    case False
    with r8 obtain w9 where s9: "createNamedInc_old h (name h @ ''.h'') [pubIncludes] w8 = (None, w9)"
      and s10: "createNamedSrc_old h (name h @ ''.c'') [privIncludes] w9 = (None, w')"
      by (auto elim: andThen_NoneE)
    from inc_old_put[OF s9] obtain q9 where q9:
      "filepath_Abs (strings_ToLower (name h @ ''.h'')) w8 = Inr q9" "cwd w9 = cwd w8"
      "files w9 = (files w8)(q9 \<mapsto>
         inc_layout (once h) (defName_old h (name h @ ''.h'')) (map (includeName h) [pubIncludes]))"
      by blast
    from src_old_put[OF s10] obtain q10 where q10:
      "filepath_Abs (strings_ToLower (name h @ ''.c'')) w9 = Inr q10" "cwd w' = cwd w9"
      "files w' = (files w9)(q10 \<mapsto> src_layout (map (includeName h) [privIncludes]))"
      by blast
    have c8: "cwd w8 = cwd w" using p8(1) d by simp
    have c9: "cwd w9 = cwd w" using q9(2) c8 by simp
    have a9: "filepath_Abs (strings_ToLower (name h @ ''.h'')) w = Inr q9"
      using q9(1) content_of_cwd[OF c8] by simp
    have a10: "filepath_Abs (strings_ToLower (name h @ ''.c'')) w = Inr q10"
      using q10(1) content_of_cwd[OF c9] by simp
    have ne: "q9 \<noteq> in_dir d n \<and> q10 \<noteq> in_dir d n"
      if "n \<in> set [''pub_consts.h'', ''pub_types.h'', ''pub_inlines.h'', ''pub_includes.h'',
                 ''priv_consts.h'', ''priv_types.h'', ''priv_inlines.h'', ''priv_includes.h'']" for n
    proof -
      from that have n: "n \<in> set old_tier" "plain n" "strings_ToLower n = n"
        using old_tier_plain old_tier_lower
        by (auto simp: old_tier_def pubConsts_def pubTypes_def pubInlines_def pubIncludes_def
            privConsts_def privTypes_def privInlines_def privIncludes_def)
      from apart False n(1) have
        "filepath_Abs (strings_ToLower (name h @ ''.h'')) w \<noteq> filepath_Abs (strings_ToLower n) w"
        "filepath_Abs (strings_ToLower (name h @ ''.c'')) w \<noteq> filepath_Abs (strings_ToLower n) w"
        by (auto simp: export_apart_def list_all_iff)
      with a9 a10 Abs_in_dir[OF d n(2)] n(3) show ?thesis by simp
    qed
    have "files w' (in_dir d n) = files w8 (in_dir d n)"
      if "n \<in> set [''pub_consts.h'', ''pub_types.h'', ''pub_inlines.h'', ''pub_includes.h'',
                 ''priv_consts.h'', ''priv_types.h'', ''priv_inlines.h'', ''priv_includes.h'']" for n
      using ne[OF that] q9(3) q10(3) by auto
    moreover have "cwd w' = Some d" using q10(2) c9 d by simp
    ultimately show ?thesis by blast
  qed
  from keep have cw: "cwd w' = Some d" by blast
  have ct: "content_of w' n = files w8 (in_dir d n)"
    if "n \<in> set [''pub_consts.h'', ''pub_types.h'', ''pub_inlines.h'', ''pub_includes.h'',
                 ''priv_consts.h'', ''priv_types.h'', ''priv_inlines.h'', ''priv_includes.h'']" for n
  proof -
    from that have n: "plain n" "strings_ToLower n = n"
      using old_tier_plain old_tier_lower
      by (auto simp: pubConsts_def pubTypes_def pubInlines_def pubIncludes_def
            privConsts_def privTypes_def privInlines_def privIncludes_def)
    from content_in_dir[OF cw n] keep that show ?thesis by auto
  qed
  show ?thesis
    by (simp add: ct f8)
qed

text \<open>
  Claim C5, as the code has it. In a successful run of \<^verbatim>\<open>src/main.go\<close> without
  \<^verbatim>\<open>-add\<close> and without the public-only mode, \<^verbatim>\<open>pub_consts.h\<close> has no include, the
  only include of \<^verbatim>\<open>priv_consts.h\<close> is the include path of \<^verbatim>\<open>pub_inlines.h\<close>, and
  each of the other four files of the two chains includes exactly the file before it in
  its own chain. In a successful run of the older program whose export files are none
  of the tier files, each chain has a fourth file \<^verbatim>\<open>_includes.h\<close>, the only include of
  \<^verbatim>\<open>priv_consts.h\<close> is the include path of \<^verbatim>\<open>pub_includes.h\<close>, \<^verbatim>\<open>pub_consts.h\<close> has
  no include, and each of the other six files includes exactly the file before it in its
  own chain.
\<close>

theorem tier_chains:
  "(checkFlags args w = Inr g \<longrightarrow> add_arg args = None \<longrightarrow> \<not> pub g \<longrightarrow> main args w = (None, w') \<longrightarrow>
      content_of w' ''pub_consts.h'' =
        Some (inc_layout (once g) (defName g ''pub_consts.h'') []) \<and>
      content_of w' ''pub_types.h'' =
        Some (inc_layout (once g) (defName g ''pub_types.h'') [includeName g ''pub_consts.h'']) \<and>
      content_of w' ''pub_inlines.h'' =
        Some (inc_layout (once g) (defName g ''pub_inlines.h'') [includeName g ''pub_types.h'']) \<and>
      content_of w' ''priv_consts.h'' =
        Some (inc_layout (once g) (defName g ''priv_consts.h'') [includeName g ''pub_inlines.h'']) \<and>
      content_of w' ''priv_types.h'' =
        Some (inc_layout (once g) (defName g ''priv_types.h'') [includeName g ''priv_consts.h'']) \<and>
      content_of w' ''priv_inlines.h'' =
        Some (inc_layout (once g) (defName g ''priv_inlines.h'') [includeName g ''priv_types.h''])) \<and>
   (checkFlags_old args_o v = Inr h \<longrightarrow> export_apart h v \<longrightarrow> main_old args_o v = (None, v') \<longrightarrow>
      content_of v' ''pub_consts.h'' =
        Some (inc_layout (once h) (defName_old h ''pub_consts.h'') []) \<and>
      content_of v' ''pub_types.h'' =
        Some (inc_layout (once h) (defName_old h ''pub_types.h'') [includeName h ''pub_consts.h'']) \<and>
      content_of v' ''pub_inlines.h'' =
        Some (inc_layout (once h) (defName_old h ''pub_inlines.h'') [includeName h ''pub_types.h'']) \<and>
      content_of v' ''pub_includes.h'' =
        Some (inc_layout (once h) (defName_old h ''pub_includes.h'') [includeName h ''pub_inlines.h'']) \<and>
      content_of v' ''priv_consts.h'' =
        Some (inc_layout (once h) (defName_old h ''priv_consts.h'') [includeName h ''pub_includes.h'']) \<and>
      content_of v' ''priv_types.h'' =
        Some (inc_layout (once h) (defName_old h ''priv_types.h'') [includeName h ''priv_consts.h'']) \<and>
      content_of v' ''priv_inlines.h'' =
        Some (inc_layout (once h) (defName_old h ''priv_inlines.h'') [includeName h ''priv_types.h'']) \<and>
      content_of v' ''priv_includes.h'' =
        Some (inc_layout (once h) (defName_old h ''priv_includes.h'')
                [includeName h ''priv_inlines.h'']))"
proof (intro conjI impI)
  assume a: "checkFlags args w = Inr g" "add_arg args = None" "\<not> pub g" "main args w = (None, w')"
  note t = tier_chain_new[OF a]
  from t show "content_of w' ''pub_consts.h'' =
        Some (inc_layout (once g) (defName g ''pub_consts.h'') [])" by blast
  from t show "content_of w' ''pub_types.h'' =
        Some (inc_layout (once g) (defName g ''pub_types.h'') [includeName g ''pub_consts.h''])"
    by blast
  from t show "content_of w' ''pub_inlines.h'' =
        Some (inc_layout (once g) (defName g ''pub_inlines.h'') [includeName g ''pub_types.h''])"
    by blast
  from t show "content_of w' ''priv_consts.h'' =
        Some (inc_layout (once g) (defName g ''priv_consts.h'') [includeName g ''pub_inlines.h''])"
    by blast
  from t show "content_of w' ''priv_types.h'' =
        Some (inc_layout (once g) (defName g ''priv_types.h'') [includeName g ''priv_consts.h''])"
    by blast
  from t show "content_of w' ''priv_inlines.h'' =
        Some (inc_layout (once g) (defName g ''priv_inlines.h'') [includeName g ''priv_types.h''])"
    by blast
next
  assume b: "checkFlags_old args_o v = Inr h" "export_apart h v" "main_old args_o v = (None, v')"
  note t = tier_chain_old[OF b(1,3,2)]
  from t show "content_of v' ''pub_consts.h'' =
        Some (inc_layout (once h) (defName_old h ''pub_consts.h'') [])" by blast
  from t show "content_of v' ''pub_types.h'' =
        Some (inc_layout (once h) (defName_old h ''pub_types.h'') [includeName h ''pub_consts.h''])"
    by blast
  from t show "content_of v' ''pub_inlines.h'' =
        Some (inc_layout (once h) (defName_old h ''pub_inlines.h'') [includeName h ''pub_types.h''])"
    by blast
  from t show "content_of v' ''pub_includes.h'' =
        Some (inc_layout (once h) (defName_old h ''pub_includes.h'') [includeName h ''pub_inlines.h''])"
    by blast
  from t show "content_of v' ''priv_consts.h'' =
        Some (inc_layout (once h) (defName_old h ''priv_consts.h'') [includeName h ''pub_includes.h''])"
    by blast
  from t show "content_of v' ''priv_types.h'' =
        Some (inc_layout (once h) (defName_old h ''priv_types.h'') [includeName h ''priv_consts.h''])"
    by blast
  from t show "content_of v' ''priv_inlines.h'' =
        Some (inc_layout (once h) (defName_old h ''priv_inlines.h'') [includeName h ''priv_types.h''])"
    by blast
  from t show "content_of v' ''priv_includes.h'' =
        Some (inc_layout (once h) (defName_old h ''priv_includes.h'')
                [includeName h ''priv_inlines.h''])"
    by blast
qed

lemma apart_foo: "export_apart h_foo (empty_dir ''/w'')"
proof -
  have c: "cwd (empty_dir ''/w'') = Some ''/w''" by (simp add: empty_dir_def)
  have a: "filepath_Abs n (empty_dir ''/w'') = Inr (in_dir ''/w'' n)" if "plain n" for n
    by (rule Abs_in_dir[OF c that])
  show ?thesis
    unfolding export_apart_def old_tier_def h_foo_fields
    by (simp add: old_tier_lower lower_foo a plain_def)
qed

theorem tier_chains_witness:
  "checkFlags args_foo (empty_dir ''/w'') = Inr g_foo \<and> add_arg args_foo = None \<and>
   \<not> pub g_foo \<and> fst (main args_foo (empty_dir ''/w'')) = None \<and>
   content_of (snd (main args_foo (empty_dir ''/w''))) ''pub_consts.h'' =
     Some (inc_layout False ''__FOO_PUB_CONSTS_H__'' []) \<and>
   content_of (snd (main args_foo (empty_dir ''/w''))) ''pub_types.h'' =
     Some (inc_layout False ''__FOO_PUB_TYPES_H__'' [''foo/pub_consts.h'']) \<and>
   content_of (snd (main args_foo (empty_dir ''/w''))) ''pub_inlines.h'' =
     Some (inc_layout False ''__FOO_PUB_INLINES_H__'' [''foo/pub_types.h'']) \<and>
   content_of (snd (main args_foo (empty_dir ''/w''))) ''priv_consts.h'' =
     Some (inc_layout False ''__FOO_PRIV_CONSTS_H__'' [''foo/pub_inlines.h'']) \<and>
   content_of (snd (main args_foo (empty_dir ''/w''))) ''priv_types.h'' =
     Some (inc_layout False ''__FOO_PRIV_TYPES_H__'' [''foo/priv_consts.h'']) \<and>
   content_of (snd (main args_foo (empty_dir ''/w''))) ''priv_inlines.h'' =
     Some (inc_layout False ''__FOO_PRIV_INLINES_H__'' [''foo/priv_types.h'']) \<and>
   checkFlags_old args_old_foo (empty_dir ''/w'') = Inr h_foo \<and>
   export_apart h_foo (empty_dir ''/w'') \<and>
   fst (main_old args_old_foo (empty_dir ''/w'')) = None \<and>
   content_of (snd (main_old args_old_foo (empty_dir ''/w''))) ''pub_consts.h'' =
     Some (inc_layout False ''__FOO_PUB_CONSTS_H__'' []) \<and>
   content_of (snd (main_old args_old_foo (empty_dir ''/w''))) ''pub_types.h'' =
     Some (inc_layout False ''__FOO_PUB_TYPES_H__'' [''foo/pub_consts.h'']) \<and>
   content_of (snd (main_old args_old_foo (empty_dir ''/w''))) ''pub_inlines.h'' =
     Some (inc_layout False ''__FOO_PUB_INLINES_H__'' [''foo/pub_types.h'']) \<and>
   content_of (snd (main_old args_old_foo (empty_dir ''/w''))) ''pub_includes.h'' =
     Some (inc_layout False ''__FOO_PUB_INCLUDES_H__'' [''foo/pub_inlines.h'']) \<and>
   content_of (snd (main_old args_old_foo (empty_dir ''/w''))) ''priv_consts.h'' =
     Some (inc_layout False ''__FOO_PRIV_CONSTS_H__'' [''foo/pub_includes.h'']) \<and>
   content_of (snd (main_old args_old_foo (empty_dir ''/w''))) ''priv_types.h'' =
     Some (inc_layout False ''__FOO_PRIV_TYPES_H__'' [''foo/priv_consts.h'']) \<and>
   content_of (snd (main_old args_old_foo (empty_dir ''/w''))) ''priv_inlines.h'' =
     Some (inc_layout False ''__FOO_PRIV_INLINES_H__'' [''foo/priv_types.h'']) \<and>
   content_of (snd (main_old args_old_foo (empty_dir ''/w''))) ''priv_includes.h'' =
     Some (inc_layout False ''__FOO_PRIV_INCLUDES_H__'' [''foo/priv_inlines.h''])"
proof -
  let ?w = "empty_dir ''/w''"
  have a: "add_arg args_foo = None" by (simp add: args_foo_def)
  have p: "\<not> pub g_foo" by (simp add: g_foo_fields)
  have m: "main args_foo ?w = (None, snd (main args_foo ?w))"
    and f: "fst (main args_foo ?w) = None"
    by (simp_all add: main_foo)
  have mo: "main_old args_old_foo ?w = (None, snd (main_old args_old_foo ?w))"
    and fo: "fst (main_old args_old_foo ?w) = None"
    by (simp_all add: main_old_foo)
  have i: "includeName g_foo n = ''foo/'' @ n" "includeName h_foo n = ''foo/'' @ n" for n
    by (simp_all add: includeName_def g_foo_fields h_foo_fields)
  note t = tier_chains[of args_foo ?w g_foo "snd (main args_foo ?w)"
      args_old_foo ?w h_foo "snd (main_old args_old_foo ?w)",
      unfolded guards_foo guards_foo_g guards_old_foo i g_foo_fields h_foo_fields]
  from t checkFlags_foo[of ?w] checkFlags_old_foo[of ?w] apart_foo a p m f mo fo
  show ?thesis
    by simp
qed

text \<open>
  Claim C5 as stated fails for the older program: run with \<^verbatim>\<open>-name=foo\<close> in the empty
  directory \<^verbatim>\<open>/w\<close>, it writes a \<^verbatim>\<open>priv_consts.h\<close> whose only include is
  \<^verbatim>\<open>foo/pub_includes.h\<close>, not \<^verbatim>\<open>foo/pub_inlines.h\<close>.
\<close>

theorem old_bridge_is_pub_includes:
  \<open>fst (main_old args_old_foo (empty_dir ''/w'')) = None \<and>
   files (snd (main_old args_old_foo (empty_dir ''/w''))) ''/w/priv_consts.h'' =
     Some (''#ifndef __FOO_PRIV_CONSTS_H__\<newline>#define __FOO_PRIV_CONSTS_H__\<newline>\<newline>'' @
           ''#include "foo/pub_includes.h"\<newline>\<newline>#endif //__FOO_PRIV_CONSTS_H__\<newline>'') \<and>
   files (snd (main_old args_old_foo (empty_dir ''/w''))) ''/w/priv_consts.h'' \<noteq>
     Some (inc_layout False ''__FOO_PRIV_CONSTS_H__'' [''foo/pub_inlines.h''])\<close>
  unfolding main_old_foo
  by (simp add: in_dir_def prefix_w inc_layout_def include_line_def)

end
